theory Spec2Isabelle
  imports Complex_Main "HOL-Library.Sublist"
begin

section \<open>JavaScript values\<close>

text \<open>
  A JavaScript number is \<open>NaN\<close>, one of the two infinities, or a finite value. Finite
  values are kept exact (rationals); rounding of binary floating point is not modelled.
\<close>

datatype jsnumber = NaN | PosInfinity | NegInfinity | Num rat

fun isNaN :: "jsnumber \<Rightarrow> bool" where
  "isNaN NaN = True"
| "isNaN _ = False"

text \<open>Truthiness of a number: \<open>0\<close> and \<open>NaN\<close> are falsy.\<close>

fun truthy_number :: "jsnumber \<Rightarrow> bool" where
  "truthy_number NaN = False"
| "truthy_number (Num r) = (r \<noteq> 0)"
| "truthy_number _ = True"

text \<open>\<open>Math.round\<close>: the nearest integer, ties towards plus infinity.\<close>

fun Math_round :: "jsnumber \<Rightarrow> jsnumber" where
  "Math_round (Num r) = Num (of_int \<lfloor>r + 1 / 2\<rfloor>)"
| "Math_round n = n"

text \<open>The value tree that \<open>JSON.parse\<close> and \<open>response.json()\<close> produce. An object is
  the list of its own properties.\<close>

datatype json =
    JNull
  | JBool bool
  | JNumber jsnumber
  | JString string
  | JArray "json list"
  | JObject "(string \<times> json) list"

text \<open>Decimal rendering of a non-negative integer, as a template literal does it.\<close>

definition digit_char :: "nat \<Rightarrow> char" where
  "digit_char d = ''0123456789'' ! d"

fun show_nat :: "nat \<Rightarrow> string" where
  "show_nat n = (if n < 10 then [digit_char n] else show_nat (n div 10) @ [digit_char (n mod 10)])"

declare show_nat.simps [simp del]

section \<open>Schema validation (src/api/schemas.ts)\<close>

text \<open>
  The schemas are built from the combinators of the validation library. A parse either
  returns the typed value or fails with the list of issues found; each issue has the path
  of the offending field and what was wrong with it. A value that is absent
  (\<open>undefined\<close>) is \<open>None\<close>.
\<close>

datatype zod_type = ZString | ZNumber | ZNan | ZBoolean | ZNull | ZUndefined | ZArray | ZObject

datatype path_elem = Key string | Index nat

datatype issue_code =
    invalid_type string zod_type
  | invalid_string_url
  | invalid_enum_value "string list" string

record zod_issue =
  issue_path :: "path_elem list"
  issue_code :: issue_code

fun parsed_type :: "json option \<Rightarrow> zod_type" where
  "parsed_type None = ZUndefined"
| "parsed_type (Some JNull) = ZNull"
| "parsed_type (Some (JBool b)) = ZBoolean"
| "parsed_type (Some (JNumber n)) = (if isNaN n then ZNan else ZNumber)"
| "parsed_type (Some (JString s)) = ZString"
| "parsed_type (Some (JArray xs)) = ZArray"
| "parsed_type (Some (JObject kvs)) = ZObject"

fun zod_type_name :: "zod_type \<Rightarrow> string" where
  "zod_type_name ZString = ''string''"
| "zod_type_name ZNumber = ''number''"
| "zod_type_name ZNan = ''nan''"
| "zod_type_name ZBoolean = ''boolean''"
| "zod_type_name ZNull = ''null''"
| "zod_type_name ZUndefined = ''undefined''"
| "zod_type_name ZArray = ''array''"
| "zod_type_name ZObject = ''object''"

definition type_issue :: "path_elem list \<Rightarrow> zod_type \<Rightarrow> json option \<Rightarrow> zod_issue list" where
  "type_issue p expected v =
     [\<lparr>issue_path = p, issue_code = invalid_type (zod_type_name expected) (parsed_type v)\<rparr>]"

text \<open>\<open>z.string()\<close>: accepts every string, the empty one included.\<close>

fun z_string :: "path_elem list \<Rightarrow> json option \<Rightarrow> zod_issue list + string" where
  "z_string p (Some (JString s)) = Inr s"
| "z_string p v = Inl (type_issue p ZString v)"

text \<open>\<open>z.string().url()\<close>. The URL check of the library (the string is handed to the
  platform's URL constructor, which accepts absolute URLs only) is the parameter
  \<open>isUrl\<close>.\<close>

definition z_string_url :: "(string \<Rightarrow> bool) \<Rightarrow> path_elem list \<Rightarrow> json option \<Rightarrow> zod_issue list + string" where
  "z_string_url isUrl p v =
     (case z_string p v of
        Inl is \<Rightarrow> Inl is
      | Inr s \<Rightarrow> if isUrl s then Inr s else Inl [\<lparr>issue_path = p, issue_code = invalid_string_url\<rparr>])"

text \<open>\<open>z.number()\<close>: a number that is not \<open>NaN\<close>.\<close>

fun z_number :: "path_elem list \<Rightarrow> json option \<Rightarrow> zod_issue list + jsnumber" where
  "z_number p (Some (JNumber n)) = (if isNaN n then Inl (type_issue p ZNumber (Some (JNumber n))) else Inr n)"
| "z_number p v = Inl (type_issue p ZNumber v)"

text \<open>\<open>.optional()\<close>: \<open>undefined\<close> passes as it is; \<open>null\<close> does not.\<close>

definition z_optional ::
  "(path_elem list \<Rightarrow> json option \<Rightarrow> zod_issue list + 'a) \<Rightarrow> path_elem list \<Rightarrow> json option \<Rightarrow> zod_issue list + 'a option" where
  "z_optional inner p v =
     (case v of
        None \<Rightarrow> Inr None
      | Some j \<Rightarrow> (case inner p v of Inl is \<Rightarrow> Inl is | Inr a \<Rightarrow> Inr (Some a)))"

text \<open>Issues of all parts are collected; the parse succeeds when there are none.\<close>

fun collect :: "(zod_issue list + 'a) list \<Rightarrow> zod_issue list + 'a list" where
  "collect [] = Inr []"
| "collect (r # rs) =
     (case (r, collect rs) of
        (Inr a, Inr as) \<Rightarrow> Inr (a # as)
      | (Inr a, Inl js) \<Rightarrow> Inl js
      | (Inl is, Inr as) \<Rightarrow> Inl is
      | (Inl is, Inl js) \<Rightarrow> Inl (is @ js))"

text \<open>\<open>z.record(z.string())\<close>: an object whose every property value is a string. Every
  value is checked; the result leaves out a property named \<open>__proto__\<close>.\<close>

fun z_record_string :: "path_elem list \<Rightarrow> json option \<Rightarrow> zod_issue list + (string \<times> string) list" where
  "z_record_string p (Some (JObject kvs)) =
     (case collect (map (\<lambda>(k, j). z_string (p @ [Key k]) (Some j)) kvs) of
        Inl is \<Rightarrow> Inl is
      | Inr vs \<Rightarrow> Inr (filter (\<lambda>(k, s). k \<noteq> ''__proto__'') (zip (map fst kvs) vs)))"
| "z_record_string p v = Inl (type_issue p ZObject v)"

text \<open>\<open>z.enum([...])\<close>.\<close>

datatype RecordingStatusName = CREATED | UPLOADING | UPLOADED | PROCESSING | COMPLETED | FAILED

definition status_names :: "(string \<times> RecordingStatusName) list" where
  "status_names =
     [(''CREATED'', CREATED), (''UPLOADING'', UPLOADING), (''UPLOADED'', UPLOADED),
      (''PROCESSING'', PROCESSING), (''COMPLETED'', COMPLETED), (''FAILED'', FAILED)]"

text \<open>How an issue names the values an enumeration expects: each in single quotes, with
  bars between.\<close>

fun joinValues :: "string list \<Rightarrow> string" where
  "joinValues [] = []"
| "joinValues [x] = CHR 0x27 # x @ [CHR 0x27]"
| "joinValues (x # xs) = CHR 0x27 # x @ [CHR 0x27] @ '' | '' @ joinValues xs"

fun z_enum_status :: "path_elem list \<Rightarrow> json option \<Rightarrow> zod_issue list + RecordingStatusName" where
  "z_enum_status p (Some (JString s)) =
     (case map_of status_names s of
        Some n \<Rightarrow> Inr n
      | None \<Rightarrow> Inl [\<lparr>issue_path = p, issue_code = invalid_enum_value (map fst status_names) s\<rparr>])"
| "z_enum_status p v =
     Inl [\<lparr>issue_path = p,
           issue_code = invalid_type (joinValues (map fst status_names)) (parsed_type v)\<rparr>]"

text \<open>Property lookup on a parsed object.\<close>

definition field :: "(string \<times> json) list \<Rightarrow> string \<Rightarrow> json option" where
  "field kvs k = map_of kvs k"

definition issues_of :: "zod_issue list + 'a \<Rightarrow> zod_issue list" where
  "issues_of r = (case r of Inl is \<Rightarrow> is | Inr a \<Rightarrow> [])"

subsection \<open>initRecordingResponseSchema\<close>

record InitRecordingResponse =
  recordingId :: string
  uploadUrl :: string
  headers :: "(string \<times> string) list option"

fun initRecordingResponseSchema ::
  "(string \<Rightarrow> bool) \<Rightarrow> path_elem list \<Rightarrow> json option \<Rightarrow> zod_issue list + InitRecordingResponse" where
  "initRecordingResponseSchema isUrl p (Some (JObject kvs)) =
     (let r = z_string (p @ [Key ''recordingId'']) (field kvs ''recordingId'');
          u = z_string_url isUrl (p @ [Key ''uploadUrl'']) (field kvs ''uploadUrl'');
          h = z_optional z_record_string (p @ [Key ''headers'']) (field kvs ''headers'')
      in case (r, u, h) of
           (Inr rid, Inr url, Inr hs) \<Rightarrow> Inr \<lparr>recordingId = rid, uploadUrl = url, headers = hs\<rparr>
         | _ \<Rightarrow> Inl (issues_of r @ issues_of u @ issues_of h))"
| "initRecordingResponseSchema isUrl p v = Inl (type_issue p ZObject v)"

subsection \<open>evidenceSchema, recordingStepSchema, recordingStatusSchema\<close>

record Evidence =
  transcriptSnippet :: "string option"
  keyframeUrl :: "string option"

fun evidenceSchema ::
  "(string \<Rightarrow> bool) \<Rightarrow> path_elem list \<Rightarrow> json option \<Rightarrow> zod_issue list + Evidence option" where
  "evidenceSchema isUrl p None = Inr None"
| "evidenceSchema isUrl p (Some (JObject kvs)) =
     (let t = z_optional z_string (p @ [Key ''transcriptSnippet'']) (field kvs ''transcriptSnippet'');
          k = z_optional (z_string_url isUrl) (p @ [Key ''keyframeUrl'']) (field kvs ''keyframeUrl'')
      in case (t, k) of
           (Inr ts, Inr ku) \<Rightarrow> Inr (Some \<lparr>transcriptSnippet = ts, keyframeUrl = ku\<rparr>)
         | _ \<Rightarrow> Inl (issues_of t @ issues_of k))"
| "evidenceSchema isUrl p v = Inl (type_issue p ZObject v)"

record RecordingStep =
  index :: jsnumber
  startSec :: jsnumber
  endSec :: jsnumber
  title :: string
  description :: string
  evidence :: "Evidence option"

fun recordingStepSchema ::
  "(string \<Rightarrow> bool) \<Rightarrow> path_elem list \<Rightarrow> json option \<Rightarrow> zod_issue list + RecordingStep" where
  "recordingStepSchema isUrl p (Some (JObject kvs)) =
     (let i = z_number (p @ [Key ''index'']) (field kvs ''index'');
          s = z_number (p @ [Key ''startSec'']) (field kvs ''startSec'');
          e = z_number (p @ [Key ''endSec'']) (field kvs ''endSec'');
          t = z_string (p @ [Key ''title'']) (field kvs ''title'');
          d = z_string (p @ [Key ''description'']) (field kvs ''description'');
          v = evidenceSchema isUrl (p @ [Key ''evidence'']) (field kvs ''evidence'')
      in case (i, s, e, t, d, v) of
           (Inr i', Inr s', Inr e', Inr t', Inr d', Inr v') \<Rightarrow>
             Inr \<lparr>index = i', startSec = s', endSec = e', title = t', description = d', evidence = v'\<rparr>
         | _ \<Rightarrow> Inl (issues_of i @ issues_of s @ issues_of e @ issues_of t @ issues_of d @ issues_of v))"
| "recordingStepSchema isUrl p v = Inl (type_issue p ZObject v)"

text \<open>\<open>z.array(recordingStepSchema)\<close>: every element is parsed at its index.\<close>

fun z_array_steps ::
  "(string \<Rightarrow> bool) \<Rightarrow> path_elem list \<Rightarrow> json option \<Rightarrow> zod_issue list + RecordingStep list" where
  "z_array_steps isUrl p (Some (JArray xs)) =
     collect (map (\<lambda>(i, x). recordingStepSchema isUrl (p @ [Index i]) (Some x)) (enumerate 0 xs))"
| "z_array_steps isUrl p v = Inl (type_issue p ZArray v)"

record RecordingStatusResponse =
  status_recordingId :: string
  status :: RecordingStatusName
  status_error :: "string option"
  steps :: "RecordingStep list option"

fun recordingStatusSchema ::
  "(string \<Rightarrow> bool) \<Rightarrow> path_elem list \<Rightarrow> json option \<Rightarrow> zod_issue list + RecordingStatusResponse" where
  "recordingStatusSchema isUrl p (Some (JObject kvs)) =
     (let r = z_string (p @ [Key ''recordingId'']) (field kvs ''recordingId'');
          s = z_enum_status (p @ [Key ''status'']) (field kvs ''status'');
          e = z_optional z_string (p @ [Key ''error'']) (field kvs ''error'');
          t = z_optional (z_array_steps isUrl) (p @ [Key ''steps'']) (field kvs ''steps'')
      in case (r, s, e, t) of
           (Inr rid, Inr st, Inr er, Inr ss) \<Rightarrow>
             Inr \<lparr>status_recordingId = rid, status = st, status_error = er, steps = ss\<rparr>
         | _ \<Rightarrow> Inl (issues_of r @ issues_of s @ issues_of e @ issues_of t))"
| "recordingStatusSchema isUrl p v = Inl (type_issue p ZObject v)"

section \<open>Thrown values\<close>

text \<open>
  What a \<open>throw\<close> or a rejected promise carries. All but \<open>ThrownValue\<close> are instances
  of \<open>Error\<close>; a \<open>DOMException\<close> has a message and a name.
\<close>

datatype js_exn =
    Error string
  | SyntaxError string
  | TypeError string
  | ZodError "zod_issue list"
  | DOMException string string
  | ThrownValue string

fun instanceof_Error :: "js_exn \<Rightarrow> bool" where
  "instanceof_Error (ThrownValue v) = False"
| "instanceof_Error e = True"

text \<open>The message of an error: a text, or, for a \<open>ZodError\<close>, the text that renders its
  issue list as JSON (kept here as the list it renders).\<close>

datatype message = Plain string | IssuesAsJson "zod_issue list"

fun exn_message :: "js_exn \<Rightarrow> message" where
  "exn_message (Error m) = Plain m"
| "exn_message (SyntaxError m) = Plain m"
| "exn_message (TypeError m) = Plain m"
| "exn_message (ZodError is) = IssuesAsJson is"
| "exn_message (DOMException m n) = Plain m"
| "exn_message (ThrownValue v) = Plain []"

section \<open>Route parameters (src/utils/params.ts)\<close>

text \<open>A route parameter is \<open>undefined\<close>, a string, or an array of strings.\<close>

datatype raw_param = Undefined | Str string | StrArr "string list"

text \<open>\<open>!raw\<close>: \<open>undefined\<close> and the empty string are falsy, every array is truthy.\<close>

fun falsy_param :: "raw_param \<Rightarrow> bool" where
  "falsy_param Undefined = True"
| "falsy_param (Str s) = (s = [])"
| "falsy_param (StrArr xs) = False"

text \<open>\<open>Array.isArray(raw) ? raw[0] : raw\<close>, as \<open>JSON.parse\<close> reads it: the argument is
  converted to a string, so the \<open>undefined\<close> that \<open>raw[0]\<close> gives on an empty array is
  read as the text \<open>undefined\<close>.\<close>

fun param_value :: "raw_param \<Rightarrow> string" where
  "param_value (StrArr []) = ''undefined''"
| "param_value (StrArr (x # xs)) = x"
| "param_value (Str s) = s"
| "param_value Undefined = ''undefined''"

text \<open>
  \<open>parseMarkersParam\<close>. The two built-ins it calls are parameters: \<open>JSON_parse\<close> returns
  the parsed value or throws; \<open>Number\<close> converts a parsed value to a number or throws
  (it does on an object that has a property \<open>toString\<close> of its own, which is not
  callable). The body of the \<open>try\<close> either returns (\<open>Some\<close>), falls through (\<open>None\<close>)
  or throws; the \<open>catch\<close> logs and falls through; the function then returns the empty
  array.
\<close>

text \<open>\<open>parsed.map((item) => Number(item))\<close>: the entries are converted in order, and the
  first conversion that throws ends the map.\<close>

fun convert_all :: "(json \<Rightarrow> js_exn + jsnumber) \<Rightarrow> json list \<Rightarrow> js_exn + jsnumber list" where
  "convert_all Number [] = Inr []"
| "convert_all Number (item # items) =
     (case Number item of
        Inl err \<Rightarrow> Inl err
      | Inr n \<Rightarrow> (case convert_all Number items of Inl err \<Rightarrow> Inl err | Inr ns \<Rightarrow> Inr (n # ns)))"

definition markers_try_body ::
  "(string \<Rightarrow> js_exn + json) \<Rightarrow> (json \<Rightarrow> js_exn + jsnumber) \<Rightarrow> string \<Rightarrow> js_exn + jsnumber list option" where
  "markers_try_body JSON_parse Number v =
     (case JSON_parse v of
        Inl err \<Rightarrow> Inl err
      | Inr (JArray parsed) \<Rightarrow>
          (case convert_all Number parsed of
             Inl err \<Rightarrow> Inl err
           | Inr ns \<Rightarrow> Inr (Some (filter (\<lambda>n. \<not> isNaN n) ns)))
      | Inr other \<Rightarrow> Inr None)"

definition parseMarkersParam ::
  "(string \<Rightarrow> js_exn + json) \<Rightarrow> (json \<Rightarrow> js_exn + jsnumber) \<Rightarrow> raw_param \<Rightarrow> js_exn + jsnumber list" where
  "parseMarkersParam JSON_parse Number raw =
     (if falsy_param raw then Inr []
      else
        (case markers_try_body JSON_parse Number (param_value raw) of
           Inr (Some ns) \<Rightarrow> Inr ns
         | Inr None \<Rightarrow> Inr []
         | Inl err \<Rightarrow> Inr []))"

section \<open>The backend client (src/api/client.ts)\<close>

record settings =
  apiBaseUrl :: string
  uploadContentType :: string
  pollIntervalMs :: nat

record InitRecordingRequest =
  fileName :: string
  contentType :: string
  sizeBytes :: nat
  durationSec :: "jsnumber option"
  stepMarkersSec :: "jsnumber list option"

text \<open>\<open>JSON.stringify\<close> of a number: a number that is not finite is written \<open>null\<close>.\<close>

fun json_of_number :: "jsnumber \<Rightarrow> json" where
  "json_of_number (Num r) = JNumber (Num r)"
| "json_of_number n = JNull"

text \<open>\<open>JSON.stringify(payload)\<close>, as the value tree the body holds: a property whose value
  is \<open>undefined\<close> is left out.\<close>

definition JSON_stringify :: "InitRecordingRequest \<Rightarrow> json" where
  "JSON_stringify payload =
     JObject
       ([(''fileName'', JString (fileName payload)),
         (''contentType'', JString (contentType payload)),
         (''sizeBytes'', JNumber (Num (of_nat (sizeBytes payload))))]
        @ (case durationSec payload of None \<Rightarrow> [] | Some d \<Rightarrow> [(''durationSec'', json_of_number d)])
        @ (case stepMarkersSec payload of
             None \<Rightarrow> []
           | Some ms \<Rightarrow> [(''stepMarkersSec'', JArray (map json_of_number ms))]))"

record http_request =
  req_method :: string
  req_url :: string
  req_headers :: "(string \<times> string) list"
  req_body :: "json option"

text \<open>A property of the body of a request, when the body is an object.\<close>

definition body_field :: "http_request \<Rightarrow> string \<Rightarrow> json option" where
  "body_field r k = (case req_body r of Some (JObject kvs) \<Rightarrow> field kvs k | _ \<Rightarrow> None)"

text \<open>A response: its status, and what \<open>text()\<close> and \<open>json()\<close> give (either may throw).\<close>

record response =
  http_status :: nat
  body_text :: "js_exn + string"
  body_json :: "js_exn + json"

definition response_ok :: "response \<Rightarrow> bool" where
  "response_ok r = (200 \<le> http_status r \<and> http_status r \<le> 299)"

definition parseJson ::
  "(path_elem list \<Rightarrow> json option \<Rightarrow> zod_issue list + 'a) \<Rightarrow> response \<Rightarrow> js_exn + 'a" where
  "parseJson schema r =
     (case body_json r of
        Inl err \<Rightarrow> Inl err
      | Inr data \<Rightarrow> (case schema [] (Some data) of Inl is \<Rightarrow> Inl (ZodError is) | Inr v \<Rightarrow> Inr v))"

text \<open>\<open>handleError\<close> always throws; the model returns what it throws.\<close>

definition handleError :: "response \<Rightarrow> js_exn" where
  "handleError r =
     Error (''Request failed ('' @ show_nat (http_status r) @ '')''
            @ (case body_text r of
                 Inl err \<Rightarrow> []
               | Inr t \<Rightarrow> if t \<noteq> [] then '': '' @ t else []))"

text \<open>Each client function issues one \<open>fetch\<close>. The request is given by the
  \<open>_request\<close> definition; the function itself maps what the \<open>fetch\<close> gave (a response, or
  a rejection) to its result.\<close>

definition initRecording_request :: "settings \<Rightarrow> InitRecordingRequest \<Rightarrow> http_request" where
  "initRecording_request S payload =
     \<lparr>req_method = ''POST'', req_url = apiBaseUrl S @ ''/api/recordings/init'',
      req_headers = [(''Content-Type'', ''application/json'')],
      req_body = Some (JSON_stringify payload)\<rparr>"

definition initRecording :: "(string \<Rightarrow> bool) \<Rightarrow> js_exn + response \<Rightarrow> js_exn + InitRecordingResponse" where
  "initRecording isUrl fetched =
     (case fetched of
        Inl err \<Rightarrow> Inl err
      | Inr r \<Rightarrow> if \<not> response_ok r then Inl (handleError r)
                 else parseJson (initRecordingResponseSchema isUrl) r)"

definition markUploadComplete_request :: "settings \<Rightarrow> string \<Rightarrow> http_request" where
  "markUploadComplete_request S rid =
     \<lparr>req_method = ''POST'', req_url = apiBaseUrl S @ ''/api/recordings/'' @ rid @ ''/complete'',
      req_headers = [], req_body = None\<rparr>"

definition markUploadComplete :: "js_exn + response \<Rightarrow> js_exn + unit" where
  "markUploadComplete fetched =
     (case fetched of
        Inl err \<Rightarrow> Inl err
      | Inr r \<Rightarrow> if \<not> response_ok r then Inl (handleError r) else Inr ())"

definition fetchRecordingStatus_request :: "settings \<Rightarrow> string \<Rightarrow> http_request" where
  "fetchRecordingStatus_request S rid =
     \<lparr>req_method = ''GET'', req_url = apiBaseUrl S @ ''/api/recordings/'' @ rid,
      req_headers = [], req_body = None\<rparr>"

definition fetchRecordingStatus :: "(string \<Rightarrow> bool) \<Rightarrow> js_exn + response \<Rightarrow> js_exn + RecordingStatusResponse" where
  "fetchRecordingStatus isUrl fetched =
     (case fetched of
        Inl err \<Rightarrow> Inl err
      | Inr r \<Rightarrow> if \<not> response_ok r then Inl (handleError r)
                 else parseJson (recordingStatusSchema isUrl) r)"

section \<open>The upload transport (src/upload/uploadVideo.ts)\<close>

text \<open>
  \<open>signal\<close> and \<open>onProgress\<close> are optional. The progress callback acts on a sink of the
  caller's (\<open>'s\<close>): a log of the values it was given, or the state of a screen.
\<close>

record 's UploadParams =
  fileUri :: string
  upload_uploadUrl :: string
  upload_headers :: "(string \<times> string) list option"
  upload_fileName :: string
  upload_contentType :: string
  signal :: bool
  onProgress :: "(rat \<Rightarrow> 's \<Rightarrow> 's) option"

datatype upload_outcome = Resolved | Rejected js_exn

text \<open>
  The state of one call: the \<open>settled\<close> flag of the closure, the calls made to \<open>resolve\<close>
  and \<open>reject\<close> so far (in order), whether the request object has reached its final ready
  state, the request headers set, and the caller's sink.
\<close>

record 's xhr =
  settled :: bool
  settlements :: "upload_outcome list"
  readyStateDone :: bool
  requestHeaders :: "(string \<times> string) list"
  sink :: 's

text \<open>What the request object and the abort signal deliver to the handlers: a response
  with its status, a transport failure, an abort, an upload progress event
  (\<open>lengthComputable\<close>, \<open>loaded\<close>, \<open>total\<close>), and the signal's own abort event.\<close>

datatype xhr_event =
    Load nat
  | NetError
  | Abort
  | UploadProgress bool int int
  | SignalAbort

definition rejectOnce :: "'s xhr \<Rightarrow> js_exn \<Rightarrow> 's xhr" where
  "rejectOnce x err =
     (if settled x then x
      else x\<lparr>settled := True, settlements := settlements x @ [Rejected err]\<rparr>)"

definition onload :: "'s xhr \<Rightarrow> nat \<Rightarrow> 's xhr" where
  "onload x st =
     (if settled x then x
      else if 200 \<le> st \<and> st < 300
        then x\<lparr>settled := True, settlements := settlements x @ [Resolved]\<rparr>
        else x\<lparr>settled := True,
               settlements := settlements x @ [Rejected (Error (''Upload failed with status '' @ show_nat st))]\<rparr>)"

definition onerror :: "'s xhr \<Rightarrow> 's xhr" where
  "onerror x = rejectOnce x (Error ''Network error during upload'')"

definition onabort :: "'s xhr \<Rightarrow> 's xhr" where
  "onabort x = rejectOnce x (DOMException ''Upload aborted'' ''AbortError'')"

definition onprogress :: "'s UploadParams \<Rightarrow> 's xhr \<Rightarrow> bool \<Rightarrow> int \<Rightarrow> int \<Rightarrow> 's xhr" where
  "onprogress p x lengthComputable loaded total_bytes =
     (case onProgress p of
        Some callback \<Rightarrow>
          if lengthComputable
          then (let progress = (if total_bytes > 0 then of_int loaded / of_int total_bytes else 0)
                in x\<lparr>sink := callback progress (sink x)\<rparr>)
          else x
      | None \<Rightarrow> x)"

text \<open>\<open>xhr.abort()\<close> on a request in flight ends it and delivers the abort event.\<close>

definition xhr_abort :: "'s xhr \<Rightarrow> 's xhr" where
  "xhr_abort x = onabort (x\<lparr>readyStateDone := True\<rparr>)"

text \<open>The listener on the signal, registered only when a signal was passed.\<close>

definition on_signal_abort :: "'s UploadParams \<Rightarrow> 's xhr \<Rightarrow> 's xhr" where
  "on_signal_abort p x =
     (if signal p then (if \<not> readyStateDone x then xhr_abort x else x) else x)"

fun dispatch :: "'s UploadParams \<Rightarrow> 's xhr \<Rightarrow> xhr_event \<Rightarrow> 's xhr" where
  "dispatch p x (Load st) = onload (x\<lparr>readyStateDone := True\<rparr>) st"
| "dispatch p x NetError = onerror (x\<lparr>readyStateDone := True\<rparr>)"
| "dispatch p x Abort = onabort (x\<lparr>readyStateDone := True\<rparr>)"
| "dispatch p x (UploadProgress lc loaded total_bytes) = onprogress p x lc loaded total_bytes"
| "dispatch p x SignalAbort = on_signal_abort p x"

text \<open>The executor of the promise: the request is opened, the headers are set, the
  handlers are installed and the body is sent; \<open>sendThrows\<close> is what \<open>xhr.send\<close> throws,
  if it does.\<close>

definition uploadVideo :: "'s UploadParams \<Rightarrow> js_exn option \<Rightarrow> 's \<Rightarrow> 's xhr" where
  "uploadVideo p sendThrows s0 =
     (let x = \<lparr>settled = False, settlements = [], readyStateDone = False,
               requestHeaders = (case upload_headers p of None \<Rightarrow> [] | Some hs \<Rightarrow> hs)
                                @ [(''Content-Type'', upload_contentType p)],
               sink = s0\<rparr>
      in case sendThrows of None \<Rightarrow> x | Some err \<Rightarrow> rejectOnce x err)"

text \<open>A whole transfer attempt: the call, then the events in the order they arrive.\<close>

definition transfer :: "'s UploadParams \<Rightarrow> js_exn option \<Rightarrow> 's \<Rightarrow> xhr_event list \<Rightarrow> 's xhr" where
  "transfer p sendThrows s0 evs = foldl (dispatch p) (uploadVideo p sendThrows s0) evs"

text \<open>How the promise settles: by the first call to \<open>resolve\<close> or \<open>reject\<close>; with none
  it stays pending.\<close>

definition outcome :: "'s xhr \<Rightarrow> upload_outcome option" where
  "outcome x = (case settlements x of [] \<Rightarrow> None | r # rs \<Rightarrow> Some r)"

text \<open>The invariant of a call: the flag is set exactly when the promise has been settled,
  it has been settled at most once, and a request in its final ready state has settled it.\<close>

definition coherent :: "'s xhr \<Rightarrow> bool" where
  "coherent x =
     ((settled x \<longleftrightarrow> settlements x \<noteq> [])
      \<and> length (settlements x) \<le> 1
      \<and> (readyStateDone x \<longrightarrow> settled x))"

text \<open>A sink that records every value given to \<open>onProgress\<close>.\<close>

definition recording_params :: "string \<Rightarrow> string \<Rightarrow> (rat list) UploadParams" where
  "recording_params url ctype =
     \<lparr>fileUri = ''file:///v.mp4'', upload_uploadUrl = url, upload_headers = None,
      upload_fileName = ''v.mp4'', upload_contentType = ctype, signal = True,
      onProgress = Some (\<lambda>v log. log @ [v])\<rparr>"

text \<open>The progress events of a stream that the callback acts on. Each is within its total
  when the bytes sent are neither negative nor more than the total; the stream is steady
  when the total is fixed and the bytes sent never decrease.\<close>

fun computable :: "xhr_event list \<Rightarrow> (int \<times> int) list" where
  "computable [] = []"
| "computable (UploadProgress True loaded total_bytes # evs) = (loaded, total_bytes) # computable evs"
| "computable (e # evs) = computable evs"

fun within_total :: "int \<times> int \<Rightarrow> bool" where
  "within_total (l, t) = (0 \<le> l \<and> l \<le> t)"

fun steady :: "(int \<times> int) list \<Rightarrow> bool" where
  "steady [] = True"
| "steady [(l, t)] = True"
| "steady ((l, t) # (l', t') # rest) = (l \<le> l' \<and> t = t' \<and> steady ((l', t') # rest))"

fun fraction :: "int \<times> int \<Rightarrow> rat" where
  "fraction (loaded, total_bytes) = (if total_bytes > 0 then of_int loaded / of_int total_bytes else 0)"

section \<open>The status poller (app/result.tsx)\<close>

text \<open>\<open>refetchInterval\<close>: \<open>None\<close> is \<open>false\<close> (no further request is scheduled).\<close>

definition refetchInterval :: "settings \<Rightarrow> RecordingStatusResponse option \<Rightarrow> nat option" where
  "refetchInterval S queryData =
     (case queryData of
        None \<Rightarrow> Some (pollIntervalMs S)
      | Some d \<Rightarrow> if status d = COMPLETED \<or> status d = FAILED then None else Some (pollIntervalMs S))"

text \<open>
  The query observer that runs \<open>queryFn\<close> and \<open>refetchInterval\<close> belongs to the query
  library. Its contract, as far as this screen uses it: no request when the query is not
  enabled; otherwise a request at once; a successful request replaces the data, a failed
  one leaves the data as it was; after each request the interval is computed from the
  data, and a next request follows unless it is \<open>false\<close>. The list holds what each
  request, in order, gets from the network. The result is the requests made, each with
  the data held after it.
\<close>

fun poll ::
  "settings \<Rightarrow> (string \<Rightarrow> bool) \<Rightarrow> RecordingStatusResponse option \<Rightarrow> (js_exn + response) list
     \<Rightarrow> ((js_exn + RecordingStatusResponse) \<times> RecordingStatusResponse option) list" where
  "poll S isUrl queryData [] = []"
| "poll S isUrl queryData (fetched # rest) =
     (let r = fetchRecordingStatus isUrl fetched;
          queryData' = (case r of Inl err \<Rightarrow> queryData | Inr d \<Rightarrow> Some d)
      in (r, queryData') #
         (case refetchInterval S queryData' of
            None \<Rightarrow> []
          | Some ms \<Rightarrow> poll S isUrl queryData' rest))"

definition ResultScreen_poll ::
  "settings \<Rightarrow> (string \<Rightarrow> bool) \<Rightarrow> string \<Rightarrow> (js_exn + response) list
     \<Rightarrow> ((js_exn + RecordingStatusResponse) \<times> RecordingStatusResponse option) list" where
  "ResultScreen_poll S isUrl rid fetches = (if rid \<noteq> [] then poll S isUrl None fetches else [])"

definition terminal :: "js_exn + RecordingStatusResponse \<Rightarrow> bool" where
  "terminal r = (case r of Inl err \<Rightarrow> False | Inr d \<Rightarrow> status d = COMPLETED \<or> status d = FAILED)"

section \<open>The upload screen (app/upload.tsx)\<close>

datatype UploadState = StIdle | StInit | StUploading | StNotifying | StDone | StError

text \<open>The state of the screen: the four state variables, whether \<open>abortRef\<close> holds a
  controller, and the recording the router was sent to, if it was.\<close>

record screen =
  ui_progress :: rat
  ui_state :: UploadState
  ui_error :: "message option"
  ui_recordingId :: "string option"
  abortRef :: bool
  route :: "string option"

record FileInfo =
  file_exists :: bool
  file_size :: "nat option"

text \<open>\<open>info.size\<close> may be missing; \<open>!info.size\<close> holds when it is missing or \<open>0\<close>.\<close>

fun truthy_size :: "nat option \<Rightarrow> bool" where
  "truthy_size None = False"
| "truthy_size (Some n) = (n \<noteq> 0)"

fun size_value :: "nat option \<Rightarrow> nat" where
  "size_value None = 0"
| "size_value (Some n) = n"

text \<open>What happens while the flow waits for the transfer: an event of the request, a
  press on the cancel button, or the screen being unmounted.\<close>

datatype flow_event = Xhr xhr_event | CancelPressed | Unmounted

text \<open>The surroundings of one run: what \<open>getInfoAsync\<close> gives, what the \<open>fetch\<close> of the
  init request gives, what \<open>xhr.send\<close> throws (if it does), the events during the
  transfer, and what the \<open>fetch\<close> of the completion request gives.\<close>

record flow_env =
  getInfo :: "js_exn + FileInfo"
  initFetch :: "js_exn + response"
  sendThrows :: "js_exn option"
  uploadEvents :: "flow_event list"
  completeFetch :: "js_exn + response"

text \<open>The network calls of a run, in the order they are made.\<close>

datatype net_call =
    InitCall http_request
  | UploadCall string "(string \<times> string) list"
  | CompleteCall http_request

datatype step = InitStep | UploadStep | CompleteStep

fun call_step :: "net_call \<Rightarrow> step" where
  "call_step (InitCall r) = InitStep"
| "call_step (UploadCall u hs) = UploadStep"
| "call_step (CompleteCall r) = CompleteStep"

fun is_complete_call :: "net_call \<Rightarrow> bool" where
  "is_complete_call (CompleteCall r) = True"
| "is_complete_call c = False"

text \<open>The events that neither end the transfer nor come from the user.\<close>

fun is_progress :: "flow_event \<Rightarrow> bool" where
  "is_progress (Xhr (UploadProgress lc loaded total_bytes)) = True"
| "is_progress e = False"

text \<open>\<open>videoUri.split('/').pop()\<close>: what follows the last slash.\<close>

definition last_segment :: "string \<Rightarrow> string" where
  "last_segment uri = rev (takeWhile (\<lambda>c. c \<noteq> CHR ''/'') (rev uri))"

text \<open>The \<open>catch\<close> block of the flow.\<close>

definition catch_block :: "screen \<Rightarrow> js_exn \<Rightarrow> screen" where
  "catch_block ui err =
     ui\<lparr>ui_error := Some (if instanceof_Error err then exn_message err else Plain ''Upload failed.''),
        ui_state := StError\<rparr>"

definition init_payload :: "settings \<Rightarrow> string \<Rightarrow> nat \<Rightarrow> jsnumber option \<Rightarrow> jsnumber list \<Rightarrow> InitRecordingRequest" where
  "init_payload S name sz duration markers =
     \<lparr>fileName = name,
      contentType = uploadContentType S,
      sizeBytes = sz,
      durationSec = (case duration of
                       None \<Rightarrow> None
                     | Some d \<Rightarrow> if truthy_number d then Some (Math_round d) else None),
      stepMarkersSec = (if length markers \<noteq> 0 then Some markers else None)\<rparr>"

definition upload_params :: "settings \<Rightarrow> string \<Rightarrow> string \<Rightarrow> InitRecordingResponse \<Rightarrow> screen UploadParams" where
  "upload_params S videoUri name initResponse =
     \<lparr>fileUri = videoUri,
      upload_uploadUrl = uploadUrl initResponse,
      upload_headers = headers initResponse,
      upload_fileName = name,
      upload_contentType = uploadContentType S,
      signal = True,
      onProgress = Some (\<lambda>v ui. ui\<lparr>ui_progress := v\<rparr>)\<rparr>"

text \<open>\<open>abortRef.current?.abort()\<close>: the signal's listeners run when a controller is held.\<close>

definition abort_controller :: "screen UploadParams \<Rightarrow> screen xhr \<Rightarrow> screen xhr" where
  "abort_controller p x = (if abortRef (sink x) then dispatch p x SignalAbort else x)"

definition handleCancel :: "screen UploadParams \<Rightarrow> screen xhr \<Rightarrow> screen xhr" where
  "handleCancel p x =
     (let x' = abort_controller p x
      in x'\<lparr>sink := (sink x')\<lparr>ui_error := Some (Plain ''Upload cancelled.''), ui_state := StError\<rparr>\<rparr>)"

text \<open>\<open>await uploadVideo(...)\<close>: events are handled until the promise is settled; the flow
  then goes on before any later event. The cancel button is on the screen only in the
  state \<open>uploading\<close>.\<close>

fun await_upload :: "screen UploadParams \<Rightarrow> screen xhr \<Rightarrow> flow_event list \<Rightarrow> screen xhr" where
  "await_upload p x [] = x"
| "await_upload p x (e # es) =
     (if settled x then x
      else await_upload p
             (case e of
                Xhr ev \<Rightarrow> dispatch p x ev
              | CancelPressed \<Rightarrow> if ui_state (sink x) = StUploading then handleCancel p x else x
              | Unmounted \<Rightarrow> abort_controller p x)
             es)"

text \<open>The name the flow gives the file, and the transfer it waits for once the init has
  given \<open>initResponse\<close>: the very terms of \<open>startUploadFlow\<close> below, named so that
  properties of a run can speak of them.\<close>

definition flow_fileName :: "string \<Rightarrow> string" where
  "flow_fileName videoUri = (if last_segment videoUri \<noteq> [] then last_segment videoUri else ''recording.mp4'')"

definition awaited_transfer :: "settings \<Rightarrow> flow_env \<Rightarrow> string \<Rightarrow> InitRecordingResponse \<Rightarrow> screen \<Rightarrow> screen xhr" where
  "awaited_transfer S env videoUri initResponse ui =
     (let ui0 = ui\<lparr>ui_error := None, ui_progress := 0, ui_state := StInit\<rparr>;
          ui1 = ui0\<lparr>ui_recordingId := Some (recordingId initResponse),
                    ui_state := StUploading, abortRef := True\<rparr>;
          p = upload_params S videoUri (flow_fileName videoUri) initResponse
      in await_upload p (uploadVideo p (sendThrows env) ui1) (uploadEvents env))"

text \<open>
  \<open>startUploadFlow\<close>, with the state of the screen before the run. The result is the
  state of the screen when the run has ended (or waits for a transfer that never
  settles), and the network calls it made.
\<close>

definition startUploadFlow ::
  "settings \<Rightarrow> (string \<Rightarrow> bool) \<Rightarrow> flow_env \<Rightarrow> string \<Rightarrow> jsnumber option \<Rightarrow> jsnumber list \<Rightarrow> screen
     \<Rightarrow> screen \<times> net_call list" where
  "startUploadFlow S isUrl env videoUri duration markers ui =
     (if videoUri = [] then (ui\<lparr>ui_error := Some (Plain ''Missing video to upload.''), ui_state := StError\<rparr>, [])
      else
        let ui0 = ui\<lparr>ui_error := None, ui_progress := 0, ui_state := StInit\<rparr> in
        case getInfo env of
          Inl err \<Rightarrow> (catch_block ui0 err, [])
        | Inr info \<Rightarrow>
            (if \<not> file_exists info \<or> \<not> truthy_size (file_size info)
             then (catch_block ui0 (Error ''Could not read video file.''), [])
             else
                 let sz = size_value (file_size info);
                     name = (if last_segment videoUri \<noteq> [] then last_segment videoUri else ''recording.mp4'');
                     initCall = InitCall (initRecording_request S (init_payload S name sz duration markers))
                 in
                 case initRecording isUrl (initFetch env) of
                   Inl err \<Rightarrow> (catch_block ui0 err, [initCall])
                 | Inr initResponse \<Rightarrow>
                     let ui1 = ui0\<lparr>ui_recordingId := Some (recordingId initResponse),
                                   ui_state := StUploading, abortRef := True\<rparr>;
                         p = upload_params S videoUri name initResponse;
                         x = await_upload p (uploadVideo p (sendThrows env) ui1) (uploadEvents env);
                         uploadCall = UploadCall (upload_uploadUrl p) (requestHeaders x)
                     in
                     case outcome x of
                       None \<Rightarrow> (sink x, [initCall, uploadCall])
                     | Some (Rejected err) \<Rightarrow> (catch_block (sink x) err, [initCall, uploadCall])
                     | Some Resolved \<Rightarrow>
                         let ui2 = (sink x)\<lparr>ui_state := StNotifying\<rparr>;
                             completeCall = CompleteCall (markUploadComplete_request S (recordingId initResponse))
                         in
                         case markUploadComplete (completeFetch env) of
                           Inl err \<Rightarrow> (catch_block ui2 err, [initCall, uploadCall, completeCall])
                         | Inr u \<Rightarrow>
                             (ui2\<lparr>ui_state := StDone, route := Some (recordingId initResponse)\<rparr>,
                              [initCall, uploadCall, completeCall])))"

section \<open>The shape of the payloads\<close>

text \<open>
  What the two schemas ask of a payload, as plain predicates: which properties an object
  has and of which type each is.
\<close>

fun is_string :: "json option \<Rightarrow> bool" where
  "is_string (Some (JString s)) = True"
| "is_string v = False"

fun is_url :: "(string \<Rightarrow> bool) \<Rightarrow> json option \<Rightarrow> bool" where
  "is_url isUrl (Some (JString s)) = isUrl s"
| "is_url isUrl v = False"

fun is_number :: "json option \<Rightarrow> bool" where
  "is_number (Some (JNumber n)) = (\<not> isNaN n)"
| "is_number v = False"

fun absent_or :: "(json option \<Rightarrow> bool) \<Rightarrow> json option \<Rightarrow> bool" where
  "absent_or P None = True"
| "absent_or P v = P v"

fun is_string_map :: "json option \<Rightarrow> bool" where
  "is_string_map (Some (JObject kvs)) = list_all (\<lambda>(k, j). is_string (Some j)) kvs"
| "is_string_map v = False"

fun shape_init :: "(string \<Rightarrow> bool) \<Rightarrow> json \<Rightarrow> bool" where
  "shape_init isUrl (JObject kvs) =
     (is_string (field kvs ''recordingId'')
      \<and> is_url isUrl (field kvs ''uploadUrl'')
      \<and> absent_or is_string_map (field kvs ''headers''))"
| "shape_init isUrl j = False"

fun shape_evidence :: "(string \<Rightarrow> bool) \<Rightarrow> json option \<Rightarrow> bool" where
  "shape_evidence isUrl (Some (JObject kvs)) =
     (absent_or is_string (field kvs ''transcriptSnippet'')
      \<and> absent_or (is_url isUrl) (field kvs ''keyframeUrl''))"
| "shape_evidence isUrl v = False"

fun shape_step :: "(string \<Rightarrow> bool) \<Rightarrow> json \<Rightarrow> bool" where
  "shape_step isUrl (JObject kvs) =
     (is_number (field kvs ''index'')
      \<and> is_number (field kvs ''startSec'')
      \<and> is_number (field kvs ''endSec'')
      \<and> is_string (field kvs ''title'')
      \<and> is_string (field kvs ''description'')
      \<and> absent_or (shape_evidence isUrl) (field kvs ''evidence''))"
| "shape_step isUrl j = False"

fun is_status_name :: "json option \<Rightarrow> bool" where
  "is_status_name (Some (JString s)) =
     (s \<in> {''CREATED'', ''UPLOADING'', ''UPLOADED'', ''PROCESSING'', ''COMPLETED'', ''FAILED''})"
| "is_status_name v = False"

fun is_step_list :: "(string \<Rightarrow> bool) \<Rightarrow> json option \<Rightarrow> bool" where
  "is_step_list isUrl (Some (JArray xs)) = list_all (shape_step isUrl) xs"
| "is_step_list isUrl v = False"

fun shape_status :: "(string \<Rightarrow> bool) \<Rightarrow> json \<Rightarrow> bool" where
  "shape_status isUrl (JObject kvs) =
     (is_string (field kvs ''recordingId'')
      \<and> is_status_name (field kvs ''status'')
      \<and> absent_or is_string (field kvs ''error'')
      \<and> absent_or (is_step_list isUrl) (field kvs ''steps''))"
| "shape_status isUrl j = False"

text \<open>A failed parse carries detail: at least one issue.\<close>

definition has_detail :: "zod_issue list + 'a \<Rightarrow> bool" where
  "has_detail r = (case r of Inl is \<Rightarrow> is \<noteq> [] | Inr a \<Rightarrow> True)"

definition succeeds :: "zod_issue list + 'a \<Rightarrow> bool" where
  "succeeds r = (case r of Inl is \<Rightarrow> False | Inr a \<Rightarrow> True)"

text \<open>A result agrees with the payload it was parsed from when each of its fields is the
  payload's property of that name, as it stands there. (The record of headers leaves out
  a property named \<open>__proto__\<close>, which is no header.)\<close>

fun agrees_headers :: "json option \<Rightarrow> (string \<times> string) list option \<Rightarrow> bool" where
  "agrees_headers None None = True"
| "agrees_headers (Some (JObject kvs)) (Some hs) =
     (map (\<lambda>(k, s). (k, JString s)) hs = filter (\<lambda>(k, j). k \<noteq> ''__proto__'') kvs)"
| "agrees_headers v hs = False"

fun agrees_evidence :: "json option \<Rightarrow> Evidence option \<Rightarrow> bool" where
  "agrees_evidence None None = True"
| "agrees_evidence (Some (JObject kvs)) (Some e) =
     (field kvs ''transcriptSnippet'' = map_option JString (transcriptSnippet e)
      \<and> field kvs ''keyframeUrl'' = map_option JString (keyframeUrl e))"
| "agrees_evidence v e = False"

fun agrees_step :: "json \<Rightarrow> RecordingStep \<Rightarrow> bool" where
  "agrees_step (JObject kvs) st =
     (field kvs ''index'' = Some (JNumber (index st))
      \<and> field kvs ''startSec'' = Some (JNumber (startSec st))
      \<and> field kvs ''endSec'' = Some (JNumber (endSec st))
      \<and> field kvs ''title'' = Some (JString (title st))
      \<and> field kvs ''description'' = Some (JString (description st))
      \<and> agrees_evidence (field kvs ''evidence'') (evidence st))"
| "agrees_step j st = False"

fun agrees_steps :: "json option \<Rightarrow> RecordingStep list option \<Rightarrow> bool" where
  "agrees_steps None None = True"
| "agrees_steps (Some (JArray xs)) (Some sts) = list_all2 agrees_step xs sts"
| "agrees_steps v sts = False"

fun agrees_init :: "json \<Rightarrow> InitRecordingResponse \<Rightarrow> bool" where
  "agrees_init (JObject kvs) v =
     (field kvs ''recordingId'' = Some (JString (recordingId v))
      \<and> field kvs ''uploadUrl'' = Some (JString (uploadUrl v))
      \<and> agrees_headers (field kvs ''headers'') (headers v))"
| "agrees_init j v = False"

fun agrees_status :: "json \<Rightarrow> RecordingStatusResponse \<Rightarrow> bool" where
  "agrees_status (JObject kvs) w =
     (field kvs ''recordingId'' = Some (JString (status_recordingId w))
      \<and> (case field kvs ''status'' of
            Some (JString s) \<Rightarrow> map_of status_names s = Some (status w)
          | other \<Rightarrow> False)
      \<and> field kvs ''error'' = map_option JString (status_error w)
      \<and> agrees_steps (field kvs ''steps'') (steps w))"
| "agrees_status j w = False"

section \<open>The payloads, as the data model states them\<close>

text \<open>
  The init result and the recording status as the data model of the system describes
  them, written from its words and not from the validation code. An init result has a
  \<open>recordingId\<close> that is a non-empty string, an \<open>uploadUrl\<close> that is an absolute URL, and
  optionally \<open>headers\<close>, a mapping of header names to values. A recording status has a
  \<open>recordingId\<close>, a \<open>status\<close> that is one of six names, an \<open>error\<close> message that is
  present exactly when the status is \<open>FAILED\<close>, and a sequence of steps that is present
  exactly when the status is \<open>COMPLETED\<close>. A step has an \<open>index\<close> (counted from 0,
  ascending and so unique within the sequence), \<open>startSec\<close> and \<open>endSec\<close> (neither
  negative, \<open>endSec\<close> not before \<open>startSec\<close>), a \<open>title\<close>, a \<open>description\<close>, and
  optionally evidence with an optional transcript snippet and an optional keyframe URL.
\<close>

fun num_le :: "jsnumber \<Rightarrow> jsnumber \<Rightarrow> bool" where
  "num_le NaN b = False"
| "num_le a NaN = False"
| "num_le NegInfinity b = True"
| "num_le a PosInfinity = True"
| "num_le (Num a) (Num b) = (a \<le> b)"
| "num_le a b = False"

definition num_less :: "jsnumber \<Rightarrow> jsnumber \<Rightarrow> bool" where
  "num_less a b = (num_le a b \<and> a \<noteq> b)"

fun number_of :: "json option \<Rightarrow> jsnumber" where
  "number_of (Some (JNumber n)) = n"
| "number_of v = NaN"

fun model_evidence :: "json option \<Rightarrow> bool" where
  "model_evidence (Some (JObject kvs)) =
     (absent_or is_string (field kvs ''transcriptSnippet'')
      \<and> absent_or is_string (field kvs ''keyframeUrl''))"
| "model_evidence v = False"

fun model_step :: "json \<Rightarrow> bool" where
  "model_step (JObject kvs) =
     (num_le (Num 0) (number_of (field kvs ''index''))
      \<and> num_le (Num 0) (number_of (field kvs ''startSec''))
      \<and> num_le (number_of (field kvs ''startSec'')) (number_of (field kvs ''endSec''))
      \<and> is_string (field kvs ''title'')
      \<and> is_string (field kvs ''description'')
      \<and> absent_or model_evidence (field kvs ''evidence''))"
| "model_step j = False"

fun step_index :: "json \<Rightarrow> jsnumber" where
  "step_index (JObject kvs) = number_of (field kvs ''index'')"
| "step_index j = NaN"

fun ascending :: "jsnumber list \<Rightarrow> bool" where
  "ascending [] = True"
| "ascending [a] = True"
| "ascending (a # b # rest) = (num_less a b \<and> ascending (b # rest))"

fun model_steps :: "json option \<Rightarrow> bool" where
  "model_steps (Some (JArray xs)) = (list_all model_step xs \<and> ascending (map step_index xs))"
| "model_steps v = False"

fun non_empty_string :: "json option \<Rightarrow> bool" where
  "non_empty_string (Some (JString s)) = (s \<noteq> [])"
| "non_empty_string v = False"

fun model_init :: "(string \<Rightarrow> bool) \<Rightarrow> json \<Rightarrow> bool" where
  "model_init isUrl (JObject kvs) =
     (non_empty_string (field kvs ''recordingId'')
      \<and> is_url isUrl (field kvs ''uploadUrl'')
      \<and> absent_or is_string_map (field kvs ''headers''))"
| "model_init isUrl j = False"

fun model_status :: "json \<Rightarrow> bool" where
  "model_status (JObject kvs) =
     (is_string (field kvs ''recordingId'')
      \<and> is_status_name (field kvs ''status'')
      \<and> (if field kvs ''status'' = Some (JString ''FAILED'')
          then is_string (field kvs ''error'') else field kvs ''error'' = None)
      \<and> (if field kvs ''status'' = Some (JString ''COMPLETED'')
          then model_steps (field kvs ''steps'') else field kvs ''steps'' = None))"
| "model_status j = False"

section \<open>Example inputs\<close>

text \<open>Concrete surroundings, used to run the definitions above on examples.\<close>

text \<open>\<open>JSON.parse\<close> on the texts of the examples; every other text used there
  (\<open>undefined\<close> among them) is not JSON and makes it throw.\<close>

definition example_JSON_parse :: "string \<Rightarrow> js_exn + json" where
  "example_JSON_parse s =
     (if s = ''[3,{},8]'' then Inr (JArray [JNumber (Num 3), JObject [], JNumber (Num 8)])
      else if s = ''[5,{\"toString\":1}]''
        then Inr (JArray [JNumber (Num 5), JObject [(''toString'', JNumber (Num 1))]])
      else if s = ''{}'' then Inr (JObject [])
      else if s = ''[]'' then Inr (JArray [])
      else Inl (SyntaxError ''Unexpected token''))"

text \<open>\<open>Number\<close> on the values of the examples: a number is itself, \<open>null\<close> is \<open>0\<close>, a
  boolean is \<open>0\<close> or \<open>1\<close>; an object with a property \<open>toString\<close> of its own makes it
  throw, any other object is \<open>NaN\<close>. (Non-empty strings and arrays, which \<open>Number\<close>
  converts through their text, do not occur in the examples; the last equation is not
  meant for them.)\<close>

fun example_Number :: "json \<Rightarrow> js_exn + jsnumber" where
  "example_Number (JNumber n) = Inr n"
| "example_Number JNull = Inr (Num 0)"
| "example_Number (JBool b) = Inr (Num (if b then 1 else 0))"
| "example_Number (JObject kvs) =
     (if map_of kvs ''toString'' \<noteq> None then Inl (TypeError ''Cannot convert object to primitive value'')
      else Inr NaN)"
| "example_Number j = Inr NaN"

definition example_settings :: settings where
  "example_settings =
     \<lparr>apiBaseUrl = ''https://api.example'', uploadContentType = ''video/mp4'', pollIntervalMs = 3000\<rparr>"

text \<open>A URL check for the examples: it accepts the texts that start with \<open>https://\<close> and
  go on.\<close>

definition accepts_https :: "string \<Rightarrow> bool" where
  "accepts_https s = (take 8 s = ''https://'' \<and> 8 < length s)"

definition json_response :: "nat \<Rightarrow> json \<Rightarrow> response" where
  "json_response st j = \<lparr>http_status = st, body_text = Inr ''(json)'', body_json = Inr j\<rparr>"

definition empty_response :: "nat \<Rightarrow> response" where
  "empty_response st =
     \<lparr>http_status = st, body_text = Inr [], body_json = Inl (SyntaxError ''Unexpected end of JSON input'')\<rparr>"

text \<open>A run in which the file is there, the backend reserves the recording \<open>r1\<close> and
  acknowledges the completion; the events of the transfer are left open.\<close>

definition example_env :: "flow_event list \<Rightarrow> flow_env" where
  "example_env evs =
     \<lparr>getInfo = Inr \<lparr>file_exists = True, file_size = Some 1000\<rparr>,
      initFetch = Inr (json_response 200
                    (JObject [(''recordingId'', JString ''r1''), (''uploadUrl'', JString ''https://x/r1'')])),
      sendThrows = None,
      uploadEvents = evs,
      completeFetch = Inr (empty_response 204)\<rparr>"

text \<open>A status response of the backend for the recording \<open>r1\<close>.\<close>

definition status_response :: "string \<Rightarrow> js_exn + response" where
  "status_response st =
     Inr (json_response 200 (JObject [(''recordingId'', JString ''r1''), (''status'', JString st)]))"

definition fresh_screen :: screen where
  "fresh_screen =
     \<lparr>ui_progress = 0, ui_state = StIdle, ui_error = None, ui_recordingId = None,
      abortRef = False, route = None\<rparr>"

text \<open>Payloads of the backend: an init result without its upload URL, a status whose
  \<open>status\<close> is a number, an init result with headers and a property the schema does not
  know, a completed status with one step, and three payloads of the right shape whose
  values the data model rules out.\<close>

definition init_without_url :: json where
  "init_without_url = JObject [(''recordingId'', JString ''r1'')]"

definition status_with_number :: json where
  "status_with_number = JObject [(''recordingId'', JString ''r1''), (''status'', JNumber (Num 4))]"

definition init_with_headers :: json where
  "init_with_headers =
     JObject [(''recordingId'', JString ''r1''), (''uploadUrl'', JString ''https://x/r1''),
              (''headers'', JObject [(''x-amz-acl'', JString ''private''), (''__proto__'', JString ''p'')]),
              (''extra'', JBool True)]"

definition one_step :: json where
  "one_step =
     JObject [(''index'', JNumber (Num 0)), (''startSec'', JNumber (Num 0)), (''endSec'', JNumber (Num 4)),
              (''title'', JString ''Open''), (''description'', JString ''Open the lid''),
              (''evidence'', JObject [(''transcriptSnippet'', JString ''open it'')])]"

definition status_completed :: json where
  "status_completed =
     JObject [(''recordingId'', JString ''r1''), (''status'', JString ''COMPLETED''),
              (''steps'', JArray [one_step])]"

definition status_processing_with_steps :: json where
  "status_processing_with_steps =
     JObject [(''recordingId'', JString ''r1''), (''status'', JString ''PROCESSING''),
              (''error'', JString ''no audio''),
              (''steps'', JArray [JObject [(''index'', JNumber (Num 0)), (''startSec'', JNumber (Num 9)),
                                          (''endSec'', JNumber (Num 2)), (''title'', JString ''Open''),
                                          (''description'', JString ''Open the lid'')]])]"

definition status_completed_without_steps :: json where
  "status_completed_without_steps =
     JObject [(''recordingId'', JString ''r1''), (''status'', JString ''COMPLETED'')]"

definition init_with_empty_id :: json where
  "init_with_empty_id =
     JObject [(''recordingId'', JString ''''), (''uploadUrl'', JString ''https://x/r1'')]"

section \<open>Properties\<close>

subsection \<open>Decimal rendering\<close>

lemma show_nat_nonempty: "show_nat n \<noteq> []"
  by (subst show_nat.simps) simp

lemma show_nat_snoc:
  "show_nat n = (if n < 10 then [] else show_nat (n div 10)) @ [digit_char (n mod 10)]"
  by (subst show_nat.simps) simp

lemma digit_char_inj: "d < 10 \<Longrightarrow> e < 10 \<Longrightarrow> digit_char d = digit_char e \<Longrightarrow> d = e"
proof -
  assume d: "d < 10" and e: "e < 10" and eq: "digit_char d = digit_char e"
  have "distinct ''0123456789''" by simp
  moreover have "d < length ''0123456789''" "e < length ''0123456789''" using d e by simp_all
  ultimately show "d = e" using eq unfolding digit_char_def by (simp only: nth_eq_iff_index_eq)
qed

lemma show_nat_inj: "show_nat a = show_nat b \<Longrightarrow> a = b"
proof (induction a arbitrary: b rule: less_induct)
  case (less a)
  let ?pa = "if a < 10 then [] else show_nat (a div 10)"
  let ?pb = "if b < 10 then [] else show_nat (b div 10)"
  have eq: "?pa @ [digit_char (a mod 10)] = ?pb @ [digit_char (b mod 10)]"
    using less.prems show_nat_snoc [of a] show_nat_snoc [of b] by simp
  then have pre: "?pa = ?pb" and dig: "digit_char (a mod 10) = digit_char (b mod 10)"
    by simp_all
  have m: "a mod 10 = b mod 10"
    using dig by (intro digit_char_inj) simp_all
  show ?case
  proof (cases "a < 10")
    case True
    with pre have "b < 10" using show_nat_nonempty [of "b div 10"] by (auto split: if_splits)
    with True m show ?thesis by simp
  next
    case False
    with pre have b: "\<not> b < 10" using show_nat_nonempty [of "a div 10"] by (auto split: if_splits)
    with False pre have "show_nat (a div 10) = show_nat (b div 10)" by simp
    moreover have "a div 10 < a" using False by simp
    ultimately have "a div 10 = b div 10" using less.IH by blast
    with m show ?thesis by (metis div_mult_mod_eq)
  qed
qed

subsection \<open>The transport settles once\<close>

lemma uploadVideo_coherent: "coherent (uploadVideo p thr s0)"
  by (cases thr) (simp_all add: coherent_def uploadVideo_def rejectOnce_def)

lemma dispatch_coherent: "coherent x \<Longrightarrow> coherent (dispatch p x ev)"
  by (cases ev)
     (auto simp: coherent_def onload_def onerror_def onabort_def rejectOnce_def onprogress_def
        on_signal_abort_def xhr_abort_def Let_def split: option.splits)

lemma foldl_dispatch_coherent: "coherent x \<Longrightarrow> coherent (foldl (dispatch p) x evs)"
  by (induction evs arbitrary: x) (simp_all add: dispatch_coherent)

lemma transfer_coherent: "coherent (transfer p thr s0 evs)"
  by (simp add: transfer_def foldl_dispatch_coherent uploadVideo_coherent)

lemma dispatch_keeps_settlement:
  "settled x \<Longrightarrow> settled (dispatch p x ev) \<and> settlements (dispatch p x ev) = settlements x"
  by (cases ev)
     (simp_all add: onload_def onerror_def onabort_def rejectOnce_def onprogress_def
        on_signal_abort_def xhr_abort_def Let_def split: option.splits)

lemma foldl_dispatch_keeps_settlement:
  "settled x \<Longrightarrow> settled (foldl (dispatch p) x evs) \<and> settlements (foldl (dispatch p) x evs) = settlements x"
proof (induction evs arbitrary: x)
  case Nil
  then show ?case by simp
next
  case (Cons ev evs)
  from Cons.prems have s: "settled (dispatch p x ev)" and e: "settlements (dispatch p x ev) = settlements x"
    using dispatch_keeps_settlement by blast+
  from Cons.IH [OF s] e show ?case by simp
qed

lemma pending_iff: "coherent x \<Longrightarrow> outcome x = None \<longleftrightarrow> \<not> settled x"
  by (cases "settlements x") (simp_all add: outcome_def coherent_def)

lemma transfer_append:
  "transfer p thr s0 (evs @ later) = foldl (dispatch p) (transfer p thr s0 evs) later"
  by (simp add: transfer_def)

lemma outcome_after_settled:
  "settled x \<Longrightarrow> outcome (foldl (dispatch p) x evs) = outcome x"
  using foldl_dispatch_keeps_settlement [of x p evs] by (simp add: outcome_def)

text \<open>An event that settles a pending promise decides the outcome, whatever follows.\<close>

lemma first_settlement:
  assumes pend: "outcome (transfer p thr s0 pre) = None"
    and one: "settlements (dispatch p (transfer p thr s0 pre) ev) = [r]"
  shows "outcome (transfer p thr s0 (pre @ ev # post)) = Some r"
proof -
  let ?x = "dispatch p (transfer p thr s0 pre) ev"
  have "coherent ?x" by (simp add: dispatch_coherent transfer_coherent)
  with one have "settled ?x" by (simp add: coherent_def)
  then have "outcome (foldl (dispatch p) ?x post) = outcome ?x" by (rule outcome_after_settled)
  moreover have "transfer p thr s0 (pre @ ev # post) = foldl (dispatch p) ?x post"
    by (simp add: transfer_def)
  ultimately show ?thesis using one by (simp add: outcome_def)
qed

lemma pending_state:
  "outcome (transfer p thr s0 pre) = None \<Longrightarrow>
     \<not> settled (transfer p thr s0 pre) \<and> settlements (transfer p thr s0 pre) = []
     \<and> \<not> readyStateDone (transfer p thr s0 pre)"
  using transfer_coherent [of p thr s0 pre] pending_iff [of "transfer p thr s0 pre"]
  by (auto simp: coherent_def)

lemma pending_load:
  assumes "outcome (transfer p thr s0 pre) = None"
  shows "outcome (transfer p thr s0 (pre @ Load st # post)) =
           Some (if 200 \<le> st \<and> st < 300 then Resolved
                 else Rejected (Error (''Upload failed with status '' @ show_nat st)))"
  using assms pending_state [OF assms]
  by (intro first_settlement) (simp_all add: onload_def)

lemma pending_error:
  assumes "outcome (transfer p thr s0 pre) = None"
  shows "outcome (transfer p thr s0 (pre @ NetError # post)) =
           Some (Rejected (Error ''Network error during upload''))"
  using assms pending_state [OF assms]
  by (intro first_settlement) (simp_all add: onerror_def rejectOnce_def)

lemma pending_signal_abort:
  assumes "outcome (transfer p thr s0 pre) = None" and "signal p"
  shows "outcome (transfer p thr s0 (pre @ SignalAbort # post)) =
           Some (Rejected (DOMException ''Upload aborted'' ''AbortError''))"
  using assms pending_state [OF assms(1)]
  by (intro first_settlement) (simp_all add: on_signal_abort_def xhr_abort_def onabort_def rejectOnce_def)

lemma dispatch_resolves:
  assumes "\<not> settled x" and "settlements x = []"
    and "outcome (dispatch p x ev) = Some Resolved"
  shows "\<exists>st. ev = Load st \<and> 200 \<le> st \<and> st < 300"
  using assms
  by (cases ev)
     (auto simp: outcome_def onload_def onerror_def onabort_def rejectOnce_def onprogress_def
        on_signal_abort_def xhr_abort_def Let_def split: option.splits if_splits list.splits)

lemma resolved_by_load:
  "outcome (transfer p thr s0 evs) = Some Resolved \<Longrightarrow>
     \<exists>pre st post. evs = pre @ Load st # post \<and> outcome (transfer p thr s0 pre) = None
        \<and> 200 \<le> st \<and> st < 300"
proof (induction evs rule: rev_induct)
  case Nil
  then show ?case
    by (cases thr) (simp_all add: transfer_def uploadVideo_def outcome_def rejectOnce_def)
next
  case (snoc ev evs)
  show ?case
  proof (cases "outcome (transfer p thr s0 evs) = None")
    case True
    note pend = pending_state [OF True]
    have "outcome (dispatch p (transfer p thr s0 evs) ev) = Some Resolved"
      using snoc.prems by (simp add: transfer_def)
    with pend obtain st where "ev = Load st" "200 \<le> st" "st < 300"
      using dispatch_resolves [of "transfer p thr s0 evs" p ev] by blast
    with True show ?thesis by blast
  next
    case False
    then have "settled (transfer p thr s0 evs)"
      using pending_iff [OF transfer_coherent, of p thr s0 evs] by simp
    then have "outcome (transfer p thr s0 (evs @ [ev])) = outcome (transfer p thr s0 evs)"
      unfolding transfer_append by (rule outcome_after_settled)
    with snoc.prems have "outcome (transfer p thr s0 evs) = Some Resolved" by simp
    from snoc.IH [OF this] obtain pre st post where
      "evs = pre @ Load st # post" "outcome (transfer p thr s0 pre) = None" "200 \<le> st" "st < 300"
      by blast
    then have "evs @ [ev] = pre @ Load st # (post @ [ev])" by simp
    with \<open>outcome (transfer p thr s0 pre) = None\<close> \<open>200 \<le> st\<close> \<open>st < 300\<close> show ?thesis by blast
  qed
qed

subsection \<open>C8: the promise settles once\<close>

lemma pending_abort:
  assumes "outcome (transfer p thr s0 pre) = None"
  shows "outcome (transfer p thr s0 (pre @ Abort # post)) =
           Some (Rejected (DOMException ''Upload aborted'' ''AbortError''))"
  using assms pending_state [OF assms]
  by (intro first_settlement) (simp_all add: onabort_def rejectOnce_def)

lemma single_settlement: "outcome (transfer p thr s0 evs) = Some r \<Longrightarrow> settlements (transfer p thr s0 evs) = [r]"
  using transfer_coherent [of p thr s0 evs]
  by (cases "settlements (transfer p thr s0 evs)") (simp_all add: outcome_def coherent_def)

lemma send_throw_decides: "settlements (transfer p (Some thrown) s0 evs) = [Rejected thrown]"
proof -
  have "settled (uploadVideo p (Some thrown) s0)"
    and "settlements (uploadVideo p (Some thrown) s0) = [Rejected thrown]"
    by (simp_all add: uploadVideo_def rejectOnce_def)
  then show ?thesis
    unfolding transfer_def using foldl_dispatch_keeps_settlement [of "uploadVideo p (Some thrown) s0" p evs]
    by simp
qed

text \<open>
  C8. The promise of \<open>uploadVideo\<close> settles once: whatever events arrive and in whatever
  order, at most one call to \<open>resolve\<close> or \<open>reject\<close> is made, and once one was made
  every later event leaves the settlement as it is. The first settling event is the one
  delivered: a throw of \<open>send\<close> rejects with what was thrown, whatever follows; and
  while the promise is pending, a response, a transport failure or an abort settles it,
  with its own outcome, whatever follows.
\<close>

theorem uploadVideo_settles_once:
  "length (settlements (transfer p thr s0 evs)) \<le> 1
   \<and> (outcome (transfer p thr s0 evs) \<noteq> None \<longrightarrow>
        settlements (transfer p thr s0 (evs @ later)) = settlements (transfer p thr s0 evs)
        \<and> outcome (transfer p thr s0 (evs @ later)) = outcome (transfer p thr s0 evs))
   \<and> settlements (transfer p (Some thrown) s0 evs) = [Rejected thrown]
   \<and> (outcome (transfer p thr s0 pre) = None \<longrightarrow>
        settlements (transfer p thr s0 (pre @ Load st # post))
          = [if 200 \<le> st \<and> st < 300 then Resolved
             else Rejected (Error (''Upload failed with status '' @ show_nat st))]
        \<and> settlements (transfer p thr s0 (pre @ NetError # post))
          = [Rejected (Error ''Network error during upload'')]
        \<and> settlements (transfer p thr s0 (pre @ Abort # post))
          = [Rejected (DOMException ''Upload aborted'' ''AbortError'')])"
proof (intro conjI impI)
  show "length (settlements (transfer p thr s0 evs)) \<le> 1"
    using transfer_coherent [of p thr s0 evs] by (simp add: coherent_def)
next
  assume o: "outcome (transfer p thr s0 evs) \<noteq> None"
  have st: "settled (transfer p thr s0 evs)"
    using o pending_iff [OF transfer_coherent, of p thr s0 evs] by simp
  show same: "settlements (transfer p thr s0 (evs @ later)) = settlements (transfer p thr s0 evs)"
    using foldl_dispatch_keeps_settlement [OF st, of p later] by (simp add: transfer_append)
  show "outcome (transfer p thr s0 (evs @ later)) = outcome (transfer p thr s0 evs)"
    using same by (simp add: outcome_def)
next
  show "settlements (transfer p (Some thrown) s0 evs) = [Rejected thrown]"
    by (rule send_throw_decides)
next
  assume pend: "outcome (transfer p thr s0 pre) = None"
  show "settlements (transfer p thr s0 (pre @ Load st # post))
          = [if 200 \<le> st \<and> st < 300 then Resolved
             else Rejected (Error (''Upload failed with status '' @ show_nat st))]"
    by (rule single_settlement) (rule pending_load [OF pend])
  show "settlements (transfer p thr s0 (pre @ NetError # post))
          = [Rejected (Error ''Network error during upload'')]"
    by (rule single_settlement) (rule pending_error [OF pend])
  show "settlements (transfer p thr s0 (pre @ Abort # post))
          = [Rejected (DOMException ''Upload aborted'' ''AbortError'')]"
    by (rule single_settlement) (rule pending_abort [OF pend])
qed

lemmas eval_transfer =
  transfer_def uploadVideo_def recording_params_def outcome_def onload_def onerror_def
  onabort_def rejectOnce_def onprogress_def on_signal_abort_def xhr_abort_def Let_def

theorem uploadVideo_settles_once_witness:
  "length (settlements (transfer (recording_params ''https://x/r1'' ''video/mp4'') (Some (TypeError ''send'')) [] [Load 200])) \<le> 1
   \<and> outcome (transfer (recording_params ''https://x/r1'' ''video/mp4'') None [] [NetError]) \<noteq> None
   \<and> settlements (transfer (recording_params ''https://x/r1'' ''video/mp4'') None [] ([NetError] @ [Load 200, Abort, SignalAbort]))
       = [Rejected (Error ''Network error during upload'')]
   \<and> settlements (transfer (recording_params ''https://x/r1'' ''video/mp4'') (Some (TypeError ''send'')) [] [Load 200])
       = [Rejected (TypeError ''send'')]
   \<and> outcome (transfer (recording_params ''https://x/r1'' ''video/mp4'') None [] [UploadProgress True 1 2]) = None
   \<and> settlements (transfer (recording_params ''https://x/r1'' ''video/mp4'') None []
                    ([UploadProgress True 1 2] @ Load 200 # [NetError, Abort]))
       = [Resolved]
   \<and> settlements (transfer (recording_params ''https://x/r1'' ''video/mp4'') None []
                    ([UploadProgress True 1 2] @ Abort # [Load 200]))
       = [Rejected (DOMException ''Upload aborted'' ''AbortError'')]"
  using uploadVideo_settles_once [of "recording_params ''https://x/r1'' ''video/mp4''" None "[]" "[NetError]"
          "[Load 200, Abort, SignalAbort]" "TypeError ''send''" "[UploadProgress True 1 2]" 200 "[NetError, Abort]"]
    uploadVideo_settles_once [of "recording_params ''https://x/r1'' ''video/mp4''" "Some (TypeError ''send'')" "[]"
          "[Load 200]" "[]" "TypeError ''send''" "[]" 200 "[]"]
    uploadVideo_settles_once [of "recording_params ''https://x/r1'' ''video/mp4''" None "[]" "[NetError]"
          "[]" "TypeError ''send''" "[UploadProgress True 1 2]" 200 "[Load 200]"]
  by (simp add: eval_transfer)

subsection \<open>C4: the outcome follows the status code\<close>

text \<open>
  C4. A transfer resolves exactly when, while the promise is pending, the endpoint
  answers with a status from 200 to 299. Any other status \<open>N\<close> rejects with the error
  \<open>Upload failed with status N\<close>, from whose message the status can be read back; a
  transport failure rejects with \<open>Network error during upload\<close>, which is none of the
  status messages.
\<close>

theorem uploadVideo_succeeds_iff_2xx:
  "(outcome (transfer p thr s0 evs) = Some Resolved \<longleftrightarrow>
      (\<exists>pre st post. evs = pre @ Load st # post \<and> outcome (transfer p thr s0 pre) = None
          \<and> 200 \<le> st \<and> st < 300))
   \<and> (outcome (transfer p thr s0 pre) = None \<longrightarrow>
        (\<not> (200 \<le> st \<and> st < 300) \<longrightarrow>
           outcome (transfer p thr s0 (pre @ Load st # post))
             = Some (Rejected (Error (''Upload failed with status '' @ show_nat st))))
        \<and> outcome (transfer p thr s0 (pre @ NetError # post))
             = Some (Rejected (Error ''Network error during upload'')))
   \<and> Error ''Network error during upload'' \<noteq> Error (''Upload failed with status '' @ show_nat st)
   \<and> (Error (''Upload failed with status '' @ show_nat st) = Error (''Upload failed with status '' @ show_nat st')
        \<longleftrightarrow> st = st')"
proof (intro conjI impI)
  show "outcome (transfer p thr s0 evs) = Some Resolved \<longleftrightarrow>
      (\<exists>pre st post. evs = pre @ Load st # post \<and> outcome (transfer p thr s0 pre) = None
          \<and> 200 \<le> st \<and> st < 300)"
  proof
    assume "outcome (transfer p thr s0 evs) = Some Resolved"
    then show "\<exists>pre st post. evs = pre @ Load st # post \<and> outcome (transfer p thr s0 pre) = None
          \<and> 200 \<le> st \<and> st < 300"
      by (rule resolved_by_load)
  next
    assume "\<exists>pre st post. evs = pre @ Load st # post \<and> outcome (transfer p thr s0 pre) = None
          \<and> 200 \<le> st \<and> st < 300"
    then obtain pre st post where e: "evs = pre @ Load st # post"
      and pend: "outcome (transfer p thr s0 pre) = None" and ok: "200 \<le> st" "st < 300"
      by blast
    show "outcome (transfer p thr s0 evs) = Some Resolved"
      unfolding e using pending_load [OF pend, of st post] ok by simp
  qed
next
  assume pend: "outcome (transfer p thr s0 pre) = None" and bad: "\<not> (200 \<le> st \<and> st < 300)"
  show "outcome (transfer p thr s0 (pre @ Load st # post))
          = Some (Rejected (Error (''Upload failed with status '' @ show_nat st)))"
    using pending_load [OF pend, of st post] bad by simp
next
  assume pend: "outcome (transfer p thr s0 pre) = None"
  show "outcome (transfer p thr s0 (pre @ NetError # post))
          = Some (Rejected (Error ''Network error during upload''))"
    by (rule pending_error [OF pend])
next
  show "Error ''Network error during upload'' \<noteq> Error (''Upload failed with status '' @ show_nat st)"
    by simp
next
  show "Error (''Upload failed with status '' @ show_nat st) = Error (''Upload failed with status '' @ show_nat st')
        \<longleftrightarrow> st = st'"
    using show_nat_inj [of st st'] by auto
qed

theorem uploadVideo_succeeds_iff_2xx_witness:
  "outcome (transfer (recording_params ''https://x/r1'' ''video/mp4'') None [] [UploadProgress True 50 100, Load 204])
     = Some Resolved
   \<and> outcome (transfer (recording_params ''https://x/r1'' ''video/mp4'') None [] [UploadProgress True 50 100]) = None
   \<and> \<not> (200 \<le> (500::nat) \<and> (500::nat) < 300)
   \<and> outcome (transfer (recording_params ''https://x/r1'' ''video/mp4'') None [] ([UploadProgress True 50 100] @ Load 500 # []))
     = Some (Rejected (Error ''Upload failed with status 500''))
   \<and> outcome (transfer (recording_params ''https://x/r1'' ''video/mp4'') None [] ([UploadProgress True 50 100] @ NetError # []))
     = Some (Rejected (Error ''Network error during upload''))"
  using uploadVideo_succeeds_iff_2xx [of "recording_params ''https://x/r1'' ''video/mp4''" None "[]"
      "[UploadProgress True 50 100, Load 204]" "[UploadProgress True 50 100]" 500 "[]" 404]
  by (simp add: eval_transfer show_nat.simps digit_char_def)

subsection \<open>C5: the values given to the progress callback\<close>

lemma sink_dispatch:
  assumes "onProgress p = Some (\<lambda>v log. log @ [v])"
  shows "sink (dispatch p x ev) = sink x @ map fraction (computable [ev])"
proof (cases ev)
  case (UploadProgress lc loaded tot)
  then show ?thesis using assms by (cases lc) (simp_all add: onprogress_def Let_def)
qed (simp_all add: onload_def onerror_def onabort_def rejectOnce_def on_signal_abort_def xhr_abort_def)

lemma computable_Cons: "computable (ev # evs) = computable [ev] @ computable evs"
proof (cases ev)
  case (UploadProgress lc loaded tot)
  then show ?thesis by (cases lc) simp_all
qed simp_all

lemma sink_foldl:
  assumes "onProgress p = Some (\<lambda>v log. log @ [v])"
  shows "sink (foldl (dispatch p) x evs) = sink x @ map fraction (computable evs)"
proof (induction evs arbitrary: x)
  case Nil
  then show ?case by simp
next
  case (Cons ev evs)
  have "sink (foldl (dispatch p) x (ev # evs)) = sink (dispatch p x ev) @ map fraction (computable evs)"
    using Cons.IH [of "dispatch p x ev"] by simp
  also have "\<dots> = sink x @ map fraction (computable [ev]) @ map fraction (computable evs)"
    by (simp add: sink_dispatch [OF assms])
  also have "\<dots> = sink x @ map fraction (computable (ev # evs))"
    using computable_Cons [of ev evs] by simp
  finally show ?case .
qed

lemma sink_uploadVideo: "sink (uploadVideo p thr s0) = s0"
  by (cases thr) (simp_all add: uploadVideo_def rejectOnce_def)

lemma fraction_range: "0 \<le> l \<Longrightarrow> l \<le> t \<Longrightarrow> 0 \<le> fraction (l, t) \<and> fraction (l, t) \<le> 1"
  by (simp add: divide_le_eq_1)

lemma fraction_mono: "l \<le> l' \<Longrightarrow> fraction (l, t) \<le> fraction (l', t)"
  by (simp add: divide_right_mono)

lemma within_total_range:
  "list_all within_total ps \<Longrightarrow> list_all (\<lambda>f. 0 \<le> f \<and> f \<le> 1) (map fraction ps)"
proof (induction ps)
  case Nil
  then show ?case by simp
next
  case (Cons a ps)
  obtain l t where a: "a = (l, t)" by (cases a)
  with Cons.prems have "0 \<le> l" "l \<le> t" by simp_all
  then have "0 \<le> fraction (l, t) \<and> fraction (l, t) \<le> 1" by (rule fraction_range)
  with Cons a show ?case by (simp del: fraction.simps)
qed

lemma steady_sorted: "steady ps \<Longrightarrow> sorted (map fraction ps)"
proof (induction ps rule: steady.induct)
  case 1
  then show ?case by simp
next
  case (2 l t)
  then show ?case by simp
next
  case (3 l t l' t' rest)
  then have "l \<le> l'" "t = t'" and tl: "sorted (map fraction ((l', t') # rest))" by simp_all
  have "fraction (l, t) \<le> fraction (l', t')" using \<open>l \<le> l'\<close> \<open>t = t'\<close> fraction_mono by simp
  with tl show ?case by (simp del: fraction.simps) (auto simp del: fraction.simps)
qed

lemma last_fraction_full:
  "ps \<noteq> [] \<Longrightarrow> 0 < snd (last ps) \<Longrightarrow> fst (last ps) = snd (last ps) \<Longrightarrow> last (map fraction ps) = 1"
proof -
  assume ne: "ps \<noteq> []" and pos: "0 < snd (last ps)" and full: "fst (last ps) = snd (last ps)"
  have "last (map fraction ps) = fraction (last ps)" using ne by (simp add: last_map)
  also have "\<dots> = fraction (snd (last ps), snd (last ps))" using full by (metis prod.collapse)
  also have "\<dots> = 1" using pos by simp
  finally show ?thesis .
qed

lemma sink_transfer:
  "sink (transfer (recording_params url ctype) thr [] evs) = map fraction (computable evs)"
proof -
  have cb: "onProgress (recording_params url ctype) = Some (\<lambda>v log. log @ [v])"
    by (simp add: recording_params_def)
  show ?thesis
    unfolding transfer_def using sink_foldl [OF cb] by (simp add: sink_uploadVideo)
qed

text \<open>
  C5 (as the code has it). The values given to \<open>onProgress\<close> are, in order, bytes sent
  over total bytes of each progress event whose length is computable (\<open>0\<close> when such an
  event reports no positive total); an event whose length is not computable gives no
  value. Every value lies in \<open>[0,1]\<close> when each of these events is within its total.
  The values never decrease when the stream is steady (a fixed total, bytes sent never
  decreasing). The last value is \<open>1\<close> when the last computable event reports all bytes
  sent; the code itself puts the values in no order and reports no final value on
  success.
\<close>

theorem progress_values:
  "sink (transfer (recording_params url ctype) thr [] evs) = map fraction (computable evs)
   \<and> (list_all within_total (computable evs) \<longrightarrow>
        list_all (\<lambda>f. 0 \<le> f \<and> f \<le> 1) (sink (transfer (recording_params url ctype) thr [] evs)))
   \<and> (steady (computable evs) \<longrightarrow>
        sorted (sink (transfer (recording_params url ctype) thr [] evs)))
   \<and> (computable evs \<noteq> [] \<and> 0 < snd (last (computable evs))
        \<and> fst (last (computable evs)) = snd (last (computable evs)) \<longrightarrow>
        last (sink (transfer (recording_params url ctype) thr [] evs)) = 1)"
  unfolding sink_transfer using within_total_range steady_sorted last_fraction_full by blast

theorem progress_values_witness:
  "sink (transfer (recording_params ''https://x/r1'' ''video/mp4'') None []
           [UploadProgress True 30 100, UploadProgress False 0 0, UploadProgress True 70 100,
            UploadProgress True 100 100, Load 200])
     = [3 / 10, 7 / 10, 1]
   \<and> list_all within_total (computable [UploadProgress True 30 100, UploadProgress False 0 0,
            UploadProgress True 70 100, UploadProgress True 100 100, Load 200])
   \<and> list_all (\<lambda>f. 0 \<le> f \<and> f \<le> 1) (sink (transfer (recording_params ''https://x/r1'' ''video/mp4'') None []
           [UploadProgress True 30 100, UploadProgress False 0 0, UploadProgress True 70 100,
            UploadProgress True 100 100, Load 200]))
   \<and> steady (computable [UploadProgress True 30 100, UploadProgress False 0 0, UploadProgress True 70 100,
            UploadProgress True 100 100, Load 200])
   \<and> sorted (sink (transfer (recording_params ''https://x/r1'' ''video/mp4'') None []
           [UploadProgress True 30 100, UploadProgress False 0 0, UploadProgress True 70 100,
            UploadProgress True 100 100, Load 200]))
   \<and> last (sink (transfer (recording_params ''https://x/r1'' ''video/mp4'') None []
           [UploadProgress True 30 100, UploadProgress False 0 0, UploadProgress True 70 100,
            UploadProgress True 100 100, Load 200])) = 1"
  using progress_values [of "''https://x/r1''" "''video/mp4''" None
      "[UploadProgress True 30 100, UploadProgress False 0 0, UploadProgress True 70 100,
        UploadProgress True 100 100, Load 200]"]
  by simp

text \<open>A transfer that succeeds after the byte count fell back (the body sent again) and
  whose last progress event came before the end: the values decrease, and the last one
  is not \<open>1\<close>.\<close>

theorem progress_counterexample:
  "outcome (transfer (recording_params ''https://x/r1'' ''video/mp4'') None []
              [UploadProgress True 80 100, UploadProgress True 30 100, Load 200]) = Some Resolved
   \<and> sink (transfer (recording_params ''https://x/r1'' ''video/mp4'') None []
              [UploadProgress True 80 100, UploadProgress True 30 100, Load 200]) = [4 / 5, 3 / 10]
   \<and> \<not> sorted (sink (transfer (recording_params ''https://x/r1'' ''video/mp4'') None []
              [UploadProgress True 80 100, UploadProgress True 30 100, Load 200]))
   \<and> last (sink (transfer (recording_params ''https://x/r1'' ''video/mp4'') None []
              [UploadProgress True 80 100, UploadProgress True 30 100, Load 200])) \<noteq> 1"
proof -
  have s: "sink (transfer (recording_params ''https://x/r1'' ''video/mp4'') None []
              [UploadProgress True 80 100, UploadProgress True 30 100, Load 200]) = [4 / 5, 3 / 10]"
    by (simp add: sink_transfer)
  have o: "outcome (transfer (recording_params ''https://x/r1'' ''video/mp4'') None []
              [UploadProgress True 80 100, UploadProgress True 30 100, Load 200]) = Some Resolved"
    by (simp add: eval_transfer)
  have "\<not> sorted [4 / 5, 3 / 10 :: rat]" by code_simp
  moreover have "last [4 / 5, 3 / 10 :: rat] \<noteq> 1" by simp
  ultimately show ?thesis unfolding s o by simp
qed

subsection \<open>C9: parsing the markers parameter\<close>

lemma convert_all_maps: "convert_all Number items = Inr ns \<Longrightarrow> map Number items = map Inr ns"
proof (induction items arbitrary: ns)
  case Nil
  then show ?case by simp
next
  case (Cons item items)
  from Cons.prems obtain n ms where n: "Number item = Inr n" and ms: "convert_all Number items = Inr ms"
    and ns: "ns = n # ms"
    by (cases "Number item"; cases "convert_all Number items") simp_all
  from Cons.IH [OF ms] n ns show ?case by simp
qed

lemma maps_convert_all: "map Number items = map Inr ns \<Longrightarrow> convert_all Number items = Inr ns"
proof (induction items arbitrary: ns)
  case Nil
  then show ?case by simp
next
  case (Cons item items)
  from Cons.prems obtain n ms where ns: "ns = n # ms" and n: "Number item = Inr n"
    and ms: "map Number items = map Inr ms"
    by (cases ns) simp_all
  from Cons.IH [OF ms] n ns show ?case by simp
qed

lemma convert_all_Inr: "convert_all Number items = Inr ns \<longleftrightarrow> map Number items = map Inr ns"
  using convert_all_maps maps_convert_all by blast

lemma convert_all_throws:
  "item \<in> set items \<Longrightarrow> Number item = Inl err \<Longrightarrow> \<exists>err'. convert_all Number items = Inl err'"
proof (induction items)
  case Nil
  then show ?case by simp
next
  case (Cons a items)
  show ?case
  proof (cases "Number a")
    case (Inl e)
    then show ?thesis by simp
  next
    case (Inr n)
    with Cons.prems have "item \<in> set items" by auto
    from Cons.IH [OF this Cons.prems(2)] obtain err' where "convert_all Number items = Inl err'" by blast
    with Inr show ?thesis by simp
  qed
qed

text \<open>
  C9. \<open>parseMarkersParam\<close> never throws, whatever \<open>JSON.parse\<close> and \<open>Number\<close> do: for
  every input it returns an array of numbers, none of them \<open>NaN\<close>. An \<open>undefined\<close>
  input, text that \<open>JSON.parse\<close> rejects and a parsed value that is not an array all give
  the empty array; for a parsed array whose entries all convert, the result is the
  \<open>Number\<close> of each entry, in order, without the entries that convert to \<open>NaN\<close>; when
  the conversion of an entry throws, the \<open>catch\<close> gives the empty array.
\<close>

theorem parseMarkersParam_total:
  "(\<exists>ns. parseMarkersParam JSON_parse Number raw = Inr ns \<and> list_all (\<lambda>n. \<not> isNaN n) ns)
   \<and> parseMarkersParam JSON_parse Number Undefined = Inr []
   \<and> (\<not> falsy_param raw \<and> JSON_parse (param_value raw) = Inl err \<longrightarrow>
        parseMarkersParam JSON_parse Number raw = Inr [])
   \<and> (\<not> falsy_param raw \<and> JSON_parse (param_value raw) = Inr parsed \<and> (\<forall>items. parsed \<noteq> JArray items) \<longrightarrow>
        parseMarkersParam JSON_parse Number raw = Inr [])
   \<and> (\<not> falsy_param raw \<and> JSON_parse (param_value raw) = Inr (JArray items)
        \<and> map Number items = map Inr converted \<longrightarrow>
        parseMarkersParam JSON_parse Number raw = Inr (filter (\<lambda>n. \<not> isNaN n) converted))
   \<and> (\<not> falsy_param raw \<and> JSON_parse (param_value raw) = Inr (JArray items)
        \<and> item \<in> set items \<and> Number item = Inl thrown \<longrightarrow>
        parseMarkersParam JSON_parse Number raw = Inr [])"
proof (intro conjI impI)
  show "\<exists>ns. parseMarkersParam JSON_parse Number raw = Inr ns \<and> list_all (\<lambda>n. \<not> isNaN n) ns"
    by (auto simp: parseMarkersParam_def markers_try_body_def list_all_iff
          split: sum.splits option.splits json.splits)
next
  show "parseMarkersParam JSON_parse Number Undefined = Inr []"
    by (simp add: parseMarkersParam_def)
next
  assume "\<not> falsy_param raw \<and> JSON_parse (param_value raw) = Inl err"
  then show "parseMarkersParam JSON_parse Number raw = Inr []"
    by (simp add: parseMarkersParam_def markers_try_body_def)
next
  assume "\<not> falsy_param raw \<and> JSON_parse (param_value raw) = Inr parsed \<and> (\<forall>items. parsed \<noteq> JArray items)"
  then show "parseMarkersParam JSON_parse Number raw = Inr []"
    by (cases parsed) (simp_all add: parseMarkersParam_def markers_try_body_def)
next
  assume h: "\<not> falsy_param raw \<and> JSON_parse (param_value raw) = Inr (JArray items)
        \<and> map Number items = map Inr converted"
  then have "convert_all Number items = Inr converted" by (simp add: convert_all_Inr)
  with h show "parseMarkersParam JSON_parse Number raw = Inr (filter (\<lambda>n. \<not> isNaN n) converted)"
    by (simp add: parseMarkersParam_def markers_try_body_def)
next
  assume h: "\<not> falsy_param raw \<and> JSON_parse (param_value raw) = Inr (JArray items)
        \<and> item \<in> set items \<and> Number item = Inl thrown"
  then obtain err' where "convert_all Number items = Inl err'"
    using convert_all_throws [of item items Number thrown] by blast
  with h show "parseMarkersParam JSON_parse Number raw = Inr []"
    by (simp add: parseMarkersParam_def markers_try_body_def)
qed

theorem parseMarkersParam_total_witness:
  "\<not> falsy_param (Str ''[3,{},8]'')
   \<and> example_JSON_parse (param_value (Str ''[3,{},8]'')) = Inr (JArray [JNumber (Num 3), JObject [], JNumber (Num 8)])
   \<and> map example_Number [JNumber (Num 3), JObject [], JNumber (Num 8)] = map Inr [Num 3, NaN, Num 8]
   \<and> parseMarkersParam example_JSON_parse example_Number (Str ''[3,{},8]'') = Inr [Num 3, Num 8]
   \<and> \<not> falsy_param (StrArr [])
   \<and> example_JSON_parse (param_value (StrArr [])) = Inl (SyntaxError ''Unexpected token'')
   \<and> parseMarkersParam example_JSON_parse example_Number (StrArr []) = Inr []
   \<and> \<not> falsy_param (StrArr [''{}'', ''[]''])
   \<and> example_JSON_parse (param_value (StrArr [''{}'', ''[]''])) = Inr (JObject [])
   \<and> parseMarkersParam example_JSON_parse example_Number (StrArr [''{}'', ''[]'']) = Inr []
   \<and> \<not> falsy_param (Str ''[5,{\"toString\":1}]'')
   \<and> example_JSON_parse (param_value (Str ''[5,{\"toString\":1}]''))
       = Inr (JArray [JNumber (Num 5), JObject [(''toString'', JNumber (Num 1))]])
   \<and> JObject [(''toString'', JNumber (Num 1))] \<in> set [JNumber (Num 5), JObject [(''toString'', JNumber (Num 1))]]
   \<and> example_Number (JObject [(''toString'', JNumber (Num 1))])
       = Inl (TypeError ''Cannot convert object to primitive value'')
   \<and> parseMarkersParam example_JSON_parse example_Number (Str ''[5,{\"toString\":1}]'') = Inr []"
  using parseMarkersParam_total [of example_JSON_parse example_Number "Str ''[3,{},8]''"
          "SyntaxError ''Unexpected token''" "JObject []" "[JNumber (Num 3), JObject [], JNumber (Num 8)]"
          "[Num 3, NaN, Num 8]" "JObject []" "TypeError ''x''"]
    parseMarkersParam_total [of example_JSON_parse example_Number "StrArr []"
          "SyntaxError ''Unexpected token''" "JObject []" "[]" "[]" "JObject []" "TypeError ''x''"]
    parseMarkersParam_total [of example_JSON_parse example_Number "StrArr [''{}'', ''[]'']"
          "SyntaxError ''Unexpected token''" "JObject []" "[]" "[]" "JObject []" "TypeError ''x''"]
    parseMarkersParam_total [of example_JSON_parse example_Number "Str ''[5,{\"toString\":1}]''"
          "SyntaxError ''Unexpected token''" "JObject []"
          "[JNumber (Num 5), JObject [(''toString'', JNumber (Num 1))]]" "[]"
          "JObject [(''toString'', JNumber (Num 1))]" "TypeError ''Cannot convert object to primitive value''"]
  by (simp add: example_JSON_parse_def)

subsection \<open>C10: optional fields of the init request\<close>

lemma truthy_number_iff: "truthy_number d \<longleftrightarrow> \<not> isNaN d \<and> d \<noteq> Num 0"
  by (cases d) simp_all

lemma payload_markers:
  "body_field (initRecording_request S (init_payload S name sz duration markers)) ''stepMarkersSec''
     = (if markers = [] then None else Some (JArray (map json_of_number markers)))"
  by (simp add: body_field_def initRecording_request_def init_payload_def JSON_stringify_def field_def
        split: option.splits)

lemma payload_duration:
  "body_field (initRecording_request S (init_payload S name sz duration markers)) ''durationSec''
     = (case duration of
          None \<Rightarrow> None
        | Some d \<Rightarrow> if isNaN d \<or> d = Num 0 then None else Some (json_of_number (Math_round d)))"
  by (simp add: body_field_def initRecording_request_def init_payload_def JSON_stringify_def field_def
        truthy_number_iff split: option.splits)

text \<open>Every init request of a run is built from the run's duration and markers.\<close>

lemma flow_init_call:
  "InitCall r \<in> set (snd (startUploadFlow S isUrl env videoUri duration markers ui)) \<Longrightarrow>
     body_field r ''stepMarkersSec'' = (if markers = [] then None else Some (JArray (map json_of_number markers)))
     \<and> body_field r ''durationSec''
         = (case duration of
              None \<Rightarrow> None
            | Some d \<Rightarrow> if isNaN d \<or> d = Num 0 then None else Some (json_of_number (Math_round d)))"
  unfolding startUploadFlow_def Let_def
  by (simp split: if_splits sum.splits option.splits upload_outcome.splits
        add: payload_markers payload_duration)

text \<open>
  C10. In every init request that \<open>startUploadFlow\<close> sends, the body has the property
  \<open>stepMarkersSec\<close> exactly when the marker list is not empty (and then it is the list),
  and the property \<open>durationSec\<close> exactly when the duration is a number other than \<open>0\<close>
  (\<open>NaN\<close> is no number) (and then it is the rounded duration): an empty list and a zero
  duration are left out, not sent as \<open>[]\<close> or \<open>0\<close>.
\<close>

theorem init_request_optional_fields:
  assumes "InitCall r \<in> set (snd (startUploadFlow S isUrl env videoUri duration markers ui))"
  shows "(body_field r ''stepMarkersSec'' \<noteq> None \<longleftrightarrow> markers \<noteq> [])
         \<and> (body_field r ''durationSec'' \<noteq> None \<longleftrightarrow> (\<exists>d. duration = Some d \<and> \<not> isNaN d \<and> d \<noteq> Num 0))
         \<and> body_field r ''stepMarkersSec'' \<noteq> Some (JArray [])
         \<and> (duration = Some (Num 0) \<longrightarrow> body_field r ''durationSec'' = None)"
proof -
  note f = flow_init_call [OF assms]
  have m: "body_field r ''stepMarkersSec'' \<noteq> None \<longleftrightarrow> markers \<noteq> []"
    using f by simp
  have d: "body_field r ''durationSec'' \<noteq> None \<longleftrightarrow> (\<exists>d. duration = Some d \<and> \<not> isNaN d \<and> d \<noteq> Num 0)"
    using f by (cases duration) auto
  have e: "body_field r ''stepMarkersSec'' \<noteq> Some (JArray [])"
    using f by (cases markers) simp_all
  have z: "duration = Some (Num 0) \<longrightarrow> body_field r ''durationSec'' = None"
    using f by simp
  from m d e z show ?thesis by blast
qed

lemmas eval_flow =
  startUploadFlow_def example_env_def example_settings_def fresh_screen_def accepts_https_def
  json_response_def empty_response_def initRecording_def markUploadComplete_def parseJson_def
  response_ok_def field_def z_string_url_def z_optional_def issues_of_def
  last_segment_def catch_block_def upload_params_def handleCancel_def abort_controller_def
  uploadVideo_def outcome_def onload_def onerror_def onabort_def rejectOnce_def onprogress_def
  on_signal_abort_def xhr_abort_def Let_def

theorem init_request_optional_fields_witness:
  "InitCall (initRecording_request example_settings (init_payload example_settings ''v.mp4'' 1000 (Some (Num 0)) []))
     \<in> set (snd (startUploadFlow example_settings accepts_https (example_env [Xhr (Load 200)])
                   ''file:///clips/v.mp4'' (Some (Num 0)) [] fresh_screen))
   \<and> body_field (initRecording_request example_settings (init_payload example_settings ''v.mp4'' 1000 (Some (Num 0)) []))
        ''stepMarkersSec'' = None
   \<and> body_field (initRecording_request example_settings (init_payload example_settings ''v.mp4'' 1000 (Some (Num 0)) []))
        ''durationSec'' = None
   \<and> InitCall (initRecording_request example_settings
                 (init_payload example_settings ''v.mp4'' 1000 (Some (Num (25 / 2))) [Num 3, Num 8]))
     \<in> set (snd (startUploadFlow example_settings accepts_https (example_env [Xhr (Load 200)])
                   ''file:///clips/v.mp4'' (Some (Num (25 / 2))) [Num 3, Num 8] fresh_screen))
   \<and> body_field (initRecording_request example_settings
                   (init_payload example_settings ''v.mp4'' 1000 (Some (Num (25 / 2))) [Num 3, Num 8]))
        ''stepMarkersSec'' \<noteq> None
   \<and> body_field (initRecording_request example_settings
                   (init_payload example_settings ''v.mp4'' 1000 (Some (Num (25 / 2))) [Num 3, Num 8]))
        ''durationSec'' \<noteq> None"
proof -
  have m1: "InitCall (initRecording_request example_settings (init_payload example_settings ''v.mp4'' 1000 (Some (Num 0)) []))
     \<in> set (snd (startUploadFlow example_settings accepts_https (example_env [Xhr (Load 200)])
                   ''file:///clips/v.mp4'' (Some (Num 0)) [] fresh_screen))"
    by (simp add: eval_flow)
  have m2: "InitCall (initRecording_request example_settings
                 (init_payload example_settings ''v.mp4'' 1000 (Some (Num (25 / 2))) [Num 3, Num 8]))
     \<in> set (snd (startUploadFlow example_settings accepts_https (example_env [Xhr (Load 200)])
                   ''file:///clips/v.mp4'' (Some (Num (25 / 2))) [Num 3, Num 8] fresh_screen))"
    by (simp add: eval_flow)
  show ?thesis
    using init_request_optional_fields [OF m1] init_request_optional_fields [OF m2] m1 m2
    by simp
qed

subsection \<open>Waiting for the transfer\<close>

lemma await_upload_settled: "settled x \<Longrightarrow> await_upload p x es = x"
  by (cases es) simp_all

lemma await_progress:
  assumes "onProgress p = Some (\<lambda>v ui. ui\<lparr>ui_progress := v\<rparr>)"
  shows "list_all is_progress pre \<Longrightarrow> \<not> settled x \<Longrightarrow>
         \<exists>v. await_upload p x (pre @ rest) = await_upload p (x\<lparr>sink := (sink x)\<lparr>ui_progress := v\<rparr>\<rparr>) rest"
proof (induction pre arbitrary: x)
  case Nil
  have "x\<lparr>sink := (sink x)\<lparr>ui_progress := ui_progress (sink x)\<rparr>\<rparr> = x" by simp
  then show ?case by (metis append_Nil)
next
  case (Cons e pre)
  from Cons.prems obtain lc l t where e: "e = Xhr (UploadProgress lc l t)"
    by (cases e rule: is_progress.cases) simp_all
  obtain w where step: "dispatch p x (UploadProgress lc l t) = x\<lparr>sink := (sink x)\<lparr>ui_progress := w\<rparr>\<rparr>"
  proof (cases lc)
    case True
    then show ?thesis using that assms by (simp add: onprogress_def Let_def)
  next
    case False
    then show ?thesis using that [of "ui_progress (sink x)"] assms by (simp add: onprogress_def)
  qed
  let ?x1 = "x\<lparr>sink := (sink x)\<lparr>ui_progress := w\<rparr>\<rparr>"
  have "\<not> settled ?x1" using Cons.prems by simp
  moreover have "list_all is_progress pre" using Cons.prems by simp
  ultimately obtain v where
    "await_upload p ?x1 (pre @ rest) = await_upload p (?x1\<lparr>sink := (sink ?x1)\<lparr>ui_progress := v\<rparr>\<rparr>) rest"
    using Cons.IH by blast
  moreover have "await_upload p x ((e # pre) @ rest) = await_upload p ?x1 (pre @ rest)"
    using Cons.prems e step by simp
  moreover have "?x1\<lparr>sink := (sink ?x1)\<lparr>ui_progress := v\<rparr>\<rparr> = x\<lparr>sink := (sink x)\<lparr>ui_progress := v\<rparr>\<rparr>"
    by simp
  ultimately show ?case by metis
qed

text \<open>An event that rejects a pending transfer of one caller rejects that of any caller
  who passed a signal, and leaves the caller's sink as it is.\<close>

lemma rejecting_event:
  assumes "outcome (transfer (recording_params u c) None [] [ev]) = Some (Rejected err)"
    and "\<not> settled x" and "settlements x = []" and "\<not> readyStateDone x" and "signal p"
  shows "dispatch p x ev = x\<lparr>settled := True, settlements := [Rejected err], readyStateDone := True\<rparr>"
  using assms
  by (cases ev)
     (auto simp: eval_transfer split: if_splits)

lemma await_reject:
  assumes cb: "onProgress p = Some (\<lambda>v ui. ui\<lparr>ui_progress := v\<rparr>)" and sg: "signal p"
    and pre: "list_all is_progress pre"
    and ev: "outcome (transfer (recording_params u c) None [] [ev]) = Some (Rejected err)"
  shows "\<exists>v. await_upload p (uploadVideo p None ui1) (pre @ Xhr ev # post)
              = (uploadVideo p None ui1)\<lparr>settled := True, settlements := [Rejected err],
                   readyStateDone := True, sink := ui1\<lparr>ui_progress := v\<rparr>\<rparr>"
proof -
  let ?x0 = "uploadVideo p None ui1"
  have x0: "\<not> settled ?x0" "settlements ?x0 = []" "\<not> readyStateDone ?x0" "sink ?x0 = ui1"
    by (simp_all add: uploadVideo_def)
  from await_progress [OF cb pre x0(1)] obtain v where
    a: "await_upload p ?x0 (pre @ Xhr ev # post)
          = await_upload p (?x0\<lparr>sink := (sink ?x0)\<lparr>ui_progress := v\<rparr>\<rparr>) (Xhr ev # post)"
    by blast
  let ?x1 = "?x0\<lparr>sink := ui1\<lparr>ui_progress := v\<rparr>\<rparr>"
  have d: "dispatch p ?x1 ev = ?x1\<lparr>settled := True, settlements := [Rejected err], readyStateDone := True\<rparr>"
    using ev by (rule rejecting_event) (simp_all add: x0 sg)
  have "await_upload p ?x1 (Xhr ev # post) = dispatch p ?x1 ev"
    using d by (simp add: x0 await_upload_settled)
  with a d x0 show ?thesis by (intro exI [of _ v]) simp
qed

lemma await_cancel:
  assumes cb: "onProgress p = Some (\<lambda>v ui. ui\<lparr>ui_progress := v\<rparr>)" and sg: "signal p"
    and pre: "list_all is_progress pre"
    and up: "ui_state ui1 = StUploading" and ab: "abortRef ui1"
  shows "\<exists>v. await_upload p (uploadVideo p None ui1) (pre @ CancelPressed # post)
              = (uploadVideo p None ui1)\<lparr>settled := True,
                   settlements := [Rejected (DOMException ''Upload aborted'' ''AbortError'')],
                   readyStateDone := True,
                   sink := ui1\<lparr>ui_progress := v, ui_error := Some (Plain ''Upload cancelled.''), ui_state := StError\<rparr>\<rparr>"
proof -
  let ?x0 = "uploadVideo p None ui1"
  have x0: "\<not> settled ?x0" "settlements ?x0 = []" "\<not> readyStateDone ?x0" "sink ?x0 = ui1"
    by (simp_all add: uploadVideo_def)
  from await_progress [OF cb pre x0(1)] obtain v where
    a: "await_upload p ?x0 (pre @ CancelPressed # post)
          = await_upload p (?x0\<lparr>sink := (sink ?x0)\<lparr>ui_progress := v\<rparr>\<rparr>) (CancelPressed # post)"
    by blast
  let ?x1 = "?x0\<lparr>sink := ui1\<lparr>ui_progress := v\<rparr>\<rparr>"
  have h: "handleCancel p ?x1 = ?x1\<lparr>settled := True,
                   settlements := [Rejected (DOMException ''Upload aborted'' ''AbortError'')],
                   readyStateDone := True,
                   sink := ui1\<lparr>ui_progress := v, ui_error := Some (Plain ''Upload cancelled.''), ui_state := StError\<rparr>\<rparr>"
    using sg ab x0
    by (simp add: handleCancel_def abort_controller_def on_signal_abort_def xhr_abort_def onabort_def
          rejectOnce_def Let_def)
  have "await_upload p ?x1 (CancelPressed # post) = handleCancel p ?x1"
    using h up by (simp add: x0 await_upload_settled)
  with a h x0 show ?thesis by (intro exI [of _ v]) simp
qed

subsection \<open>The flow after a successful init\<close>

lemma flow_after_init:
  assumes "videoUri \<noteq> []" and "getInfo env = Inr info" and "file_exists info"
    and "truthy_size (file_size info)" and "initRecording isUrl (initFetch env) = Inr resp"
  shows "startUploadFlow S isUrl env videoUri duration markers ui =
     (let x = awaited_transfer S env videoUri resp ui;
          initCall = InitCall (initRecording_request S
                       (init_payload S (flow_fileName videoUri) (size_value (file_size info)) duration markers));
          uploadCall = UploadCall (uploadUrl resp) (requestHeaders x)
      in case outcome x of
           None \<Rightarrow> (sink x, [initCall, uploadCall])
         | Some (Rejected err) \<Rightarrow> (catch_block (sink x) err, [initCall, uploadCall])
         | Some Resolved \<Rightarrow>
             (case markUploadComplete (completeFetch env) of
                Inl err \<Rightarrow> (catch_block ((sink x)\<lparr>ui_state := StNotifying\<rparr>) err,
                             [initCall, uploadCall, CompleteCall (markUploadComplete_request S (recordingId resp))])
              | Inr u \<Rightarrow> ((sink x)\<lparr>ui_state := StNotifying, ui_state := StDone, route := Some (recordingId resp)\<rparr>,
                           [initCall, uploadCall, CompleteCall (markUploadComplete_request S (recordingId resp))])))"
  using assms
  by (simp add: startUploadFlow_def awaited_transfer_def flow_fileName_def Let_def upload_params_def
        split: option.splits upload_outcome.splits sum.splits)

lemma flow_transfer_rejected:
  assumes "videoUri \<noteq> []" and "getInfo env = Inr info" and "file_exists info"
    and "truthy_size (file_size info)" and "initRecording isUrl (initFetch env) = Inr resp"
    and "outcome (awaited_transfer S env videoUri resp ui) = Some (Rejected err)"
  shows "map call_step (snd (startUploadFlow S isUrl env videoUri duration markers ui)) = [InitStep, UploadStep]
         \<and> ui_state (fst (startUploadFlow S isUrl env videoUri duration markers ui)) = StError
         \<and> ui_error (fst (startUploadFlow S isUrl env videoUri duration markers ui))
             = Some (if instanceof_Error err then exn_message err else Plain ''Upload failed.'')"
  unfolding flow_after_init [OF assms(1-5)] using assms(6)
  by (simp add: Let_def catch_block_def)

lemma flow_transfer_pending:
  assumes "videoUri \<noteq> []" and "getInfo env = Inr info" and "file_exists info"
    and "truthy_size (file_size info)" and "initRecording isUrl (initFetch env) = Inr resp"
    and "outcome (awaited_transfer S env videoUri resp ui) = None"
  shows "map call_step (snd (startUploadFlow S isUrl env videoUri duration markers ui)) = [InitStep, UploadStep]"
  unfolding flow_after_init [OF assms(1-5)] using assms(6)
  by (simp add: Let_def)

lemma completion_needs_success:
  assumes "list_ex is_complete_call (snd (startUploadFlow S isUrl env videoUri duration markers ui))"
  shows "\<exists>info resp. videoUri \<noteq> [] \<and> getInfo env = Inr info \<and> file_exists info \<and> truthy_size (file_size info)
           \<and> initRecording isUrl (initFetch env) = Inr resp
           \<and> outcome (awaited_transfer S env videoUri resp ui) = Some Resolved"
proof -
  have uri: "videoUri \<noteq> []" using assms by (auto simp: startUploadFlow_def)
  obtain info where info: "getInfo env = Inr info"
    using assms uri by (cases "getInfo env") (auto simp: startUploadFlow_def Let_def)
  have ok: "file_exists info" "truthy_size (file_size info)"
    using assms uri info by (auto simp: startUploadFlow_def Let_def split: if_splits)
  obtain resp where resp: "initRecording isUrl (initFetch env) = Inr resp"
    using assms uri info ok by (cases "initRecording isUrl (initFetch env)") (auto simp: startUploadFlow_def Let_def)
  have "outcome (awaited_transfer S env videoUri resp ui) = Some Resolved"
    using assms unfolding flow_after_init [OF uri info ok resp]
    by (auto simp: Let_def split: option.splits upload_outcome.splits sum.splits)
  with uri info ok resp show ?thesis by blast
qed

lemma awaited_send_throw:
  "sendThrows env = Some thrown \<Longrightarrow> outcome (awaited_transfer S env videoUri resp ui) = Some (Rejected thrown)"
  by (simp add: awaited_transfer_def Let_def uploadVideo_def rejectOnce_def await_upload_settled outcome_def)

lemma await_unmount:
  assumes cb: "onProgress p = Some (\<lambda>v ui. ui\<lparr>ui_progress := v\<rparr>)" and sg: "signal p"
    and pre: "list_all is_progress pre" and ab: "abortRef ui1"
  shows "\<exists>v. await_upload p (uploadVideo p None ui1) (pre @ Unmounted # post)
              = (uploadVideo p None ui1)\<lparr>settled := True,
                   settlements := [Rejected (DOMException ''Upload aborted'' ''AbortError'')],
                   readyStateDone := True, sink := ui1\<lparr>ui_progress := v\<rparr>\<rparr>"
proof -
  let ?x0 = "uploadVideo p None ui1"
  have x0: "\<not> settled ?x0" "settlements ?x0 = []" "\<not> readyStateDone ?x0" "sink ?x0 = ui1"
    by (simp_all add: uploadVideo_def)
  from await_progress [OF cb pre x0(1)] obtain v where
    a: "await_upload p ?x0 (pre @ Unmounted # post)
          = await_upload p (?x0\<lparr>sink := (sink ?x0)\<lparr>ui_progress := v\<rparr>\<rparr>) (Unmounted # post)"
    by blast
  let ?x1 = "?x0\<lparr>sink := ui1\<lparr>ui_progress := v\<rparr>\<rparr>"
  have h: "abort_controller p ?x1 = ?x1\<lparr>settled := True,
                   settlements := [Rejected (DOMException ''Upload aborted'' ''AbortError'')],
                   readyStateDone := True\<rparr>"
    using sg ab x0
    by (simp add: abort_controller_def on_signal_abort_def xhr_abort_def onabort_def rejectOnce_def)
  have "await_upload p ?x1 (Unmounted # post) = abort_controller p ?x1"
    using h by (simp add: x0 await_upload_settled)
  with a h x0 show ?thesis by (intro exI [of _ v]) simp
qed

text \<open>What the awaited transfer comes to when its first event that is not a progress
  event rejects it, is a press on the cancel button, or is the unmounting of the screen.\<close>

lemma awaited_rejecting_event:
  assumes "sendThrows env = None" and "uploadEvents env = pre @ Xhr ev # post"
    and "list_all is_progress pre"
    and "outcome (transfer (recording_params u c) None [] [ev]) = Some (Rejected err)"
  shows "outcome (awaited_transfer S env videoUri resp ui) = Some (Rejected err)"
proof -
  let ?p = "upload_params S videoUri (flow_fileName videoUri) resp"
  let ?ui1 = "ui\<lparr>ui_error := None, ui_progress := 0, ui_state := StInit,
                 ui_recordingId := Some (recordingId resp), ui_state := StUploading, abortRef := True\<rparr>"
  have cb: "onProgress ?p = Some (\<lambda>v ui. ui\<lparr>ui_progress := v\<rparr>)" and sg: "signal ?p"
    by (simp_all add: upload_params_def)
  from await_reject [OF cb sg assms(3) assms(4), of ?ui1 post] obtain v where
    "await_upload ?p (uploadVideo ?p None ?ui1) (pre @ Xhr ev # post)
          = (uploadVideo ?p None ?ui1)\<lparr>settled := True, settlements := [Rejected err],
               readyStateDone := True, sink := ?ui1\<lparr>ui_progress := v\<rparr>\<rparr>"
    by blast
  then show ?thesis using assms(1,2) by (simp add: awaited_transfer_def Let_def outcome_def)
qed

lemma awaited_cancel:
  assumes "sendThrows env = None" and "uploadEvents env = pre @ CancelPressed # post"
    and "list_all is_progress pre"
  shows "outcome (awaited_transfer S env videoUri resp ui)
           = Some (Rejected (DOMException ''Upload aborted'' ''AbortError''))"
proof -
  let ?p = "upload_params S videoUri (flow_fileName videoUri) resp"
  let ?ui1 = "ui\<lparr>ui_error := None, ui_progress := 0, ui_state := StInit,
                 ui_recordingId := Some (recordingId resp), ui_state := StUploading, abortRef := True\<rparr>"
  have cb: "onProgress ?p = Some (\<lambda>v ui. ui\<lparr>ui_progress := v\<rparr>)" and sg: "signal ?p"
    by (simp_all add: upload_params_def)
  have up: "ui_state ?ui1 = StUploading" and ab: "abortRef ?ui1" by simp_all
  from await_cancel [OF cb sg assms(3) up ab, of post] obtain v where
    "await_upload ?p (uploadVideo ?p None ?ui1) (pre @ CancelPressed # post)
          = (uploadVideo ?p None ?ui1)\<lparr>settled := True,
               settlements := [Rejected (DOMException ''Upload aborted'' ''AbortError'')],
               readyStateDone := True,
               sink := ?ui1\<lparr>ui_progress := v, ui_error := Some (Plain ''Upload cancelled.''), ui_state := StError\<rparr>\<rparr>"
    by blast
  then show ?thesis using assms(1,2) by (simp add: awaited_transfer_def Let_def outcome_def)
qed

lemma awaited_unmount:
  assumes "sendThrows env = None" and "uploadEvents env = pre @ Unmounted # post"
    and "list_all is_progress pre"
  shows "outcome (awaited_transfer S env videoUri resp ui)
           = Some (Rejected (DOMException ''Upload aborted'' ''AbortError''))"
proof -
  let ?p = "upload_params S videoUri (flow_fileName videoUri) resp"
  let ?ui1 = "ui\<lparr>ui_error := None, ui_progress := 0, ui_state := StInit,
                 ui_recordingId := Some (recordingId resp), ui_state := StUploading, abortRef := True\<rparr>"
  have cb: "onProgress ?p = Some (\<lambda>v ui. ui\<lparr>ui_progress := v\<rparr>)" and sg: "signal ?p"
    by (simp_all add: upload_params_def)
  have ab: "abortRef ?ui1" by simp
  from await_unmount [OF cb sg assms(3) ab, of post] obtain v where
    "await_upload ?p (uploadVideo ?p None ?ui1) (pre @ Unmounted # post)
          = (uploadVideo ?p None ?ui1)\<lparr>settled := True,
               settlements := [Rejected (DOMException ''Upload aborted'' ''AbortError'')],
               readyStateDone := True, sink := ?ui1\<lparr>ui_progress := v\<rparr>\<rparr>"
    by blast
  then show ?thesis using assms(1,2) by (simp add: awaited_transfer_def Let_def outcome_def)
qed

lemma no_complete_call:
  "map call_step calls = [InitStep, UploadStep] \<Longrightarrow> \<not> list_ex is_complete_call calls"
proof -
  assume m: "map call_step calls = [InitStep, UploadStep]"
  have "\<forall>cl \<in> set calls. call_step cl \<noteq> CompleteStep"
  proof
    fix cl assume "cl \<in> set calls"
    then have "call_step cl \<in> set (map call_step calls)" by simp
    with m show "call_step cl \<noteq> CompleteStep" by auto
  qed
  then show ?thesis by (auto simp: list_ex_iff elim!: is_complete_call.elims)
qed

subsection \<open>C1: init, transfer and completion, once each and in this order\<close>

lemma flow_steps:
  "prefix (map call_step (snd (startUploadFlow S isUrl env videoUri duration markers ui)))
     [InitStep, UploadStep, CompleteStep]"
  unfolding startUploadFlow_def Let_def
  by (simp split: if_splits sum.splits option.splits upload_outcome.splits)

lemma transport_rejection_is_Error:
  "outcome (transfer (recording_params u c) None [] [ev]) = Some (Rejected err) \<Longrightarrow> instanceof_Error err"
  by (cases ev) (auto simp: eval_transfer split: if_splits)

lemma flow_rejected:
  assumes "videoUri \<noteq> []" and "getInfo env = Inr info" and "file_exists info"
    and "truthy_size (file_size info)" and "initRecording isUrl (initFetch env) = Inr resp"
    and "sendThrows env = None" and "uploadEvents env = pre @ Xhr ev # post"
    and "list_all is_progress pre"
    and "outcome (transfer (recording_params u c) None [] [ev]) = Some (Rejected err)"
  shows "map call_step (snd (startUploadFlow S isUrl env videoUri duration markers ui)) = [InitStep, UploadStep]
         \<and> ui_state (fst (startUploadFlow S isUrl env videoUri duration markers ui)) = StError
         \<and> ui_error (fst (startUploadFlow S isUrl env videoUri duration markers ui)) = Some (exn_message err)"
proof -
  let ?name = "if last_segment videoUri \<noteq> [] then last_segment videoUri else ''recording.mp4''"
  let ?p = "upload_params S videoUri ?name resp"
  let ?ui1 = "ui\<lparr>ui_error := None, ui_progress := 0, ui_state := StInit,
                 ui_recordingId := Some (recordingId resp), ui_state := StUploading, abortRef := True\<rparr>"
  have cb: "onProgress ?p = Some (\<lambda>v ui. ui\<lparr>ui_progress := v\<rparr>)" and sg: "signal ?p"
    by (simp_all add: upload_params_def)
  from await_reject [OF cb sg assms(8) assms(9), of ?ui1 post] obtain v where
    a: "await_upload ?p (uploadVideo ?p None ?ui1) (pre @ Xhr ev # post)
          = (uploadVideo ?p None ?ui1)\<lparr>settled := True, settlements := [Rejected err],
               readyStateDone := True, sink := ?ui1\<lparr>ui_progress := v\<rparr>\<rparr>"
    by blast
  have ie: "instanceof_Error err" using assms(9) by (rule transport_rejection_is_Error)
  show ?thesis
    unfolding startUploadFlow_def Let_def
    using assms(1-7) a ie by (simp add: outcome_def catch_block_def)
qed

text \<open>
  C1. In every run of \<open>startUploadFlow\<close> the network calls are an initial part of: the
  init request, the transfer, the completion request. So each is made at most once, and
  in this order. A completion request is made only in a run whose init succeeded and
  whose transfer resolved. When the transfer is rejected, for whatever reason (its first
  event that is not a progress event rejects it, as a response with status 500 does, or
  \<open>send\<close> throws), the run has made the init request and the transfer and nothing else,
  no completion request; it ends in the state \<open>error\<close> with the message of the
  rejection.
\<close>

theorem upload_flow_order:
  "prefix (map call_step (snd (startUploadFlow S isUrl env videoUri duration markers ui)))
     [InitStep, UploadStep, CompleteStep]
   \<and> (videoUri \<noteq> [] \<and> getInfo env = Inr info \<and> file_exists info \<and> truthy_size (file_size info)
        \<and> initRecording isUrl (initFetch env) = Inr resp \<and> sendThrows env = None
        \<and> uploadEvents env = pre @ Xhr ev # post \<and> list_all is_progress pre
        \<and> outcome (transfer (recording_params u c) None [] [ev]) = Some (Rejected err)
       \<longrightarrow>
         map call_step (snd (startUploadFlow S isUrl env videoUri duration markers ui)) = [InitStep, UploadStep]
         \<and> \<not> list_ex is_complete_call (snd (startUploadFlow S isUrl env videoUri duration markers ui))
         \<and> ui_state (fst (startUploadFlow S isUrl env videoUri duration markers ui)) = StError
         \<and> ui_error (fst (startUploadFlow S isUrl env videoUri duration markers ui)) = Some (exn_message err))
   \<and> (list_ex is_complete_call (snd (startUploadFlow S isUrl env videoUri duration markers ui)) \<longrightarrow>
        (\<exists>info resp. videoUri \<noteq> [] \<and> getInfo env = Inr info \<and> file_exists info
            \<and> truthy_size (file_size info) \<and> initRecording isUrl (initFetch env) = Inr resp
            \<and> outcome (awaited_transfer S env videoUri resp ui) = Some Resolved))
   \<and> (videoUri \<noteq> [] \<and> getInfo env = Inr info \<and> file_exists info \<and> truthy_size (file_size info)
        \<and> initRecording isUrl (initFetch env) = Inr resp
        \<and> outcome (awaited_transfer S env videoUri resp ui) = Some (Rejected failure)
       \<longrightarrow>
         map call_step (snd (startUploadFlow S isUrl env videoUri duration markers ui)) = [InitStep, UploadStep]
         \<and> \<not> list_ex is_complete_call (snd (startUploadFlow S isUrl env videoUri duration markers ui))
         \<and> ui_state (fst (startUploadFlow S isUrl env videoUri duration markers ui)) = StError
         \<and> ui_error (fst (startUploadFlow S isUrl env videoUri duration markers ui))
             = Some (if instanceof_Error failure then exn_message failure else Plain ''Upload failed.''))
   \<and> (sendThrows env = Some thrown \<longrightarrow>
        outcome (awaited_transfer S env videoUri resp ui) = Some (Rejected thrown))"
proof (intro conjI impI)
  assume "list_ex is_complete_call (snd (startUploadFlow S isUrl env videoUri duration markers ui))"
  then show "\<exists>info resp. videoUri \<noteq> [] \<and> getInfo env = Inr info \<and> file_exists info
            \<and> truthy_size (file_size info) \<and> initRecording isUrl (initFetch env) = Inr resp
            \<and> outcome (awaited_transfer S env videoUri resp ui) = Some Resolved"
    by (rule completion_needs_success)
next
  assume "sendThrows env = Some thrown"
  then show "outcome (awaited_transfer S env videoUri resp ui) = Some (Rejected thrown)"
    by (rule awaited_send_throw)
next
  assume h: "videoUri \<noteq> [] \<and> getInfo env = Inr info \<and> file_exists info \<and> truthy_size (file_size info)
        \<and> initRecording isUrl (initFetch env) = Inr resp
        \<and> outcome (awaited_transfer S env videoUri resp ui) = Some (Rejected failure)"
  let ?run = "startUploadFlow S isUrl env videoUri duration markers ui"
  from h have h1: "videoUri \<noteq> []" and h2: "getInfo env = Inr info" and h3: "file_exists info"
    and h4: "truthy_size (file_size info)" and h5: "initRecording isUrl (initFetch env) = Inr resp"
    and h6: "outcome (awaited_transfer S env videoUri resp ui) = Some (Rejected failure)"
    by simp_all
  note r = flow_transfer_rejected [OF h1 h2 h3 h4 h5 h6, of duration markers]
  from r show "map call_step (snd ?run) = [InitStep, UploadStep]" and "ui_state (fst ?run) = StError"
    and "ui_error (fst ?run) = Some (if instanceof_Error failure then exn_message failure else Plain ''Upload failed.'')"
    by simp_all
  from r show "\<not> list_ex is_complete_call (snd ?run)" by (simp add: no_complete_call)
next
  show "prefix (map call_step (snd (startUploadFlow S isUrl env videoUri duration markers ui)))
          [InitStep, UploadStep, CompleteStep]"
    by (rule flow_steps)
next
  assume h: "videoUri \<noteq> [] \<and> getInfo env = Inr info \<and> file_exists info \<and> truthy_size (file_size info)
        \<and> initRecording isUrl (initFetch env) = Inr resp \<and> sendThrows env = None
        \<and> uploadEvents env = pre @ Xhr ev # post \<and> list_all is_progress pre
        \<and> outcome (transfer (recording_params u c) None [] [ev]) = Some (Rejected err)"
  let ?run = "startUploadFlow S isUrl env videoUri duration markers ui"
  from h have h1: "videoUri \<noteq> []" and h2: "getInfo env = Inr info" and h3: "file_exists info"
    and h4: "truthy_size (file_size info)" and h5: "initRecording isUrl (initFetch env) = Inr resp"
    and h6: "sendThrows env = None" and h7: "uploadEvents env = pre @ Xhr ev # post"
    and h8: "list_all is_progress pre"
    and h9: "outcome (transfer (recording_params u c) None [] [ev]) = Some (Rejected err)"
    by simp_all
  have r: "map call_step (snd ?run) = [InitStep, UploadStep] \<and> ui_state (fst ?run) = StError
           \<and> ui_error (fst ?run) = Some (exn_message err)"
    by (rule flow_rejected [OF h1 h2 h3 h4 h5 h6 h7 h8 h9])
  then show "map call_step (snd ?run) = [InitStep, UploadStep]"
    and "ui_state (fst ?run) = StError" and "ui_error (fst ?run) = Some (exn_message err)"
    by simp_all
  have "\<forall>cl \<in> set (snd ?run). call_step cl \<noteq> CompleteStep"
  proof
    fix cl assume "cl \<in> set (snd ?run)"
    then have "call_step cl \<in> set (map call_step (snd ?run))" by simp
    with r show "call_step cl \<noteq> CompleteStep" by auto
  qed
  then show "\<not> list_ex is_complete_call (snd ?run)"
    by (auto simp: list_ex_iff elim!: is_complete_call.elims)
qed

theorem upload_flow_order_witness:
  "''file:///clips/v.mp4'' \<noteq> []
   \<and> getInfo (example_env [Xhr (UploadProgress True 30 100), Xhr (Load 500)])
       = Inr \<lparr>file_exists = True, file_size = Some 1000\<rparr>
   \<and> file_exists \<lparr>file_exists = True, file_size = Some 1000\<rparr>
   \<and> truthy_size (file_size \<lparr>file_exists = True, file_size = Some 1000\<rparr>)
   \<and> initRecording accepts_https (initFetch (example_env [Xhr (UploadProgress True 30 100), Xhr (Load 500)]))
       = Inr \<lparr>recordingId = ''r1'', uploadUrl = ''https://x/r1'', headers = None\<rparr>
   \<and> sendThrows (example_env [Xhr (UploadProgress True 30 100), Xhr (Load 500)]) = None
   \<and> uploadEvents (example_env [Xhr (UploadProgress True 30 100), Xhr (Load 500)])
       = [Xhr (UploadProgress True 30 100)] @ Xhr (Load 500) # []
   \<and> list_all is_progress [Xhr (UploadProgress True 30 100)]
   \<and> outcome (transfer (recording_params ''https://x/r1'' ''video/mp4'') None [] [Load 500])
       = Some (Rejected (Error ''Upload failed with status 500''))
   \<and> map call_step (snd (startUploadFlow example_settings accepts_https
                              (example_env [Xhr (UploadProgress True 30 100), Xhr (Load 500)])
                              ''file:///clips/v.mp4'' None [] fresh_screen))
       = [InitStep, UploadStep]
   \<and> ui_state (fst (startUploadFlow example_settings accepts_https
                        (example_env [Xhr (UploadProgress True 30 100), Xhr (Load 500)])
                        ''file:///clips/v.mp4'' None [] fresh_screen))
       = StError
   \<and> ui_error (fst (startUploadFlow example_settings accepts_https
                        (example_env [Xhr (UploadProgress True 30 100), Xhr (Load 500)])
                        ''file:///clips/v.mp4'' None [] fresh_screen))
       = Some (Plain ''Upload failed with status 500'')
   \<and> list_ex is_complete_call (snd (startUploadFlow example_settings accepts_https
                        (example_env [Xhr (Load 200)]) ''file:///clips/v.mp4'' None [] fresh_screen))
   \<and> outcome (awaited_transfer example_settings (example_env [Xhr (Load 200)]) ''file:///clips/v.mp4''
                 \<lparr>recordingId = ''r1'', uploadUrl = ''https://x/r1'', headers = None\<rparr> fresh_screen)
       = Some Resolved
   \<and> sendThrows ((example_env [Xhr (Load 200)])\<lparr>sendThrows := Some (TypeError ''Network request failed'')\<rparr>)
       = Some (TypeError ''Network request failed'')
   \<and> outcome (awaited_transfer example_settings
                 ((example_env [Xhr (Load 200)])\<lparr>sendThrows := Some (TypeError ''Network request failed'')\<rparr>)
                 ''file:///clips/v.mp4''
                 \<lparr>recordingId = ''r1'', uploadUrl = ''https://x/r1'', headers = None\<rparr> fresh_screen)
       = Some (Rejected (TypeError ''Network request failed''))
   \<and> map call_step (snd (startUploadFlow example_settings accepts_https
                 ((example_env [Xhr (Load 200)])\<lparr>sendThrows := Some (TypeError ''Network request failed'')\<rparr>)
                 ''file:///clips/v.mp4'' None [] fresh_screen))
       = [InitStep, UploadStep]
   \<and> ui_error (fst (startUploadFlow example_settings accepts_https
                 ((example_env [Xhr (Load 200)])\<lparr>sendThrows := Some (TypeError ''Network request failed'')\<rparr>)
                 ''file:///clips/v.mp4'' None [] fresh_screen))
       = Some (Plain ''Network request failed'')"
proof -
  let ?resp = "\<lparr>recordingId = ''r1'', uploadUrl = ''https://x/r1'', headers = None\<rparr>"
  let ?info = "\<lparr>file_exists = True, file_size = Some 1000\<rparr>"
  let ?thrown = "TypeError ''Network request failed''"
  let ?envt = "(example_env [Xhr (Load 200)])\<lparr>sendThrows := Some ?thrown\<rparr>"
  have i: "initRecording accepts_https (initFetch (example_env evs)) = Inr ?resp" for evs
    by (simp add: eval_flow)
  have it: "initRecording accepts_https (initFetch ?envt) = Inr ?resp"
    by (simp add: eval_flow)
  have t: "outcome (transfer (recording_params ''https://x/r1'' ''video/mp4'') None [] [Load 500])
       = Some (Rejected (Error ''Upload failed with status 500''))"
    by (simp add: eval_transfer show_nat.simps digit_char_def)
  have e: "getInfo (example_env evs) = Inr ?info" "sendThrows (example_env evs) = None"
    "uploadEvents (example_env evs) = evs" for evs
    by (simp_all add: example_env_def)
  have et: "getInfo ?envt = Inr ?info" "sendThrows ?envt = Some ?thrown"
    by (simp_all add: example_env_def)
  have c: "list_ex is_complete_call (snd (startUploadFlow example_settings accepts_https
                        (example_env [Xhr (Load 200)]) ''file:///clips/v.mp4'' None [] fresh_screen))"
    by (simp add: eval_flow)
  have inj: "Inr a = Inr b \<longleftrightarrow> a = b" for a b :: FileInfo by simp
  show ?thesis
    using upload_flow_order [of example_settings accepts_https
        "example_env [Xhr (UploadProgress True 30 100), Xhr (Load 500)]" "''file:///clips/v.mp4''"
        None "[]" fresh_screen ?info ?resp "[Xhr (UploadProgress True 30 100)]" "Load 500" "[]"
        "''https://x/r1''" "''video/mp4''" "Error ''Upload failed with status 500''" ?thrown ?thrown]
      upload_flow_order [of example_settings accepts_https "example_env [Xhr (Load 200)]"
        "''file:///clips/v.mp4''" None "[]" fresh_screen ?info ?resp "[]" "Load 500" "[]"
        "''https://x/r1''" "''video/mp4''" "Error ''Upload failed with status 500''" ?thrown ?thrown]
      upload_flow_order [of example_settings accepts_https ?envt
        "''file:///clips/v.mp4''" None "[]" fresh_screen ?info ?resp "[]" "Load 500" "[]"
        "''https://x/r1''" "''video/mp4''" "Error ''Upload failed with status 500''" ?thrown ?thrown]
      i it t e et c
    by simp
qed

subsection \<open>C2: cancelling during the transfer\<close>

lemma flow_cancelled:
  assumes "videoUri \<noteq> []" and "getInfo env = Inr info" and "file_exists info"
    and "truthy_size (file_size info)" and "initRecording isUrl (initFetch env) = Inr resp"
    and "sendThrows env = None" and "uploadEvents env = pre @ CancelPressed # post"
    and "list_all is_progress pre"
  shows "map call_step (snd (startUploadFlow S isUrl env videoUri duration markers ui)) = [InitStep, UploadStep]
         \<and> ui_state (fst (startUploadFlow S isUrl env videoUri duration markers ui)) = StError
         \<and> ui_error (fst (startUploadFlow S isUrl env videoUri duration markers ui)) = Some (Plain ''Upload aborted'')"
proof -
  let ?name = "if last_segment videoUri \<noteq> [] then last_segment videoUri else ''recording.mp4''"
  let ?p = "upload_params S videoUri ?name resp"
  let ?ui1 = "ui\<lparr>ui_error := None, ui_progress := 0, ui_state := StInit,
                 ui_recordingId := Some (recordingId resp), ui_state := StUploading, abortRef := True\<rparr>"
  have cb: "onProgress ?p = Some (\<lambda>v ui. ui\<lparr>ui_progress := v\<rparr>)" and sg: "signal ?p"
    by (simp_all add: upload_params_def)
  have up: "ui_state ?ui1 = StUploading" and ab: "abortRef ?ui1" by simp_all
  from await_cancel [OF cb sg assms(8) up ab, of post] obtain v where
    a: "await_upload ?p (uploadVideo ?p None ?ui1) (pre @ CancelPressed # post)
          = (uploadVideo ?p None ?ui1)\<lparr>settled := True,
               settlements := [Rejected (DOMException ''Upload aborted'' ''AbortError'')],
               readyStateDone := True,
               sink := ?ui1\<lparr>ui_progress := v, ui_error := Some (Plain ''Upload cancelled.''), ui_state := StError\<rparr>\<rparr>"
    by blast
  show ?thesis
    unfolding startUploadFlow_def Let_def
    using assms(1-7) a by (simp add: outcome_def catch_block_def)
qed

text \<open>
  C2 (as the code has it). When the signal is raised while the transfer is pending, the
  transfer is rejected with the \<open>AbortError\<close> exception, which is none of the errors that
  a status or a transport failure gives. The screen raises the signal in two places: when
  the cancel button is pressed, and when the screen is unmounted. In both cases, during
  the transfer, the awaited transfer is rejected with that exception, the run makes no
  completion request, and it ends in the state \<open>error\<close>: the screen has no state of its
  own for a cancelled run.
\<close>

theorem cancel_during_upload:
  "(outcome (transfer p thr s0 evs) = None \<and> signal p \<longrightarrow>
      outcome (transfer p thr s0 (evs @ SignalAbort # later))
        = Some (Rejected (DOMException ''Upload aborted'' ''AbortError'')))
   \<and> DOMException ''Upload aborted'' ''AbortError'' \<noteq> Error m
   \<and> (videoUri \<noteq> [] \<and> getInfo env = Inr info \<and> file_exists info \<and> truthy_size (file_size info)
        \<and> initRecording isUrl (initFetch env) = Inr resp \<and> sendThrows env = None
        \<and> uploadEvents env = pre @ CancelPressed # post \<and> list_all is_progress pre
       \<longrightarrow>
         map call_step (snd (startUploadFlow S isUrl env videoUri duration markers ui)) = [InitStep, UploadStep]
         \<and> \<not> list_ex is_complete_call (snd (startUploadFlow S isUrl env videoUri duration markers ui))
         \<and> ui_state (fst (startUploadFlow S isUrl env videoUri duration markers ui)) = StError)
   \<and> (videoUri \<noteq> [] \<and> getInfo env = Inr info \<and> file_exists info \<and> truthy_size (file_size info)
        \<and> initRecording isUrl (initFetch env) = Inr resp \<and> sendThrows env = None
        \<and> uploadEvents env = pre @ Unmounted # post \<and> list_all is_progress pre
       \<longrightarrow>
         map call_step (snd (startUploadFlow S isUrl env videoUri duration markers ui)) = [InitStep, UploadStep]
         \<and> \<not> list_ex is_complete_call (snd (startUploadFlow S isUrl env videoUri duration markers ui))
         \<and> ui_state (fst (startUploadFlow S isUrl env videoUri duration markers ui)) = StError)
   \<and> (sendThrows env = None \<and> list_all is_progress pre
        \<and> (uploadEvents env = pre @ CancelPressed # post \<or> uploadEvents env = pre @ Unmounted # post)
       \<longrightarrow>
         outcome (awaited_transfer S env videoUri resp ui)
           = Some (Rejected (DOMException ''Upload aborted'' ''AbortError'')))"
proof (intro conjI impI)
  assume "outcome (transfer p thr s0 evs) = None \<and> signal p"
  then show "outcome (transfer p thr s0 (evs @ SignalAbort # later))
        = Some (Rejected (DOMException ''Upload aborted'' ''AbortError''))"
    using pending_signal_abort [of p thr s0 evs later] by simp
next
  show "DOMException ''Upload aborted'' ''AbortError'' \<noteq> Error m" by simp
next
  assume h: "videoUri \<noteq> [] \<and> getInfo env = Inr info \<and> file_exists info \<and> truthy_size (file_size info)
        \<and> initRecording isUrl (initFetch env) = Inr resp \<and> sendThrows env = None
        \<and> uploadEvents env = pre @ CancelPressed # post \<and> list_all is_progress pre"
  let ?run = "startUploadFlow S isUrl env videoUri duration markers ui"
  from h have h1: "videoUri \<noteq> []" and h2: "getInfo env = Inr info" and h3: "file_exists info"
    and h4: "truthy_size (file_size info)" and h5: "initRecording isUrl (initFetch env) = Inr resp"
    and h6: "sendThrows env = None" and h7: "uploadEvents env = pre @ CancelPressed # post"
    and h8: "list_all is_progress pre"
    by simp_all
  note r = flow_cancelled [OF h1 h2 h3 h4 h5 h6 h7 h8, of S duration markers ui]
  from r show "map call_step (snd ?run) = [InitStep, UploadStep]" and "ui_state (fst ?run) = StError"
    by simp_all
  from r show "\<not> list_ex is_complete_call (snd ?run)" by (simp add: no_complete_call)
next
  assume h: "videoUri \<noteq> [] \<and> getInfo env = Inr info \<and> file_exists info \<and> truthy_size (file_size info)
        \<and> initRecording isUrl (initFetch env) = Inr resp \<and> sendThrows env = None
        \<and> uploadEvents env = pre @ Unmounted # post \<and> list_all is_progress pre"
  let ?run = "startUploadFlow S isUrl env videoUri duration markers ui"
  from h have h1: "videoUri \<noteq> []" and h2: "getInfo env = Inr info" and h3: "file_exists info"
    and h4: "truthy_size (file_size info)" and h5: "initRecording isUrl (initFetch env) = Inr resp"
    and h6: "sendThrows env = None" and h7: "uploadEvents env = pre @ Unmounted # post"
    and h8: "list_all is_progress pre"
    by simp_all
  have o: "outcome (awaited_transfer S env videoUri resp ui)
             = Some (Rejected (DOMException ''Upload aborted'' ''AbortError''))"
    by (rule awaited_unmount [OF h6 h7 h8])
  note r = flow_transfer_rejected [OF h1 h2 h3 h4 h5 o, of duration markers]
  from r show "map call_step (snd ?run) = [InitStep, UploadStep]" and "ui_state (fst ?run) = StError"
    by simp_all
  from r show "\<not> list_ex is_complete_call (snd ?run)" by (simp add: no_complete_call)
next
  assume h: "sendThrows env = None \<and> list_all is_progress pre
        \<and> (uploadEvents env = pre @ CancelPressed # post \<or> uploadEvents env = pre @ Unmounted # post)"
  then have h6: "sendThrows env = None" and h8: "list_all is_progress pre" by simp_all
  from h consider "uploadEvents env = pre @ CancelPressed # post" | "uploadEvents env = pre @ Unmounted # post"
    by blast
  then show "outcome (awaited_transfer S env videoUri resp ui)
           = Some (Rejected (DOMException ''Upload aborted'' ''AbortError''))"
  proof cases
    case 1
    then show ?thesis by (rule awaited_cancel [OF h6 _ h8])
  next
    case 2
    then show ?thesis by (rule awaited_unmount [OF h6 _ h8])
  qed
qed

theorem cancel_during_upload_witness:
  "outcome (transfer (recording_params ''https://x/r1'' ''video/mp4'') None [] [UploadProgress True 30 100]) = None
   \<and> signal (recording_params ''https://x/r1'' ''video/mp4'')
   \<and> outcome (transfer (recording_params ''https://x/r1'' ''video/mp4'') None []
                ([UploadProgress True 30 100] @ SignalAbort # [Load 200]))
       = Some (Rejected (DOMException ''Upload aborted'' ''AbortError''))
   \<and> ''file:///clips/v.mp4'' \<noteq> []
   \<and> getInfo (example_env [Xhr (UploadProgress True 30 100), CancelPressed, Xhr (Load 200)])
       = Inr \<lparr>file_exists = True, file_size = Some 1000\<rparr>
   \<and> file_exists \<lparr>file_exists = True, file_size = Some 1000\<rparr>
   \<and> truthy_size (file_size \<lparr>file_exists = True, file_size = Some 1000\<rparr>)
   \<and> initRecording accepts_https
        (initFetch (example_env [Xhr (UploadProgress True 30 100), CancelPressed, Xhr (Load 200)]))
       = Inr \<lparr>recordingId = ''r1'', uploadUrl = ''https://x/r1'', headers = None\<rparr>
   \<and> sendThrows (example_env [Xhr (UploadProgress True 30 100), CancelPressed, Xhr (Load 200)]) = None
   \<and> uploadEvents (example_env [Xhr (UploadProgress True 30 100), CancelPressed, Xhr (Load 200)])
       = [Xhr (UploadProgress True 30 100)] @ CancelPressed # [Xhr (Load 200)]
   \<and> list_all is_progress [Xhr (UploadProgress True 30 100)]
   \<and> map call_step (snd (startUploadFlow example_settings accepts_https
                              (example_env [Xhr (UploadProgress True 30 100), CancelPressed, Xhr (Load 200)])
                              ''file:///clips/v.mp4'' None [] fresh_screen))
       = [InitStep, UploadStep]
   \<and> ui_state (fst (startUploadFlow example_settings accepts_https
                        (example_env [Xhr (UploadProgress True 30 100), CancelPressed, Xhr (Load 200)])
                        ''file:///clips/v.mp4'' None [] fresh_screen))
       = StError
   \<and> uploadEvents (example_env [Xhr (UploadProgress True 30 100), Unmounted, Xhr (Load 200)])
       = [Xhr (UploadProgress True 30 100)] @ Unmounted # [Xhr (Load 200)]
   \<and> outcome (awaited_transfer example_settings
                 (example_env [Xhr (UploadProgress True 30 100), Unmounted, Xhr (Load 200)])
                 ''file:///clips/v.mp4''
                 \<lparr>recordingId = ''r1'', uploadUrl = ''https://x/r1'', headers = None\<rparr> fresh_screen)
       = Some (Rejected (DOMException ''Upload aborted'' ''AbortError''))
   \<and> map call_step (snd (startUploadFlow example_settings accepts_https
                              (example_env [Xhr (UploadProgress True 30 100), Unmounted, Xhr (Load 200)])
                              ''file:///clips/v.mp4'' None [] fresh_screen))
       = [InitStep, UploadStep]
   \<and> ui_state (fst (startUploadFlow example_settings accepts_https
                        (example_env [Xhr (UploadProgress True 30 100), Unmounted, Xhr (Load 200)])
                        ''file:///clips/v.mp4'' None [] fresh_screen))
       = StError"
proof -
  let ?resp = "\<lparr>recordingId = ''r1'', uploadUrl = ''https://x/r1'', headers = None\<rparr>"
  let ?info = "\<lparr>file_exists = True, file_size = Some 1000\<rparr>"
  have i: "initRecording accepts_https (initFetch (example_env es)) = Inr ?resp" for es
    by (simp add: eval_flow)
  have t: "outcome (transfer (recording_params ''https://x/r1'' ''video/mp4'') None [] [UploadProgress True 30 100]) = None"
    "signal (recording_params ''https://x/r1'' ''video/mp4'')"
    by (simp_all add: eval_transfer)
  have e: "getInfo (example_env es) = Inr ?info" "sendThrows (example_env es) = None"
    "uploadEvents (example_env es) = es" for es
    by (simp_all add: example_env_def)
  show ?thesis
    using cancel_during_upload [of "recording_params ''https://x/r1'' ''video/mp4''" None "[]"
        "[UploadProgress True 30 100]" "[Load 200]" "[]" "''file:///clips/v.mp4''"
        "example_env [Xhr (UploadProgress True 30 100), CancelPressed, Xhr (Load 200)]"
        ?info accepts_https ?resp
        "[Xhr (UploadProgress True 30 100)]" "[Xhr (Load 200)]" example_settings None "[]" fresh_screen]
      cancel_during_upload [of "recording_params ''https://x/r1'' ''video/mp4''" None "[]"
        "[UploadProgress True 30 100]" "[Load 200]" "[]" "''file:///clips/v.mp4''"
        "example_env [Xhr (UploadProgress True 30 100), Unmounted, Xhr (Load 200)]"
        ?info accepts_https ?resp
        "[Xhr (UploadProgress True 30 100)]" "[Xhr (Load 200)]" example_settings None "[]" fresh_screen]
      i t e
    by simp
qed

text \<open>A run cancelled during the transfer ends in the very state in which a run ends
  whose transfer the server rejected with status 500.\<close>

theorem cancel_counterexample:
  "ui_state (fst (startUploadFlow example_settings accepts_https
                    (example_env [Xhr (UploadProgress True 30 100), CancelPressed])
                    ''file:///clips/v.mp4'' None [] fresh_screen))
     = StError
   \<and> ui_state (fst (startUploadFlow example_settings accepts_https
                    (example_env [Xhr (UploadProgress True 30 100), CancelPressed])
                    ''file:///clips/v.mp4'' None [] fresh_screen))
     = ui_state (fst (startUploadFlow example_settings accepts_https
                    (example_env [Xhr (UploadProgress True 30 100), Xhr (Load 500)])
                    ''file:///clips/v.mp4'' None [] fresh_screen))"
  by (simp add: eval_flow)

subsection \<open>C3: the poller stops at the first terminal status\<close>

text \<open>While the data held is not terminal, the requests made are those up to and
  including the first one that gets a terminal status.\<close>

lemma poll_requests:
  "refetchInterval S d \<noteq> None \<Longrightarrow>
     map fst (poll S isUrl d fetches)
       = takeWhile (\<lambda>r. \<not> terminal r) (map (fetchRecordingStatus isUrl) fetches)
         @ take 1 (dropWhile (\<lambda>r. \<not> terminal r) (map (fetchRecordingStatus isUrl) fetches))"
proof (induction fetches arbitrary: d)
  case Nil
  then show ?case by simp
next
  case (Cons f fetches)
  show ?case
  proof (cases "fetchRecordingStatus isUrl f")
    case (Inl err)
    then have nt: "\<not> terminal (fetchRecordingStatus isUrl f)" by (simp add: terminal_def)
    from Cons.prems obtain ms where ms: "refetchInterval S d = Some ms" by auto
    have "map fst (poll S isUrl d (f # fetches)) = Inl err # map fst (poll S isUrl d fetches)"
      using Inl ms by (simp add: Let_def)
    with Cons.IH [OF Cons.prems] Inl nt show ?thesis by simp
  next
    case (Inr r)
    show ?thesis
    proof (cases "terminal (Inr r)")
      case True
      then have "refetchInterval S (Some r) = None" by (simp add: refetchInterval_def terminal_def)
      with Inr True show ?thesis by (simp add: Let_def)
    next
      case False
      then have c: "refetchInterval S (Some r) \<noteq> None"
        by (simp add: refetchInterval_def terminal_def)
      then obtain ms where ms: "refetchInterval S (Some r) = Some ms" by auto
      have "map fst (poll S isUrl d (f # fetches)) = Inr r # map fst (poll S isUrl (Some r) fetches)"
        using Inr ms by (simp add: Let_def)
      with Cons.IH [OF c] Inr False show ?thesis by simp
    qed
  qed
qed


lemma takeWhile_all_prefix: "list_all P xs \<Longrightarrow> takeWhile P (xs @ ys) = xs @ takeWhile P ys"
  by (induction xs) simp_all

lemma dropWhile_all_prefix: "list_all P xs \<Longrightarrow> dropWhile P (xs @ ys) = dropWhile P ys"
  by (induction xs) simp_all

lemma list_all_results: "list_all (\<lambda>g. P (h g)) xs \<Longrightarrow> list_all P (map h xs)"
  by (induction xs) simp_all

text \<open>
  C3. With \<open>rs\<close> the results of the status requests in the order they would arrive, the
  requests made are those up to and including the first one whose result is a terminal
  status (\<open>COMPLETED\<close> or \<open>FAILED\<close>), and no request is made after it. A request that
  fails is not terminal: the requests before it are made, it is made, and polling goes on
  after it as it would from the start. All of this rests on \<open>refetchInterval\<close>, which
  is \<open>false\<close> exactly when the data held has a terminal status.
\<close>

theorem poller_stops_at_terminal:
  "(rid \<noteq> [] \<longrightarrow>
      map fst (ResultScreen_poll S isUrl rid fetches)
        = takeWhile (\<lambda>r. \<not> terminal r) (map (fetchRecordingStatus isUrl) fetches)
          @ take 1 (dropWhile (\<lambda>r. \<not> terminal r) (map (fetchRecordingStatus isUrl) fetches)))
   \<and> (rid \<noteq> [] \<and> list_all (\<lambda>g. \<not> terminal (fetchRecordingStatus isUrl g)) before
        \<and> terminal (fetchRecordingStatus isUrl f) \<longrightarrow>
      map fst (ResultScreen_poll S isUrl rid (before @ f # after))
        = map (fetchRecordingStatus isUrl) (before @ [f]))
   \<and> (rid \<noteq> [] \<and> list_all (\<lambda>g. \<not> terminal (fetchRecordingStatus isUrl g)) before
        \<and> fetchRecordingStatus isUrl f = Inl err \<longrightarrow>
      map fst (ResultScreen_poll S isUrl rid (before @ f # after))
        = map (fetchRecordingStatus isUrl) before @ Inl err # map fst (ResultScreen_poll S isUrl rid after))
   \<and> (refetchInterval S queryData = None
        \<longleftrightarrow> (\<exists>d. queryData = Some d \<and> (status d = COMPLETED \<or> status d = FAILED)))"
proof -
  let ?nt = "\<lambda>r. \<not> terminal r"
  have rf: "refetchInterval S queryData = None
        \<longleftrightarrow> (\<exists>d. queryData = Some d \<and> (status d = COMPLETED \<or> status d = FAILED))"
    by (cases queryData) (simp_all add: refetchInterval_def)
  let ?frs = "fetchRecordingStatus isUrl"
  have start: "refetchInterval S None \<noteq> None" by (simp add: refetchInterval_def)
  have all: "map fst (ResultScreen_poll S isUrl rid fs)
        = takeWhile ?nt (map ?frs fs) @ take 1 (dropWhile ?nt (map ?frs fs))" if "rid \<noteq> []" for fs
    using that poll_requests [OF start, of isUrl fs] by (simp add: ResultScreen_poll_def)
  have stop: "map fst (ResultScreen_poll S isUrl rid (before @ f # after)) = map ?frs (before @ [f])"
    if "rid \<noteq> []" and b: "list_all (\<lambda>g. \<not> terminal (?frs g)) before" and t: "terminal (?frs f)"
  proof -
    have q: "list_all ?nt (map ?frs before)" using b by (rule list_all_results)
    have "takeWhile ?nt (map ?frs before @ ?frs f # map ?frs after) = map ?frs before"
      using t by (simp add: takeWhile_all_prefix [OF q])
    moreover have "dropWhile ?nt (map ?frs before @ ?frs f # map ?frs after) = ?frs f # map ?frs after"
      using t by (simp add: dropWhile_all_prefix [OF q])
    ultimately show ?thesis using all [OF that(1), of "before @ f # after"] by simp
  qed
  have go: "map fst (ResultScreen_poll S isUrl rid (before @ f # after))
        = map ?frs before @ Inl err # map fst (ResultScreen_poll S isUrl rid after)"
    if "rid \<noteq> []" and b: "list_all (\<lambda>g. \<not> terminal (?frs g)) before" and e: "?frs f = Inl err"
  proof -
    have q: "list_all ?nt (map ?frs before)" using b by (rule list_all_results)
    have nt: "\<not> terminal (Inl err)" by (simp add: terminal_def)
    have "takeWhile ?nt (map ?frs before @ Inl err # map ?frs after)
            = map ?frs before @ Inl err # takeWhile ?nt (map ?frs after)"
      using nt by (simp add: takeWhile_all_prefix [OF q])
    moreover have "dropWhile ?nt (map ?frs before @ Inl err # map ?frs after) = dropWhile ?nt (map ?frs after)"
      using nt by (simp add: dropWhile_all_prefix [OF q])
    ultimately show ?thesis
      using all [OF that(1), of "before @ f # after"] all [OF that(1), of after] e by simp
  qed
  from all stop go rf show ?thesis by blast
qed

lemmas eval_status =
  fetchRecordingStatus_def status_response_def json_response_def response_ok_def parseJson_def
  field_def z_optional_def issues_of_def status_names_def terminal_def

theorem poller_stops_at_terminal_witness:
  "''r1'' \<noteq> []
   \<and> list_all (\<lambda>g. \<not> terminal (fetchRecordingStatus accepts_https g))
        [status_response ''CREATED'', Inl (TypeError ''Network request failed''), status_response ''PROCESSING'']
   \<and> terminal (fetchRecordingStatus accepts_https (status_response ''COMPLETED''))
   \<and> length (ResultScreen_poll example_settings accepts_https ''r1''
        ([status_response ''CREATED'', Inl (TypeError ''Network request failed''), status_response ''PROCESSING'']
         @ status_response ''COMPLETED'' # [status_response ''PROCESSING'', status_response ''FAILED''])) = 4
   \<and> list_all (\<lambda>g. \<not> terminal (fetchRecordingStatus accepts_https g)) [status_response ''CREATED'']
   \<and> fetchRecordingStatus accepts_https (Inl (TypeError ''Network request failed''))
        = Inl (TypeError ''Network request failed'')
   \<and> length (ResultScreen_poll example_settings accepts_https ''r1''
        ([status_response ''CREATED''] @ Inl (TypeError ''Network request failed'')
           # [status_response ''PROCESSING'']))
       = 3"
proof -
  have a: "list_all (\<lambda>g. \<not> terminal (fetchRecordingStatus accepts_https g))
        [status_response ''CREATED'', Inl (TypeError ''Network request failed''), status_response ''PROCESSING'']"
    "terminal (fetchRecordingStatus accepts_https (status_response ''COMPLETED''))"
    "fetchRecordingStatus accepts_https (Inl (TypeError ''Network request failed''))
        = Inl (TypeError ''Network request failed'')"
    "\<not> terminal (fetchRecordingStatus accepts_https (status_response ''PROCESSING''))"
    by (simp_all add: eval_status)
  have "length (map fst (ResultScreen_poll example_settings accepts_https ''r1''
        ([status_response ''CREATED'', Inl (TypeError ''Network request failed''), status_response ''PROCESSING'']
         @ status_response ''COMPLETED'' # [status_response ''PROCESSING'', status_response ''FAILED'']))) = 4"
    using a poller_stops_at_terminal [of "''r1''" example_settings accepts_https "[]"
        "[status_response ''CREATED'', Inl (TypeError ''Network request failed''), status_response ''PROCESSING'']"
        "status_response ''COMPLETED''" "[status_response ''PROCESSING'', status_response ''FAILED'']"
        "TypeError ''Network request failed''"]
    by simp
  moreover have "length (map fst (ResultScreen_poll example_settings accepts_https ''r1''
        ([status_response ''CREATED''] @ Inl (TypeError ''Network request failed'')
           # [status_response ''PROCESSING'']))) = 3"
    using a poller_stops_at_terminal [of "''r1''" example_settings accepts_https "[status_response ''PROCESSING'']"
        "[status_response ''CREATED'']"
        "Inl (TypeError ''Network request failed'')" "[status_response ''PROCESSING'']"
        "TypeError ''Network request failed''"]
    by simp
  ultimately show ?thesis using a by simp
qed

subsection \<open>The validators\<close>

lemma z_string_detail: "has_detail (z_string p v)"
  by (cases "(p, v)" rule: z_string.cases) (simp_all add: has_detail_def type_issue_def)

lemma z_string_succeeds: "succeeds (z_string p v) \<longleftrightarrow> is_string v"
  by (cases "(p, v)" rule: z_string.cases) (simp_all add: succeeds_def)

lemma z_string_value: "z_string p v = Inr s \<longleftrightarrow> v = Some (JString s)"
  by (cases "(p, v)" rule: z_string.cases) auto

lemma z_string_url_detail: "has_detail (z_string_url isUrl p v)"
  using z_string_detail [of p v]
  by (cases "z_string p v") (simp_all add: z_string_url_def has_detail_def)

lemma z_string_url_succeeds: "succeeds (z_string_url isUrl p v) \<longleftrightarrow> is_url isUrl v"
  by (cases "(p, v)" rule: z_string.cases) (simp_all add: z_string_url_def succeeds_def)

lemma z_string_url_value: "z_string_url isUrl p v = Inr s \<longleftrightarrow> v = Some (JString s) \<and> isUrl s"
  by (cases "(p, v)" rule: z_string.cases) (auto simp: z_string_url_def)

lemma z_number_detail: "has_detail (z_number p v)"
  by (cases "(p, v)" rule: z_number.cases) (simp_all add: has_detail_def type_issue_def)

lemma z_number_succeeds: "succeeds (z_number p v) \<longleftrightarrow> is_number v"
  by (cases "(p, v)" rule: z_number.cases) (simp_all add: succeeds_def)

lemma z_optional_detail: "has_detail (inner p v) \<Longrightarrow> has_detail (z_optional inner p v)"
  by (cases v; cases "inner p v") (simp_all add: z_optional_def has_detail_def)

lemma z_optional_succeeds:
  "succeeds (inner p v) \<longleftrightarrow> P v \<Longrightarrow> succeeds (z_optional inner p v) \<longleftrightarrow> absent_or P v"
  by (cases v; cases "inner p v") (simp_all add: z_optional_def succeeds_def)

lemma collect_detail: "list_all has_detail rs \<Longrightarrow> has_detail (collect rs)"
proof (induction rs)
  case Nil
  then show ?case by (simp add: has_detail_def)
next
  case (Cons r rs)
  then show ?case
    by (cases r; cases "collect rs") (simp_all add: has_detail_def)
qed

lemma collect_succeeds: "succeeds (collect rs) \<longleftrightarrow> list_all succeeds rs"
proof (induction rs)
  case Nil
  then show ?case by (simp add: succeeds_def)
next
  case (Cons r rs)
  then show ?case
    by (cases r; cases "collect rs") (simp_all add: succeeds_def)
qed

lemma z_enum_status_detail: "has_detail (z_enum_status p v)"
  by (cases "(p, v)" rule: z_enum_status.cases)
     (simp_all add: has_detail_def split: option.splits)

lemma z_enum_status_succeeds: "succeeds (z_enum_status p v) \<longleftrightarrow> is_status_name v"
  by (cases "(p, v)" rule: z_enum_status.cases)
     (auto simp: succeeds_def status_names_def split: option.splits if_splits)

lemma z_enum_status_value:
  "z_enum_status p v = Inr n \<Longrightarrow> \<exists>s. v = Some (JString s) \<and> map_of status_names s = Some n"
  by (cases "(p, v)" rule: z_enum_status.cases) (auto split: option.splits)

lemma z_record_string_detail: "has_detail (z_record_string p v)"
proof (cases "(p, v)" rule: z_record_string.cases)
  case (1 p' kvs)
  have "list_all has_detail (map (\<lambda>(k, j). z_string (p' @ [Key k]) (Some j)) kvs)"
    by (induction kvs) (auto simp: z_string_detail)
  then have "has_detail (collect (map (\<lambda>(k, j). z_string (p' @ [Key k]) (Some j)) kvs))"
    by (rule collect_detail)
  with 1 show ?thesis
    by (cases "collect (map (\<lambda>(k, j). z_string (p' @ [Key k]) (Some j)) kvs)") (simp_all add: has_detail_def)
qed (simp_all add: has_detail_def type_issue_def)

lemma z_record_string_succeeds: "succeeds (z_record_string p v) \<longleftrightarrow> is_string_map v"
proof (cases "(p, v)" rule: z_record_string.cases)
  case (1 p' kvs)
  have "list_all succeeds (map (\<lambda>(k, j). z_string (p' @ [Key k]) (Some j)) kvs)
          \<longleftrightarrow> list_all (\<lambda>(k, j). is_string (Some j)) kvs"
    by (induction kvs) (auto simp: z_string_succeeds)
  then have "succeeds (collect (map (\<lambda>(k, j). z_string (p' @ [Key k]) (Some j)) kvs))
          \<longleftrightarrow> list_all (\<lambda>(k, j). is_string (Some j)) kvs"
    by (simp add: collect_succeeds)
  with 1 show ?thesis
    by (cases "collect (map (\<lambda>(k, j). z_string (p' @ [Key k]) (Some j)) kvs)") (simp_all add: succeeds_def)
qed (simp_all add: succeeds_def)

lemma z_number_value: "z_number p v = Inr n \<Longrightarrow> v = Some (JNumber n)"
  by (cases "(p, v)" rule: z_number.cases) (auto split: if_splits)

lemma z_optional_value:
  assumes "z_optional inner p v = Inr r"
  shows "(v = None \<and> r = None) \<or> (\<exists>a. r = Some a \<and> inner p v = Inr a)"
  using assms by (cases v; cases "inner p v") (auto simp: z_optional_def)

lemma optional_string_value: "z_optional z_string p v = Inr r \<Longrightarrow> v = map_option JString r"
  using z_optional_value [of z_string p v r] by (auto simp: z_string_value)

lemma optional_url_value:
  "z_optional (z_string_url isUrl) p v = Inr r \<Longrightarrow> v = map_option JString r"
  using z_optional_value [of "z_string_url isUrl" p v r] by (auto simp: z_string_url_value)

lemma collect_value: "collect rs = Inr vs \<Longrightarrow> rs = map Inr vs"
proof (induction rs arbitrary: vs)
  case Nil
  then show ?case by simp
next
  case (Cons r rs)
  show ?case
  proof (cases r)
    case (Inl iss)
    with Cons.prems show ?thesis by (cases "collect rs") simp_all
  next
    case (Inr a)
    show ?thesis
    proof (cases "collect rs")
      case (Inl js)
      with Inr Cons.prems show ?thesis by simp
    next
      case inner: (Inr as)
      from Cons.IH [OF inner] have "rs = map Inr as" .
      with Inr inner Cons.prems show ?thesis by auto
    qed
  qed
qed

lemma record_values_back:
  "map (\<lambda>(k, j). z_string (p @ [Key k]) (Some j)) kvs = map Inr vs
     \<Longrightarrow> map (\<lambda>(k, s). (k, JString s)) (zip (map fst kvs) vs) = kvs"
proof (induction kvs arbitrary: vs)
  case Nil
  then show ?case by simp
next
  case (Cons kv kvs)
  obtain k j where kv: "kv = (k, j)" by (cases kv)
  from Cons.prems obtain s rest where vs: "vs = s # rest" by (cases vs) auto
  from Cons.prems kv vs have h: "z_string (p @ [Key k]) (Some j) = Inr s"
    and t: "map (\<lambda>(k, j). z_string (p @ [Key k]) (Some j)) kvs = map Inr rest"
    by simp_all
  from h have "j = JString s" by (simp add: z_string_value)
  with Cons.IH [OF t] kv vs show ?case by simp
qed

lemma filter_keys_map:
  "map (\<lambda>(k, s). (k, JString s)) (filter (\<lambda>(k, s). k \<noteq> x) zs)
     = filter (\<lambda>(k, j). k \<noteq> x) (map (\<lambda>(k, s). (k, JString s)) zs)"
  by (induction zs) auto

lemma z_record_string_value: "z_record_string p v = Inr hs \<Longrightarrow> agrees_headers v (Some hs)"
proof (cases "(p, v)" rule: z_record_string.cases)
  case (1 p' kvs)
  assume r: "z_record_string p v = Inr hs"
  show ?thesis
  proof (cases "collect (map (\<lambda>(k, j). z_string (p @ [Key k]) (Some j)) kvs)")
    case (Inl iss)
    with 1 r show ?thesis by simp
  next
    case (Inr vs)
    with 1 r have hs: "hs = filter (\<lambda>(k, s). k \<noteq> ''__proto__'') (zip (map fst kvs) vs)" by simp
    from record_values_back [OF collect_value [OF Inr]]
    have "map (\<lambda>(k, s). (k, JString s)) (zip (map fst kvs) vs) = kvs" .
    with hs 1 show ?thesis by (simp add: filter_keys_map)
  qed
qed (simp_all)

lemma headers_value: "z_optional z_record_string p v = Inr h \<Longrightarrow> agrees_headers v h"
  using z_optional_value [of z_record_string p v h] by (auto simp: z_record_string_value)

lemma headers_detail: "has_detail (z_optional z_record_string p v)"
  by (rule z_optional_detail) (rule z_record_string_detail)

lemma headers_succeeds: "succeeds (z_optional z_record_string p v) \<longleftrightarrow> absent_or is_string_map v"
  by (rule z_optional_succeeds) (rule z_record_string_succeeds)

lemma init_schema_detail: "has_detail (initRecordingResponseSchema isUrl p v)"
proof (cases "(isUrl, p, v)" rule: initRecordingResponseSchema.cases)
  case (1 isUrl' p' kvs)
  let ?r = "z_string (p @ [Key ''recordingId'']) (field kvs ''recordingId'')"
  let ?u = "z_string_url isUrl (p @ [Key ''uploadUrl'']) (field kvs ''uploadUrl'')"
  let ?h = "z_optional z_record_string (p @ [Key ''headers'']) (field kvs ''headers'')"
  have "has_detail ?r" "has_detail ?u" "has_detail ?h"
    by (rule z_string_detail, rule z_string_url_detail, rule headers_detail)
  with 1 show ?thesis
    by (cases ?r; cases ?u; cases ?h) (simp_all add: Let_def has_detail_def issues_of_def)
qed (simp_all add: has_detail_def type_issue_def)

lemma init_schema_succeeds:
  "succeeds (initRecordingResponseSchema isUrl p (Some j)) \<longleftrightarrow> shape_init isUrl j"
proof (cases j)
  case (JObject kvs)
  let ?r = "z_string (p @ [Key ''recordingId'']) (field kvs ''recordingId'')"
  let ?u = "z_string_url isUrl (p @ [Key ''uploadUrl'']) (field kvs ''uploadUrl'')"
  let ?h = "z_optional z_record_string (p @ [Key ''headers'']) (field kvs ''headers'')"
  have "succeeds (initRecordingResponseSchema isUrl p (Some j)) \<longleftrightarrow> succeeds ?r \<and> succeeds ?u \<and> succeeds ?h"
    using JObject by (cases ?r; cases ?u; cases ?h) (simp_all add: Let_def succeeds_def)
  then show ?thesis
    using JObject by (simp add: z_string_succeeds z_string_url_succeeds headers_succeeds)
qed (simp_all add: succeeds_def)

lemma init_schema_value:
  assumes "initRecordingResponseSchema isUrl p (Some j) = Inr v"
  shows "\<exists>kvs. j = JObject kvs
           \<and> field kvs ''recordingId'' = Some (JString (recordingId v))
           \<and> field kvs ''uploadUrl'' = Some (JString (uploadUrl v))
           \<and> isUrl (uploadUrl v)"
proof (cases j)
  case (JObject kvs)
  let ?r = "z_string (p @ [Key ''recordingId'']) (field kvs ''recordingId'')"
  let ?u = "z_string_url isUrl (p @ [Key ''uploadUrl'']) (field kvs ''uploadUrl'')"
  let ?h = "z_optional z_record_string (p @ [Key ''headers'']) (field kvs ''headers'')"
  from assms JObject have "?r = Inr (recordingId v) \<and> ?u = Inr (uploadUrl v)"
    by (cases ?r; cases ?u; cases ?h) (auto simp: Let_def)
  then show ?thesis using JObject by (simp add: z_string_value z_string_url_value)
qed (use assms in simp_all)

lemma init_schema_agrees:
  assumes "initRecordingResponseSchema isUrl p (Some j) = Inr v"
  shows "agrees_init j v"
proof (cases j)
  case (JObject kvs)
  let ?r = "z_string (p @ [Key ''recordingId'']) (field kvs ''recordingId'')"
  let ?u = "z_string_url isUrl (p @ [Key ''uploadUrl'']) (field kvs ''uploadUrl'')"
  let ?h = "z_optional z_record_string (p @ [Key ''headers'']) (field kvs ''headers'')"
  from assms JObject
  have "?r = Inr (recordingId v) \<and> ?u = Inr (uploadUrl v) \<and> ?h = Inr (headers v)"
    by (cases ?r; cases ?u; cases ?h) (auto simp: Let_def)
  then show ?thesis
    using JObject headers_value [of "p @ [Key ''headers'']" "field kvs ''headers''" "headers v"]
    by (simp add: z_string_value z_string_url_value)
qed (use assms in simp_all)

subsection \<open>C6: what a successful init yields\<close>

lemma initRecording_value:
  assumes "initRecording isUrl fetched = Inr v"
  shows "\<exists>r kvs. fetched = Inr r \<and> response_ok r \<and> body_json r = Inr (JObject kvs)
           \<and> field kvs ''recordingId'' = Some (JString (recordingId v))
           \<and> field kvs ''uploadUrl'' = Some (JString (uploadUrl v))
           \<and> isUrl (uploadUrl v)"
proof (cases fetched)
  case (Inl err)
  with assms show ?thesis by (simp add: initRecording_def)
next
  case (Inr r)
  with assms have ok: "response_ok r" and pj: "parseJson (initRecordingResponseSchema isUrl) r = Inr v"
    by (auto simp: initRecording_def split: if_splits)
  from pj obtain j where j: "body_json r = Inr j" and s: "initRecordingResponseSchema isUrl [] (Some j) = Inr v"
    by (auto simp: parseJson_def split: sum.splits)
  from init_schema_value [OF s] obtain kvs where "j = JObject kvs"
    "field kvs ''recordingId'' = Some (JString (recordingId v))"
    "field kvs ''uploadUrl'' = Some (JString (uploadUrl v))" "isUrl (uploadUrl v)"
    by blast
  with Inr ok j show ?thesis by blast
qed

text \<open>
  C6 (as the code has it). A successful init yields an upload URL that passed the URL
  check, and a recording id that is the string the backend sent, whatever it is: the
  schema asks for a string and not for a non-empty one.
\<close>

theorem init_success_fields:
  "initRecording isUrl fetched = Inr v \<longrightarrow>
     isUrl (uploadUrl v)
     \<and> (\<exists>r kvs. fetched = Inr r \<and> response_ok r \<and> body_json r = Inr (JObject kvs)
           \<and> field kvs ''recordingId'' = Some (JString (recordingId v))
           \<and> field kvs ''uploadUrl'' = Some (JString (uploadUrl v)))"
proof
  assume "initRecording isUrl fetched = Inr v"
  from initRecording_value [OF this] show "isUrl (uploadUrl v)
     \<and> (\<exists>r kvs. fetched = Inr r \<and> response_ok r \<and> body_json r = Inr (JObject kvs)
           \<and> field kvs ''recordingId'' = Some (JString (recordingId v))
           \<and> field kvs ''uploadUrl'' = Some (JString (uploadUrl v)))"
    by blast
qed

theorem init_success_fields_witness:
  "initRecording accepts_https (initFetch (example_env []))
     = Inr \<lparr>recordingId = ''r1'', uploadUrl = ''https://x/r1'', headers = None\<rparr>
   \<and> accepts_https (uploadUrl \<lparr>recordingId = ''r1'', uploadUrl = ''https://x/r1'', headers = None\<rparr>)"
proof -
  have i: "initRecording accepts_https (initFetch (example_env []))
     = Inr \<lparr>recordingId = ''r1'', uploadUrl = ''https://x/r1'', headers = None\<rparr>"
    by (simp add: eval_flow)
  show ?thesis
    using init_success_fields [of accepts_https "initFetch (example_env [])"
        "\<lparr>recordingId = ''r1'', uploadUrl = ''https://x/r1'', headers = None\<rparr>"] i
    by simp
qed

text \<open>A backend answer with an empty recording id passes the validation, and the init
  succeeds with the empty id.\<close>

theorem init_empty_id_counterexample:
  "initRecording accepts_https
     (Inr (json_response 200 (JObject [(''recordingId'', JString ''''), (''uploadUrl'', JString ''https://x/r1'')])))
   = Inr \<lparr>recordingId = '''', uploadUrl = ''https://x/r1'', headers = None\<rparr>"
  by (simp add: eval_flow)

subsection \<open>The status schema\<close>

lemma evidence_detail: "has_detail (evidenceSchema isUrl p v)"
proof (cases "(isUrl, p, v)" rule: evidenceSchema.cases)
  case (2 isUrl' p' kvs)
  let ?t = "z_optional z_string (p @ [Key ''transcriptSnippet'']) (field kvs ''transcriptSnippet'')"
  let ?k = "z_optional (z_string_url isUrl) (p @ [Key ''keyframeUrl'']) (field kvs ''keyframeUrl'')"
  have "has_detail ?t" "has_detail ?k"
    by (simp_all add: z_optional_detail z_string_detail z_string_url_detail)
  with 2 show ?thesis
    by (cases ?t; cases ?k) (simp_all add: Let_def has_detail_def issues_of_def)
qed (simp_all add: has_detail_def type_issue_def)

lemma evidence_succeeds:
  "succeeds (evidenceSchema isUrl p v) \<longleftrightarrow> absent_or (shape_evidence isUrl) v"
proof (cases "(isUrl, p, v)" rule: evidenceSchema.cases)
  case (2 isUrl' p' kvs)
  let ?t = "z_optional z_string (p @ [Key ''transcriptSnippet'']) (field kvs ''transcriptSnippet'')"
  let ?k = "z_optional (z_string_url isUrl) (p @ [Key ''keyframeUrl'']) (field kvs ''keyframeUrl'')"
  have t: "succeeds ?t \<longleftrightarrow> absent_or is_string (field kvs ''transcriptSnippet'')"
    by (rule z_optional_succeeds) (rule z_string_succeeds)
  have k: "succeeds ?k \<longleftrightarrow> absent_or (is_url isUrl) (field kvs ''keyframeUrl'')"
    by (rule z_optional_succeeds) (rule z_string_url_succeeds)
  have "succeeds (evidenceSchema isUrl p v) \<longleftrightarrow> succeeds ?t \<and> succeeds ?k"
    using 2 by (cases ?t; cases ?k) (simp_all add: Let_def succeeds_def)
  with t k 2 show ?thesis by simp
qed (simp_all add: succeeds_def)

lemma step_detail: "has_detail (recordingStepSchema isUrl p v)"
proof (cases "(isUrl, p, v)" rule: recordingStepSchema.cases)
  case (1 isUrl' p' kvs)
  let ?i = "z_number (p @ [Key ''index'']) (field kvs ''index'')"
  let ?s = "z_number (p @ [Key ''startSec'']) (field kvs ''startSec'')"
  let ?e = "z_number (p @ [Key ''endSec'']) (field kvs ''endSec'')"
  let ?t = "z_string (p @ [Key ''title'']) (field kvs ''title'')"
  let ?d = "z_string (p @ [Key ''description'']) (field kvs ''description'')"
  let ?v = "evidenceSchema isUrl (p @ [Key ''evidence'']) (field kvs ''evidence'')"
  have "has_detail ?i" "has_detail ?s" "has_detail ?e" "has_detail ?t" "has_detail ?d" "has_detail ?v"
    by (simp_all add: z_number_detail z_string_detail evidence_detail)
  with 1 show ?thesis
    by (cases ?i; cases ?s; cases ?e; cases ?t; cases ?d; cases ?v)
       (simp_all add: Let_def has_detail_def issues_of_def)
qed (simp_all add: has_detail_def type_issue_def)

lemma step_succeeds:
  "succeeds (recordingStepSchema isUrl p (Some j)) \<longleftrightarrow> shape_step isUrl j"
proof (cases j)
  case (JObject kvs)
  let ?i = "z_number (p @ [Key ''index'']) (field kvs ''index'')"
  let ?s = "z_number (p @ [Key ''startSec'']) (field kvs ''startSec'')"
  let ?e = "z_number (p @ [Key ''endSec'']) (field kvs ''endSec'')"
  let ?t = "z_string (p @ [Key ''title'']) (field kvs ''title'')"
  let ?d = "z_string (p @ [Key ''description'']) (field kvs ''description'')"
  let ?v = "evidenceSchema isUrl (p @ [Key ''evidence'']) (field kvs ''evidence'')"
  have "succeeds (recordingStepSchema isUrl p (Some j))
          \<longleftrightarrow> succeeds ?i \<and> succeeds ?s \<and> succeeds ?e \<and> succeeds ?t \<and> succeeds ?d \<and> succeeds ?v"
    using JObject
    by (cases ?i; cases ?s; cases ?e; cases ?t; cases ?d; cases ?v) (simp_all add: Let_def succeeds_def)
  then show ?thesis
    using JObject by (simp add: z_number_succeeds z_string_succeeds evidence_succeeds)
qed (simp_all add: succeeds_def)

lemma steps_detail: "has_detail (z_array_steps isUrl p v)"
proof (cases "(isUrl, p, v)" rule: z_array_steps.cases)
  case (1 isUrl' p' xs)
  have "list_all has_detail (map (\<lambda>(i, x). recordingStepSchema isUrl (p @ [Index i]) (Some x)) ixs)" for ixs
    by (induction ixs) (auto simp: step_detail)
  then show ?thesis using 1 by (simp add: collect_detail)
qed (simp_all add: has_detail_def type_issue_def)

lemma steps_succeeds: "succeeds (z_array_steps isUrl p v) \<longleftrightarrow> is_step_list isUrl v"
proof (cases "(isUrl, p, v)" rule: z_array_steps.cases)
  case (1 isUrl' p' xs)
  have "list_all succeeds (map (\<lambda>(i, x). recordingStepSchema isUrl (p @ [Index i]) (Some x)) (enumerate n xs))
          \<longleftrightarrow> list_all (shape_step isUrl) xs" for n
    by (induction xs arbitrary: n) (simp_all add: step_succeeds)
  then show ?thesis using 1 by (simp add: collect_succeeds)
qed (simp_all add: succeeds_def)

lemma evidence_value: "evidenceSchema isUrl p v = Inr e \<Longrightarrow> agrees_evidence v e"
proof (cases "(isUrl, p, v)" rule: evidenceSchema.cases)
  case (1 isUrl' p')
  assume "evidenceSchema isUrl p v = Inr e"
  with 1 show ?thesis by simp
next
  case (2 isUrl' p' kvs)
  assume r: "evidenceSchema isUrl p v = Inr e"
  let ?t = "z_optional z_string (p @ [Key ''transcriptSnippet'']) (field kvs ''transcriptSnippet'')"
  let ?k = "z_optional (z_string_url isUrl) (p @ [Key ''keyframeUrl'']) (field kvs ''keyframeUrl'')"
  from r 2 obtain ts ku where "?t = Inr ts" "?k = Inr ku"
    and e: "e = Some \<lparr>transcriptSnippet = ts, keyframeUrl = ku\<rparr>"
    by (cases ?t; cases ?k) (auto simp: Let_def)
  then have "field kvs ''transcriptSnippet'' = map_option JString ts"
    "field kvs ''keyframeUrl'' = map_option JString ku"
    by (simp_all add: optional_string_value optional_url_value)
  with e 2 show ?thesis by simp
qed simp_all

lemma step_value:
  assumes "recordingStepSchema isUrl p (Some j) = Inr st"
  shows "agrees_step j st"
proof (cases j)
  case (JObject kvs)
  let ?i = "z_number (p @ [Key ''index'']) (field kvs ''index'')"
  let ?s = "z_number (p @ [Key ''startSec'']) (field kvs ''startSec'')"
  let ?e = "z_number (p @ [Key ''endSec'']) (field kvs ''endSec'')"
  let ?t = "z_string (p @ [Key ''title'']) (field kvs ''title'')"
  let ?d = "z_string (p @ [Key ''description'']) (field kvs ''description'')"
  let ?v = "evidenceSchema isUrl (p @ [Key ''evidence'']) (field kvs ''evidence'')"
  from assms JObject
  have "?i = Inr (index st) \<and> ?s = Inr (startSec st) \<and> ?e = Inr (endSec st)
        \<and> ?t = Inr (title st) \<and> ?d = Inr (description st) \<and> ?v = Inr (evidence st)"
    by (cases ?i; cases ?s; cases ?e; cases ?t; cases ?d; cases ?v) (auto simp: Let_def)
  then have v: "?i = Inr (index st)" "?s = Inr (startSec st)" "?e = Inr (endSec st)"
    "?t = Inr (title st)" "?d = Inr (description st)" "?v = Inr (evidence st)"
    by simp_all
  from z_number_value [OF v(1)] z_number_value [OF v(2)] z_number_value [OF v(3)]
    v(4) v(5) evidence_value [OF v(6)] JObject
  show ?thesis by (simp add: z_string_value)
qed (use assms in simp_all)

lemma step_values_back:
  "map (\<lambda>(i, x). recordingStepSchema isUrl (p @ [Index i]) (Some x)) (enumerate n xs) = map Inr sts
     \<Longrightarrow> list_all2 agrees_step xs sts"
proof (induction xs arbitrary: n sts)
  case Nil
  then show ?case by simp
next
  case (Cons x xs)
  from Cons.prems obtain st rest where sts: "sts = st # rest" by (cases sts) auto
  from Cons.prems sts have h: "recordingStepSchema isUrl (p @ [Index n]) (Some x) = Inr st"
    and t: "map (\<lambda>(i, x). recordingStepSchema isUrl (p @ [Index i]) (Some x)) (enumerate (Suc n) xs)
              = map Inr rest"
    by simp_all
  from step_value [OF h] Cons.IH [OF t] sts show ?case by simp
qed

lemma steps_value: "z_array_steps isUrl p v = Inr sts \<Longrightarrow> agrees_steps v (Some sts)"
proof (cases "(isUrl, p, v)" rule: z_array_steps.cases)
  case (1 isUrl' p' xs)
  assume "z_array_steps isUrl p v = Inr sts"
  with 1 have "collect (map (\<lambda>(i, x). recordingStepSchema isUrl (p @ [Index i]) (Some x)) (enumerate 0 xs))
                 = Inr sts"
    by simp
  from step_values_back [OF collect_value [OF this]] 1 show ?thesis by simp
qed simp_all

lemma optional_steps_value: "z_optional (z_array_steps isUrl) p v = Inr r \<Longrightarrow> agrees_steps v r"
  using z_optional_value [of "z_array_steps isUrl" p v r] by (auto simp: steps_value)

lemma status_schema_detail: "has_detail (recordingStatusSchema isUrl p v)"
proof (cases "(isUrl, p, v)" rule: recordingStatusSchema.cases)
  case (1 isUrl' p' kvs)
  let ?r = "z_string (p @ [Key ''recordingId'']) (field kvs ''recordingId'')"
  let ?s = "z_enum_status (p @ [Key ''status'']) (field kvs ''status'')"
  let ?e = "z_optional z_string (p @ [Key ''error'']) (field kvs ''error'')"
  let ?t = "z_optional (z_array_steps isUrl) (p @ [Key ''steps'']) (field kvs ''steps'')"
  have "has_detail ?r" "has_detail ?s" "has_detail ?e" "has_detail ?t"
    by (simp_all add: z_string_detail z_enum_status_detail z_optional_detail steps_detail)
  with 1 show ?thesis
    by (cases ?r; cases ?s; cases ?e; cases ?t) (simp_all add: Let_def has_detail_def issues_of_def)
qed (simp_all add: has_detail_def type_issue_def)

lemma status_schema_succeeds:
  "succeeds (recordingStatusSchema isUrl p (Some j)) \<longleftrightarrow> shape_status isUrl j"
proof (cases j)
  case (JObject kvs)
  let ?r = "z_string (p @ [Key ''recordingId'']) (field kvs ''recordingId'')"
  let ?s = "z_enum_status (p @ [Key ''status'']) (field kvs ''status'')"
  let ?e = "z_optional z_string (p @ [Key ''error'']) (field kvs ''error'')"
  let ?t = "z_optional (z_array_steps isUrl) (p @ [Key ''steps'']) (field kvs ''steps'')"
  have e: "succeeds ?e \<longleftrightarrow> absent_or is_string (field kvs ''error'')"
    by (rule z_optional_succeeds) (rule z_string_succeeds)
  have t: "succeeds ?t \<longleftrightarrow> absent_or (is_step_list isUrl) (field kvs ''steps'')"
    by (rule z_optional_succeeds) (rule steps_succeeds)
  have "succeeds (recordingStatusSchema isUrl p (Some j))
          \<longleftrightarrow> succeeds ?r \<and> succeeds ?s \<and> succeeds ?e \<and> succeeds ?t"
    using JObject by (cases ?r; cases ?s; cases ?e; cases ?t) (simp_all add: Let_def succeeds_def)
  then show ?thesis
    using JObject e t by (simp add: z_string_succeeds z_enum_status_succeeds)
qed (simp_all add: succeeds_def)

lemma status_schema_agrees:
  assumes "recordingStatusSchema isUrl p (Some j) = Inr w"
  shows "agrees_status j w"
proof (cases j)
  case (JObject kvs)
  let ?r = "z_string (p @ [Key ''recordingId'']) (field kvs ''recordingId'')"
  let ?s = "z_enum_status (p @ [Key ''status'']) (field kvs ''status'')"
  let ?e = "z_optional z_string (p @ [Key ''error'']) (field kvs ''error'')"
  let ?t = "z_optional (z_array_steps isUrl) (p @ [Key ''steps'']) (field kvs ''steps'')"
  from assms JObject
  have "?r = Inr (status_recordingId w) \<and> ?s = Inr (status w) \<and> ?e = Inr (status_error w)
        \<and> ?t = Inr (steps w)"
    by (cases ?r; cases ?s; cases ?e; cases ?t) (auto simp: Let_def)
  then have v: "?r = Inr (status_recordingId w)" "?s = Inr (status w)" "?e = Inr (status_error w)"
    "?t = Inr (steps w)"
    by simp_all
  from z_enum_status_value [OF v(2)] obtain s where
    "field kvs ''status'' = Some (JString s)" "map_of status_names s = Some (status w)"
    by blast
  with v(1) optional_string_value [OF v(3)] optional_steps_value [OF v(4)] JObject
  show ?thesis by (simp add: z_string_value)
qed (use assms in simp_all)

subsection \<open>C7: a malformed payload is rejected with its issues\<close>

lemma parseJson_succeeds:
  assumes "\<And>j. succeeds (schema [] (Some j)) \<longleftrightarrow> C j"
  shows "(\<exists>v. parseJson schema r = Inr v) \<longleftrightarrow> (\<exists>j. body_json r = Inr j \<and> C j)"
proof (cases "body_json r")
  case (Inl err)
  then show ?thesis by (simp add: parseJson_def)
next
  case (Inr j)
  have "(\<exists>v. parseJson schema r = Inr v) \<longleftrightarrow> succeeds (schema [] (Some j))"
    using Inr by (cases "schema [] (Some j)") (simp_all add: parseJson_def succeeds_def)
  with assms Inr show ?thesis by simp
qed

lemma parseJson_rejects:
  assumes "\<And>v. has_detail (schema [] v)" and "\<And>j. succeeds (schema [] (Some j)) \<longleftrightarrow> C j"
    and "body_json r = Inr j" and "\<not> C j"
  shows "\<exists>is. parseJson schema r = Inl (ZodError is) \<and> is \<noteq> []"
proof (cases "schema [] (Some j)")
  case (Inl iss)
  moreover from assms(1) [of "Some j"] Inl have "iss \<noteq> []" by (simp add: has_detail_def)
  ultimately show ?thesis using assms(3) by (simp add: parseJson_def)
next
  case (Inr v)
  then have "succeeds (schema [] (Some j))" by (simp add: succeeds_def)
  with assms(2) assms(4) show ?thesis by simp
qed

lemma parseJson_agrees:
  assumes "\<And>j v. schema [] (Some j) = Inr v \<Longrightarrow> A j v" and "parseJson schema r = Inr v"
  shows "\<exists>j. body_json r = Inr j \<and> A j v"
proof (cases "body_json r")
  case (Inl err)
  with assms(2) show ?thesis by (simp add: parseJson_def)
next
  case (Inr j)
  with assms(2) have "schema [] (Some j) = Inr v"
    by (cases "schema [] (Some j)") (simp_all add: parseJson_def)
  from assms(1) [OF this] Inr show ?thesis by simp
qed

lemma parseJson_bad_json: "body_json r = Inl err \<Longrightarrow> parseJson schema r = Inl err"
  by (simp add: parseJson_def)

text \<open>
  C7 (as the code has it). For the init response and for the status response alike, what
  the validation checks is the shape of the payload: that every required property is
  there and that each property has its type. The parse succeeds exactly when the body is
  JSON of that shape; a body of another shape makes it fail with a \<open>ZodError\<close> that
  holds at least one issue; a body that is no JSON makes it fail with the error of the
  JSON parser; and every field of a result is the payload's property of that name,
  unchanged, the optional ones and the fields of every step included.
\<close>

theorem malformed_payload_rejected:
  "((\<exists>v. parseJson (initRecordingResponseSchema isUrl) r = Inr v)
      \<longleftrightarrow> (\<exists>j. body_json r = Inr j \<and> shape_init isUrl j))
   \<and> (body_json r = Inr j \<and> \<not> shape_init isUrl j \<longrightarrow>
        (\<exists>is. parseJson (initRecordingResponseSchema isUrl) r = Inl (ZodError is) \<and> is \<noteq> []))
   \<and> (parseJson (initRecordingResponseSchema isUrl) r = Inr v \<longrightarrow>
        (\<exists>j'. body_json r = Inr j' \<and> agrees_init j' v))
   \<and> ((\<exists>w. parseJson (recordingStatusSchema isUrl) r = Inr w)
      \<longleftrightarrow> (\<exists>j. body_json r = Inr j \<and> shape_status isUrl j))
   \<and> (body_json r = Inr j \<and> \<not> shape_status isUrl j \<longrightarrow>
        (\<exists>is. parseJson (recordingStatusSchema isUrl) r = Inl (ZodError is) \<and> is \<noteq> []))
   \<and> (parseJson (recordingStatusSchema isUrl) r = Inr w \<longrightarrow>
        (\<exists>j'. body_json r = Inr j' \<and> agrees_status j' w))
   \<and> (body_json r = Inl err \<longrightarrow>
        parseJson (initRecordingResponseSchema isUrl) r = Inl err
        \<and> parseJson (recordingStatusSchema isUrl) r = Inl err)"
proof (intro conjI impI)
  show "(\<exists>v. parseJson (initRecordingResponseSchema isUrl) r = Inr v)
      \<longleftrightarrow> (\<exists>j. body_json r = Inr j \<and> shape_init isUrl j)"
    by (rule parseJson_succeeds) (rule init_schema_succeeds)
next
  assume "body_json r = Inr j \<and> \<not> shape_init isUrl j"
  then have b: "body_json r = Inr j" and c: "\<not> shape_init isUrl j" by simp_all
  show "\<exists>is. parseJson (initRecordingResponseSchema isUrl) r = Inl (ZodError is) \<and> is \<noteq> []"
    using init_schema_detail init_schema_succeeds b c by (rule parseJson_rejects)
next
  assume p: "parseJson (initRecordingResponseSchema isUrl) r = Inr v"
  show "\<exists>j'. body_json r = Inr j' \<and> agrees_init j' v"
    using init_schema_agrees p by (rule parseJson_agrees)
next
  show "(\<exists>w. parseJson (recordingStatusSchema isUrl) r = Inr w)
      \<longleftrightarrow> (\<exists>j. body_json r = Inr j \<and> shape_status isUrl j)"
    by (rule parseJson_succeeds) (rule status_schema_succeeds)
next
  assume "body_json r = Inr j \<and> \<not> shape_status isUrl j"
  then have b: "body_json r = Inr j" and c: "\<not> shape_status isUrl j" by simp_all
  show "\<exists>is. parseJson (recordingStatusSchema isUrl) r = Inl (ZodError is) \<and> is \<noteq> []"
    using status_schema_detail status_schema_succeeds b c by (rule parseJson_rejects)
next
  assume p: "parseJson (recordingStatusSchema isUrl) r = Inr w"
  show "\<exists>j'. body_json r = Inr j' \<and> agrees_status j' w"
    using status_schema_agrees p by (rule parseJson_agrees)
next
  assume "body_json r = Inl err"
  then show "parseJson (initRecordingResponseSchema isUrl) r = Inl err"
    by (rule parseJson_bad_json)
next
  assume "body_json r = Inl err"
  then show "parseJson (recordingStatusSchema isUrl) r = Inl err"
    by (rule parseJson_bad_json)
qed

lemmas eval_schema =
  parseJson_def json_response_def field_def z_string_url_def z_optional_def issues_of_def
  type_issue_def status_names_def accepts_https_def Let_def

theorem malformed_payload_rejected_witness:
  "body_json (json_response 200 init_without_url) = Inr init_without_url
   \<and> \<not> shape_init accepts_https init_without_url
   \<and> parseJson (initRecordingResponseSchema accepts_https) (json_response 200 init_without_url)
       = Inl (ZodError [\<lparr>issue_path = [Key ''uploadUrl''], issue_code = invalid_type ''string'' ZUndefined\<rparr>])
   \<and> body_json (json_response 200 status_with_number) = Inr status_with_number
   \<and> \<not> shape_status accepts_https status_with_number
   \<and> parseJson (recordingStatusSchema accepts_https) (json_response 200 status_with_number)
       = Inl (ZodError [\<lparr>issue_path = [Key ''status''],
                         issue_code = invalid_type
                           (joinValues [''CREATED'', ''UPLOADING'', ''UPLOADED'', ''PROCESSING'',
                                        ''COMPLETED'', ''FAILED''])
                           ZNumber\<rparr>])
   \<and> parseJson (initRecordingResponseSchema accepts_https) (json_response 200 init_with_headers)
       = Inr \<lparr>recordingId = ''r1'', uploadUrl = ''https://x/r1'',
              headers = Some [(''x-amz-acl'', ''private'')]\<rparr>
   \<and> agrees_init init_with_headers
        \<lparr>recordingId = ''r1'', uploadUrl = ''https://x/r1'', headers = Some [(''x-amz-acl'', ''private'')]\<rparr>
   \<and> parseJson (recordingStatusSchema accepts_https) (json_response 200 status_completed)
       = Inr \<lparr>status_recordingId = ''r1'', status = COMPLETED, status_error = None,
              steps = Some [\<lparr>index = Num 0, startSec = Num 0, endSec = Num 4, title = ''Open'',
                              description = ''Open the lid'',
                              evidence = Some \<lparr>transcriptSnippet = Some ''open it'', keyframeUrl = None\<rparr>\<rparr>]\<rparr>
   \<and> agrees_status status_completed
        \<lparr>status_recordingId = ''r1'', status = COMPLETED, status_error = None,
          steps = Some [\<lparr>index = Num 0, startSec = Num 0, endSec = Num 4, title = ''Open'',
                          description = ''Open the lid'',
                          evidence = Some \<lparr>transcriptSnippet = Some ''open it'', keyframeUrl = None\<rparr>\<rparr>]\<rparr>
   \<and> body_json (empty_response 200) = Inl (SyntaxError ''Unexpected end of JSON input'')
   \<and> parseJson (initRecordingResponseSchema accepts_https) (empty_response 200)
       = Inl (SyntaxError ''Unexpected end of JSON input'')"
proof -
  have a: "parseJson (initRecordingResponseSchema accepts_https) (json_response 200 init_without_url)
       = Inl (ZodError [\<lparr>issue_path = [Key ''uploadUrl''], issue_code = invalid_type ''string'' ZUndefined\<rparr>])"
    by (simp add: eval_schema init_without_url_def)
  have b: "parseJson (recordingStatusSchema accepts_https) (json_response 200 status_with_number)
       = Inl (ZodError [\<lparr>issue_path = [Key ''status''],
                         issue_code = invalid_type
                           (joinValues [''CREATED'', ''UPLOADING'', ''UPLOADED'', ''PROCESSING'',
                                        ''COMPLETED'', ''FAILED''])
                           ZNumber\<rparr>])"
    by (simp add: eval_schema status_with_number_def)
  have c: "parseJson (initRecordingResponseSchema accepts_https) (json_response 200 init_with_headers)
       = Inr \<lparr>recordingId = ''r1'', uploadUrl = ''https://x/r1'',
              headers = Some [(''x-amz-acl'', ''private'')]\<rparr>"
    by (simp add: eval_schema init_with_headers_def)
  have d: "parseJson (recordingStatusSchema accepts_https) (json_response 200 status_completed)
       = Inr \<lparr>status_recordingId = ''r1'', status = COMPLETED, status_error = None,
              steps = Some [\<lparr>index = Num 0, startSec = Num 0, endSec = Num 4, title = ''Open'',
                              description = ''Open the lid'',
                              evidence = Some \<lparr>transcriptSnippet = Some ''open it'', keyframeUrl = None\<rparr>\<rparr>]\<rparr>"
    by (simp add: eval_schema status_completed_def one_step_def)
  have e: "body_json (empty_response 200) = Inl (SyntaxError ''Unexpected end of JSON input'')"
    by (simp add: empty_response_def)
  show ?thesis
    using a b c d e
      malformed_payload_rejected [of accepts_https "json_response 200 init_without_url" init_without_url]
      malformed_payload_rejected [of accepts_https "json_response 200 status_with_number" status_with_number]
      malformed_payload_rejected [of accepts_https "json_response 200 init_with_headers" init_with_headers
        "\<lparr>recordingId = ''r1'', uploadUrl = ''https://x/r1'', headers = Some [(''x-amz-acl'', ''private'')]\<rparr>"]
      malformed_payload_rejected [of accepts_https "json_response 200 status_completed" status_completed _
        "\<lparr>status_recordingId = ''r1'', status = COMPLETED, status_error = None,
          steps = Some [\<lparr>index = Num 0, startSec = Num 0, endSec = Num 4, title = ''Open'',
                          description = ''Open the lid'',
                          evidence = Some \<lparr>transcriptSnippet = Some ''open it'', keyframeUrl = None\<rparr>\<rparr>]\<rparr>"]
      malformed_payload_rejected [of accepts_https "empty_response 200" _ _ _
        "SyntaxError ''Unexpected end of JSON input''"]
    by (simp add: json_response_def field_def init_without_url_def status_with_number_def
          init_with_headers_def status_completed_def one_step_def)
qed

text \<open>
  C7 (as stated). Three payloads that the data model rules out and the validation lets
  through: a status \<open>PROCESSING\<close> that has an error message and steps, with a step that
  ends before it starts; a status \<open>COMPLETED\<close> that has no steps, whose result has none
  either; an init result whose recording id is the empty string.
\<close>

theorem unchecked_constraints_counterexample:
  "\<not> model_status status_processing_with_steps
   \<and> parseJson (recordingStatusSchema accepts_https) (json_response 200 status_processing_with_steps)
       = Inr \<lparr>status_recordingId = ''r1'', status = PROCESSING, status_error = Some ''no audio'',
              steps = Some [\<lparr>index = Num 0, startSec = Num 9, endSec = Num 2, title = ''Open'',
                              description = ''Open the lid'', evidence = None\<rparr>]\<rparr>
   \<and> \<not> model_status status_completed_without_steps
   \<and> parseJson (recordingStatusSchema accepts_https) (json_response 200 status_completed_without_steps)
       = Inr \<lparr>status_recordingId = ''r1'', status = COMPLETED, status_error = None, steps = None\<rparr>
   \<and> \<not> model_init accepts_https init_with_empty_id
   \<and> parseJson (initRecordingResponseSchema accepts_https) (json_response 200 init_with_empty_id)
       = Inr \<lparr>recordingId = '''', uploadUrl = ''https://x/r1'', headers = None\<rparr>"
  by (simp add: eval_schema status_processing_with_steps_def status_completed_without_steps_def
        init_with_empty_id_def)

end
